(* ===== verification/Prelude.thy ===== *)
theory Prelude
  imports Main "HOL-Library.Word"
begin

unbundle bit_operations_syntax

text \<open>
  Shared vocabulary of the development: the machine integer types, byte addressed memory with
  loads and stores, the byte order conversions of \<open><arpa/inet.h>\<close> on a little endian host
  (every platform the repository builds for), the \<open>Result\<close> class, and the generic lemmas
  about them.  The collection \<open>mem_simps\<close> holds the rules that evaluate a load after a
  store; \<open>swap_simps\<close> those that cancel byte order conversions.

  Memory is a total function from offsets to bytes, because the code works with raw pointers
  into a struct: a read past the end of the struct is a read of whatever lies there, and the
  model keeps it as such instead of giving it a fixed value.
\<close>

named_theorems mem_simps
named_theorems swap_simps

type_synonym u8 = "8 word"
type_synonym u16 = "16 word"
type_synonym u32 = "32 word"
type_synonym u64 = "64 word"
type_synonym bytes = "8 word list"
type_synonym mem = "nat \<Rightarrow> 8 word"

section \<open>Byte addressed memory\<close>

definition load :: "mem \<Rightarrow> nat \<Rightarrow> nat \<Rightarrow> bytes" where
  "load m a n = map m [a..<a + n]"

definition store :: "mem \<Rightarrow> nat \<Rightarrow> bytes \<Rightarrow> mem" where
  "store m a bs = (\<lambda>i. if a \<le> i \<and> i < a + length bs then bs ! (i - a) else m i)"

lemma length_load [simp]: "length (load m a n) = n"
  by (simp add: load_def)

lemma nth_load [simp]: "i < n \<Longrightarrow> load m a n ! i = m (a + i)"
  by (simp add: load_def)

lemma load_0 [simp]: "load m a 0 = []"
  by (simp add: load_def)

lemma load_Suc: "load m a (Suc n) = m a # load m (Suc a) n"
  by (simp add: load_def upt_conv_Cons del: upt_Suc)

lemma load_1 [simp]: "load m a (Suc 0) = [m a]"
  by (simp add: load_def)

lemma load_2: "load m a 2 = [m a, m (a + 1)]"
  by (simp add: numeral_2_eq_2 load_Suc)

lemma load_4: "load m a 4 = [m a, m (a + 1), m (a + 2), m (a + 3)]"
  by (simp add: eval_nat_numeral load_Suc)

lemma load_append: "load m a (n + k) = load m a n @ load m (a + n) k"
  by (rule nth_equalityI) (auto simp: nth_append)

lemma load_cong: "(\<And>i. a \<le> i \<Longrightarrow> i < a + n \<Longrightarrow> m i = m' i) \<Longrightarrow> load m a n = load m' a n"
  by (rule nth_equalityI) auto

lemma take_load: "take k (load m a n) = load m a (min k n)"
  by (rule nth_equalityI) auto

lemma drop_load: "drop k (load m a n) = load m (a + k) (n - k)"
  by (rule nth_equalityI) (auto simp: add.assoc)

lemma store_in [mem_simps]: "a \<le> i \<Longrightarrow> i < a + length bs \<Longrightarrow> store m a bs i = bs ! (i - a)"
  by (simp add: store_def)

lemma store_below [mem_simps]: "i < a \<Longrightarrow> store m a bs i = m i"
  by (simp add: store_def)

lemma store_above [mem_simps]: "a + length bs \<le> i \<Longrightarrow> store m a bs i = m i"
  by (simp add: store_def)

lemma store_Nil [simp]: "store m a [] = m"
  by (rule ext) (auto simp: store_def)

lemma load_store_same [mem_simps]: "length bs = n \<Longrightarrow> load (store m a bs) a n = bs"
  by (rule nth_equalityI) (auto simp: store_def)

lemma load_store_below [mem_simps]: "b + n \<le> a \<Longrightarrow> load (store m a bs) b n = load m b n"
  by (rule load_cong) (simp add: store_def)

lemma load_store_above [mem_simps]:
  "a + length bs \<le> b \<Longrightarrow> load (store m a bs) b n = load m b n"
  by (rule load_cong) (simp add: store_def)

text \<open>Appending at the end of a loaded region: what every option writer of the code does.\<close>

lemma load_store_end:
  "a + n = e \<Longrightarrow> load (store m e bs) a (n + length bs) = load m a n @ bs"
  by (simp add: load_append mem_simps)

lemma store_store_end: "store (store m a bs) (a + length bs) cs = store m a (bs @ cs)"
  by (auto simp: store_def fun_eq_iff nth_append)

section \<open>Little endian integers and byte order\<close>

definition le16 :: "u8 \<Rightarrow> u8 \<Rightarrow> u16" where
  "le16 b0 b1 = ucast b0 OR push_bit 8 (ucast b1)"

definition le32 :: "u8 \<Rightarrow> u8 \<Rightarrow> u8 \<Rightarrow> u8 \<Rightarrow> u32" where
  "le32 b0 b1 b2 b3 =
     ucast b0 OR push_bit 8 (ucast b1) OR push_bit 16 (ucast b2) OR push_bit 24 (ucast b3)"

definition bytes16 :: "u16 \<Rightarrow> bytes" where
  "bytes16 w = [ucast w, ucast (drop_bit 8 w)]"

definition bytes32 :: "u32 \<Rightarrow> bytes" where
  "bytes32 w = [ucast w, ucast (drop_bit 8 w), ucast (drop_bit 16 w), ucast (drop_bit 24 w)]"

definition load16 :: "mem \<Rightarrow> nat \<Rightarrow> u16" where
  "load16 m a = le16 (m a) (m (a + 1))"

definition load32 :: "mem \<Rightarrow> nat \<Rightarrow> u32" where
  "load32 m a = le32 (m a) (m (a + 1)) (m (a + 2)) (m (a + 3))"

definition htons :: "u16 \<Rightarrow> u16" where
  "htons w = le16 (ucast (drop_bit 8 w)) (ucast w)"

definition htonl :: "u32 \<Rightarrow> u32" where
  "htonl w = le32 (ucast (drop_bit 24 w)) (ucast (drop_bit 16 w)) (ucast (drop_bit 8 w)) (ucast w)"

abbreviation ntohs :: "u16 \<Rightarrow> u16" where "ntohs \<equiv> htons"
abbreviation ntohl :: "u32 \<Rightarrow> u32" where "ntohl \<equiv> htonl"

lemma length_bytes16 [simp]: "length (bytes16 w) = 2"
  by (simp add: bytes16_def)

lemma length_bytes32 [simp]: "length (bytes32 w) = 4"
  by (simp add: bytes32_def)

lemma bit_le16:
  "bit (le16 b0 b1) n \<longleftrightarrow> (if n < 8 then bit b0 n else n < 16 \<and> bit b1 (n - 8))"
  by (auto simp: le16_def bit_simps dest: bit_imp_le_length)

lemma bit_le32:
  "bit (le32 b0 b1 b2 b3) n \<longleftrightarrow>
     (if n < 8 then bit b0 n else if n < 16 then bit b1 (n - 8)
      else if n < 24 then bit b2 (n - 16) else n < 32 \<and> bit b3 (n - 24))"
  by (auto simp: le32_def bit_simps dest: bit_imp_le_length)

lemma le16_bytes [simp]: "le16 (ucast w) (ucast (drop_bit 8 (w::u16))) = w"
  by (rule bit_word_eqI) (auto simp: bit_le16 bit_simps)

lemma le32_bytes [simp]:
  "le32 (ucast w) (ucast (drop_bit 8 w)) (ucast (drop_bit 16 w)) (ucast (drop_bit 24 (w::u32))) = w"
  by (rule bit_word_eqI) (auto simp: bit_le32 bit_simps)

lemma ucast_le32 [simp]:
  "(ucast (le32 a b c d) :: u8) = a"
  "(ucast (drop_bit 8 (le32 a b c d)) :: u8) = b"
  "(ucast (drop_bit 16 (le32 a b c d)) :: u8) = c"
  "(ucast (drop_bit 24 (le32 a b c d)) :: u8) = d"
  by (rule bit_word_eqI; auto simp: bit_le32 bit_simps)+

lemma ucast_le16 [simp]:
  "(ucast (le16 a b) :: u8) = a"
  "(ucast (drop_bit 8 (le16 a b)) :: u8) = b"
  by (rule bit_word_eqI; auto simp: bit_le16 bit_simps)+

lemma bytes32_le32 [simp]: "bytes32 (le32 a b c d) = [a, b, c, d]"
  by (simp add: bytes32_def)

lemma bytes16_le16 [simp]: "bytes16 (le16 a b) = [a, b]"
  by (simp add: bytes16_def)

lemma htonl_htonl [simp, swap_simps]: "htonl (htonl w) = w"
  by (simp add: htonl_def)

lemma htons_htons [simp, swap_simps]: "htons (htons w) = w"
  by (simp add: htons_def)

lemma htonl_eq_iff [swap_simps]: "htonl a = htonl b \<longleftrightarrow> a = b"
  by (metis htonl_htonl)

lemma htons_eq_iff [swap_simps]: "htons a = htons b \<longleftrightarrow> a = b"
  by (metis htons_htons)

lemma htonl_0 [simp]: "htonl 0 = 0"
  by (simp add: htonl_def le32_def)

lemma htonl_eq_0 [simp]: "htonl w = 0 \<longleftrightarrow> w = 0"
  by (metis htonl_0 htonl_htonl)

lemma load32_cong:
  "load m a 4 = load m' b 4 \<Longrightarrow> load32 m a = load32 m' b"
  by (simp add: load_4 load32_def)

lemma load32_bytes: "load m a 4 = bytes32 w \<Longrightarrow> load32 m a = w"
  by (simp add: load_4 load32_def bytes32_def)

lemma load16_bytes: "load m a 2 = bytes16 w \<Longrightarrow> load16 m a = w"
  by (simp add: load_2 load16_def bytes16_def)

lemma load_eq_bytes32: "load m a 4 = bytes32 (load32 m a)"
  by (simp add: load_4 load32_def)

lemma load32_store_same [mem_simps]: "load32 (store m a (bytes32 w)) a = w"
  by (rule load32_bytes) (simp add: mem_simps)

lemma load32_store_below [mem_simps]: "b + 4 \<le> a \<Longrightarrow> load32 (store m a bs) b = load32 m b"
  by (simp add: load32_def mem_simps)

lemma load32_store_above [mem_simps]:
  "a + length bs \<le> b \<Longrightarrow> load32 (store m a bs) b = load32 m b"
  by (simp add: load32_def mem_simps)

lemma load16_store_same [mem_simps]: "load16 (store m a (bytes16 w)) a = w"
  by (rule load16_bytes) (simp add: mem_simps)

lemma load16_store_below [mem_simps]: "b + 2 \<le> a \<Longrightarrow> load16 (store m a bs) b = load16 m b"
  by (simp add: load16_def mem_simps)

lemma load16_store_above [mem_simps]:
  "a + length bs \<le> b \<Longrightarrow> load16 (store m a bs) b = load16 m b"
  by (simp add: load16_def mem_simps)

section \<open>Results\<close>

text \<open>
  \<open>class Result\<close> (\<open>wifi/dhcp/common/include/result.h\<close> and
  \<open>network/ipv6proxy/result.h\<close>): success, or an error with its message.  The message is the
  format string up to the system's own text; the \<open>errno\<close> whose \<open>strerror\<close> the
  code appends is kept as a number.
\<close>

datatype result = Success | Error string "int option"

fun isSuccess :: "result \<Rightarrow> bool" where
  "isSuccess Success = True"
| "isSuccess (Error _ _) = False"

lemma isSuccess_iff [simp]: "isSuccess r \<longleftrightarrow> r = Success"
  by (cases r) auto

section \<open>Machines\<close>

text \<open>
  A program that runs for ever is a step relation.  What a machine's operations promise is an
  invariant; \<open>along\<close> is any path of it.
\<close>

locale machine =
  fixes step :: "'s \<Rightarrow> 's \<Rightarrow> bool"
    and inv :: "'s \<Rightarrow> bool"
  assumes inv_step: "inv s \<Longrightarrow> step s s' \<Longrightarrow> inv s'"
begin

lemma along: "step\<^sup>*\<^sup>* s s' \<Longrightarrow> inv s \<Longrightarrow> inv s'"
  by (induction rule: rtranclp_induct) (auto intro: inv_step)

text \<open>What every step from an invariant state satisfies holds for every step on a path.\<close>

lemma step_on_path:
  "step\<^sup>*\<^sup>* s s' \<Longrightarrow> inv s \<Longrightarrow> step s' s'' \<Longrightarrow> (\<And>a b. inv a \<Longrightarrow> step a b \<Longrightarrow> P a b) \<Longrightarrow> P s' s''"
  using along by blast

end

text \<open>A path given by its states.\<close>

fun stepwise :: "('s \<Rightarrow> 's \<Rightarrow> bool) \<Rightarrow> 's list \<Rightarrow> bool" where
  "stepwise step (a # b # ss) = (step a b \<and> stepwise step (b # ss))"
| "stepwise step ss = True"

lemma stepwise_reaches: "stepwise step (a # ss) \<Longrightarrow> step\<^sup>*\<^sup>* a (last (a # ss))"
  by (induction ss arbitrary: a) (auto intro: converse_rtranclp_into_rtranclp)

end
