(* ===== verification/Message.thy ===== *)
theory Message
  imports Prelude
begin

text \<open>
  The DHCP message (\<open>wifi/dhcp/common/message.cpp\<close>, \<open>include/message.h\<close>,
  \<open>include/dhcp.h\<close>): the wire struct, the constructors of the five message kinds, the option
  writer, the option scanner and the validity check.  A message is its raw memory and its size;
  \<^term>\<open>Dhcp_at\<close> reads the memory as the C struct.  The scanner is related to an abstract
  list of type-length-value options, and the interface \<open>option_store\<close> states what a writer
  and a scanner promise each other.
\<close>

section \<open>Constants of \<open>dhcp.h\<close>\<close>

definition PORT_BOOTP_SERVER :: u16 where "PORT_BOOTP_SERVER = 67"
definition PORT_BOOTP_CLIENT :: u16 where "PORT_BOOTP_CLIENT = 68"
definition OP_BOOTREQUEST :: u8 where "OP_BOOTREQUEST = 1"
definition OP_BOOTREPLY :: u8 where "OP_BOOTREPLY = 2"
definition FLAGS_BROADCAST :: u16 where "FLAGS_BROADCAST = 0x8000"
definition HTYPE_ETHER :: u8 where "HTYPE_ETHER = 1"
definition ETH_ALEN :: nat where "ETH_ALEN = 6"
definition OPT_COOKIE :: bytes where "OPT_COOKIE = [0x63, 0x82, 0x53, 0x63]"
definition OPT_SUBNET_MASK :: u8 where "OPT_SUBNET_MASK = 1"
definition OPT_GATEWAY :: u8 where "OPT_GATEWAY = 3"
definition OPT_DNS :: u8 where "OPT_DNS = 6"
definition OPT_MTU :: u8 where "OPT_MTU = 26"
definition OPT_BROADCAST_ADDR :: u8 where "OPT_BROADCAST_ADDR = 28"
definition OPT_REQUESTED_IP :: u8 where "OPT_REQUESTED_IP = 50"
definition OPT_LEASE_TIME :: u8 where "OPT_LEASE_TIME = 51"
definition OPT_MESSAGE_TYPE :: u8 where "OPT_MESSAGE_TYPE = 53"
definition OPT_SERVER_ID :: u8 where "OPT_SERVER_ID = 54"
definition OPT_PARAMETER_LIST :: u8 where "OPT_PARAMETER_LIST = 55"
definition OPT_T1 :: u8 where "OPT_T1 = 58"
definition OPT_T2 :: u8 where "OPT_T2 = 59"
definition OPT_END :: u8 where "OPT_END = 255"
definition DHCPDISCOVER :: u8 where "DHCPDISCOVER = 1"
definition DHCPOFFER :: u8 where "DHCPOFFER = 2"
definition DHCPREQUEST :: u8 where "DHCPREQUEST = 3"
definition DHCPACK :: u8 where "DHCPACK = 5"
definition DHCPNAK :: u8 where "DHCPNAK = 6"

lemmas dhcp_consts =
  PORT_BOOTP_SERVER_def PORT_BOOTP_CLIENT_def OP_BOOTREQUEST_def OP_BOOTREPLY_def
  FLAGS_BROADCAST_def HTYPE_ETHER_def ETH_ALEN_def OPT_COOKIE_def OPT_SUBNET_MASK_def
  OPT_GATEWAY_def OPT_DNS_def OPT_MTU_def OPT_BROADCAST_ADDR_def OPT_REQUESTED_IP_def
  OPT_LEASE_TIME_def OPT_MESSAGE_TYPE_def OPT_SERVER_ID_def OPT_PARAMETER_LIST_def
  OPT_T1_def OPT_T2_def OPT_END_def DHCPDISCOVER_def DHCPOFFER_def DHCPREQUEST_def
  DHCPACK_def DHCPNAK_def

section \<open>The wire struct\<close>

text \<open>
  \<open>struct Message::Dhcp\<close>.  The fields sit at their natural offsets without padding (the
  header asserts the first one); \<open>options\<close> is kept as the pointer it decays to, so that an
  index past 1023 reads the memory behind the struct.
\<close>

record Dhcp =
  op :: u8
  htype :: u8
  hlen :: u8
  hops :: u8
  xid :: u32
  secs :: u16
  flags :: u16
  ciaddr :: u32
  yiaddr :: u32
  siaddr :: u32
  giaddr :: u32
  chaddr :: bytes
  sname :: bytes
  file_name :: bytes
  options :: "nat \<Rightarrow> u8"

definition offset_options :: nat where "offset_options = 236"
definition sizeof_dhcpData :: nat where "sizeof_dhcpData = 1260"

definition Dhcp_at :: "mem \<Rightarrow> Dhcp" where
  "Dhcp_at d =
     \<lparr>op = d 0, htype = d 1, hlen = d 2, hops = d 3, xid = load32 d 4,
      secs = load16 d 8, flags = load16 d 10,
      ciaddr = load32 d 12, yiaddr = load32 d 16, siaddr = load32 d 20, giaddr = load32 d 24,
      chaddr = load d 28 16, sname = load d 44 64, file_name = load d 108 128,
      options = (\<lambda>i. d (offset_options + i))\<rparr>"

lemma Dhcp_at_sel [simp]:
  "op (Dhcp_at d) = d 0" "htype (Dhcp_at d) = d 1" "hlen (Dhcp_at d) = d 2"
  "hops (Dhcp_at d) = d 3" "xid (Dhcp_at d) = load32 d 4" "flags (Dhcp_at d) = load16 d 10"
  "secs (Dhcp_at d) = load16 d 8" "ciaddr (Dhcp_at d) = load32 d 12"
  "yiaddr (Dhcp_at d) = load32 d 16" "siaddr (Dhcp_at d) = load32 d 20"
  "giaddr (Dhcp_at d) = load32 d 24" "chaddr (Dhcp_at d) = load d 28 16"
  "options (Dhcp_at d) i = d (236 + i)"
  by (simp_all add: Dhcp_at_def offset_options_def)

record message =
  dhcpData :: mem
  mSize :: nat

abbreviation dhcp :: "message \<Rightarrow> Dhcp" where
  "dhcp m \<equiv> Dhcp_at (dhcpData m)"

definition capacity :: "message \<Rightarrow> nat" where
  "capacity m = sizeof_dhcpData"

definition setSize :: "message \<Rightarrow> nat \<Rightarrow> message" where
  "setSize m n = m\<lparr>mSize := n\<rparr>"

text \<open>Assignments to the 32 bit and 16 bit fields of the struct.\<close>

definition set_xid :: "u32 \<Rightarrow> message \<Rightarrow> message" where
  "set_xid v m = m\<lparr>dhcpData := store (dhcpData m) 4 (bytes32 v)\<rparr>"
definition set_flags :: "u16 \<Rightarrow> message \<Rightarrow> message" where
  "set_flags v m = m\<lparr>dhcpData := store (dhcpData m) 10 (bytes16 v)\<rparr>"
definition set_yiaddr :: "u32 \<Rightarrow> message \<Rightarrow> message" where
  "set_yiaddr v m = m\<lparr>dhcpData := store (dhcpData m) 16 (bytes32 v)\<rparr>"
definition set_giaddr :: "u32 \<Rightarrow> message \<Rightarrow> message" where
  "set_giaddr v m = m\<lparr>dhcpData := store (dhcpData m) 24 (bytes32 v)\<rparr>"

lemmas setter_defs = set_xid_def set_flags_def set_yiaddr_def set_giaddr_def

section \<open>Constructors\<close>

definition Message_empty :: message where
  "Message_empty = \<lparr>dhcpData = (\<lambda>_. 0), mSize = 0\<rparr>"

text \<open>
  \<open>Message(const uint8_t* data, size_t size)\<close>: the bytes after the copied ones stay as the
  memory \<open>g\<close> of the new object was.
\<close>

definition Message_of :: "mem \<Rightarrow> bytes \<Rightarrow> message" where
  "Message_of g data =
     (if length data \<le> sizeof_dhcpData
      then \<lparr>dhcpData = store g 0 data, mSize = length data\<rparr>
      else \<lparr>dhcpData = store g 0 (replicate sizeof_dhcpData 0), mSize = 0\<rparr>)"

definition nextOption :: "message \<Rightarrow> nat" where
  "nextOption m = mSize m"

definition updateSize :: "message \<Rightarrow> nat \<Rightarrow> message" where
  "updateSize m optionsEnd = m\<lparr>mSize := optionsEnd\<rparr>"

text \<open>
  The private constructor reads and increments the static \<open>sNextTransactionId\<close>, which is
  passed and returned.
\<close>

definition Message_new :: "u8 \<Rightarrow> bytes \<Rightarrow> u8 \<Rightarrow> u32 \<Rightarrow> message \<times> u32" where
  "Message_new operation macAddress type sNextTransactionId =
     (let d = store (\<lambda>_. 0) 0 [operation, HTYPE_ETHER, of_nat ETH_ALEN, 0];
          d = store d 10 (bytes16 (htons FLAGS_BROADCAST));
          d = store d 4 (bytes32 (htonl sNextTransactionId));
          d = store d 28 (take ETH_ALEN macAddress);
          d = store d offset_options (OPT_COOKIE @ [OPT_MESSAGE_TYPE, 1, type])
      in (updateSize \<lparr>dhcpData = d, mSize = 0\<rparr> (offset_options + 7), sNextTransactionId + 1))"

text \<open>
  \<open>addOption(uint8_t type, const void* data, uint8_t size)\<close>: the size is a \<open>uint8_t\<close>,
  and that many bytes of \<open>data\<close> are copied.
\<close>

definition addOption :: "message \<Rightarrow> u8 \<Rightarrow> bytes \<Rightarrow> u8 \<Rightarrow> message" where
  "addOption m type data sz =
     (let opts = nextOption m;
          m = m\<lparr>dhcpData := store (dhcpData m) opts ([type, sz] @ take (unat sz) data)\<rparr>
      in updateSize m (opts + 2 + unat sz))"

text \<open>\<open>addOption(uint8_t type, T data)\<close> for the 32 bit types it is used at.\<close>

definition addOption32 :: "message \<Rightarrow> u8 \<Rightarrow> u32 \<Rightarrow> message" where
  "addOption32 m type data = addOption m type (bytes32 data) 4"

text \<open>\<open>addOption(uint8_t type, T (&items)[N])\<close> for an array of bytes.\<close>

definition addOptionArray :: "message \<Rightarrow> u8 \<Rightarrow> bytes \<Rightarrow> message" where
  "addOptionArray m type items =
     (let opts = nextOption m;
          m = m\<lparr>dhcpData := store (dhcpData m) opts ([type, of_nat (length items)] @ items)\<rparr>
      in updateSize m (opts + 2 + length items))"

definition endOptions :: "message \<Rightarrow> message" where
  "endOptions m =
     (let opts = nextOption m;
          m = m\<lparr>dhcpData := store (dhcpData m) opts [OPT_END]\<rparr>
      in updateSize m (opts + 1))"

definition kDefaultLeaseTime :: u32 where
  "kDefaultLeaseTime = 10 * 60"

definition kRequestParameters :: bytes where
  "kRequestParameters =
     [OPT_SUBNET_MASK, OPT_GATEWAY, OPT_DNS, OPT_BROADCAST_ADDR, OPT_LEASE_TIME,
      OPT_T1, OPT_T2, OPT_MTU]"

definition discover :: "bytes \<Rightarrow> u32 \<Rightarrow> message \<times> u32" where
  "discover sourceMac nextXid =
     (let (m, nextXid) = Message_new OP_BOOTREQUEST sourceMac DHCPDISCOVER nextXid;
          m = addOptionArray m OPT_PARAMETER_LIST kRequestParameters
      in (endOptions m, nextXid))"

definition request :: "bytes \<Rightarrow> u32 \<Rightarrow> u32 \<Rightarrow> u32 \<Rightarrow> message \<times> u32" where
  "request sourceMac requestAddress serverAddress nextXid =
     (let (m, nextXid) = Message_new OP_BOOTREQUEST sourceMac DHCPREQUEST nextXid;
          m = addOptionArray m OPT_PARAMETER_LIST kRequestParameters;
          m = addOption32 m OPT_REQUESTED_IP requestAddress;
          m = addOption32 m OPT_SERVER_ID serverAddress
      in (endOptions m, nextXid))"

text \<open>
  \<open>Message::offer\<close> and \<open>Message::ack\<close> have the same body but for the message type.
  The size of the DNS option is \<open>numOfferedDnsServers * sizeof(in_addr_t)\<close> converted to
  \<open>uint8_t\<close>.
\<close>

definition lease_reply ::
  "u8 \<Rightarrow> message \<Rightarrow> u32 \<Rightarrow> u32 \<Rightarrow> u32 \<Rightarrow> u32 \<Rightarrow> u32 list \<Rightarrow> u32 \<Rightarrow> message \<times> u32" where
  "lease_reply type sourceMessage serverAddress offeredAddress offeredNetmask offeredGateway
       offeredDnsServers nextXid =
     (let macAddress = take ETH_ALEN (chaddr (dhcp sourceMessage));
          (m, nextXid) = Message_new OP_BOOTREPLY macAddress type nextXid;
          m = set_xid (xid (dhcp sourceMessage)) m;
          m = set_flags (flags (dhcp sourceMessage)) m;
          m = set_yiaddr offeredAddress m;
          m = set_giaddr (giaddr (dhcp sourceMessage)) m;
          m = addOption32 m OPT_SERVER_ID serverAddress;
          m = addOption32 m OPT_LEASE_TIME kDefaultLeaseTime;
          m = addOption32 m OPT_SUBNET_MASK offeredNetmask;
          m = addOption32 m OPT_GATEWAY offeredGateway;
          m = addOption m OPT_DNS (concat (map bytes32 offeredDnsServers))
                (of_nat (length offeredDnsServers * 4))
      in (endOptions m, nextXid))"

definition offer ::
  "message \<Rightarrow> u32 \<Rightarrow> u32 \<Rightarrow> u32 \<Rightarrow> u32 \<Rightarrow> u32 list \<Rightarrow> u32 \<Rightarrow> message \<times> u32" where
  "offer = lease_reply DHCPOFFER"

definition ack ::
  "message \<Rightarrow> u32 \<Rightarrow> u32 \<Rightarrow> u32 \<Rightarrow> u32 \<Rightarrow> u32 list \<Rightarrow> u32 \<Rightarrow> message \<times> u32" where
  "ack = lease_reply DHCPACK"

definition nack :: "message \<Rightarrow> u32 \<Rightarrow> u32 \<Rightarrow> message \<times> u32" where
  "nack sourceMessage serverAddress nextXid =
     (let macAddress = take ETH_ALEN (chaddr (dhcp sourceMessage));
          (m, nextXid) = Message_new OP_BOOTREPLY macAddress DHCPNAK nextXid;
          m = set_xid (xid (dhcp sourceMessage)) m;
          m = set_flags (flags (dhcp sourceMessage)) m;
          m = set_giaddr (giaddr (dhcp sourceMessage)) m;
          m = addOption32 m OPT_SERVER_ID serverAddress
      in (endOptions m, nextXid))"

section \<open>Inspection\<close>

definition optionsSize :: "message \<Rightarrow> nat" where
  "optionsSize m = (if mSize m \<le> offset_options then 0 else mSize m - offset_options)"

text \<open>
  \<open>getOption\<close>: the loop from index \<open>i\<close>; a hit is the offset of the value in
  \<open>options\<close> and the length byte.
\<close>

function getOption_from :: "message \<Rightarrow> u8 \<Rightarrow> nat \<Rightarrow> (nat \<times> u8) option" where
  "getOption_from m expectedOptCode i =
     (if i + 2 < optionsSize m then
        (let optCode = options (dhcp m) i; optLen = options (dhcp m) (i + 1)
         in if optCode = OPT_END then None
            else if optCode = expectedOptCode then Some (i + 2, optLen)
            else getOption_from m expectedOptCode (i + 2 + unat optLen))
      else None)"
  by pat_completeness auto
termination
  by (relation "measure (\<lambda>(m, c, i). optionsSize m - i)") auto

declare getOption_from.simps [simp del]

definition getOption :: "message \<Rightarrow> u8 \<Rightarrow> (nat \<times> u8) option" where
  "getOption m expectedOptCode = getOption_from m expectedOptCode 4"

definition message_type :: "message \<Rightarrow> u8" where
  "message_type m =
     (case getOption m OPT_MESSAGE_TYPE of
        Some (opt, len) \<Rightarrow> if len = 1 then options (dhcp m) opt else 0
      | None \<Rightarrow> 0)"

definition serverId :: "message \<Rightarrow> u32" where
  "serverId m =
     (case getOption m OPT_SERVER_ID of
        Some (opt, len) \<Rightarrow> if len = 4 then load32 (dhcpData m) (offset_options + opt) else 0
      | None \<Rightarrow> 0)"

definition requestedIp :: "message \<Rightarrow> u32" where
  "requestedIp m =
     (case getOption m OPT_REQUESTED_IP of
        Some (opt, len) \<Rightarrow> if len = 4 then load32 (dhcpData m) (offset_options + opt) else 0
      | None \<Rightarrow> 0)"

definition isValidDhcpMessage :: "message \<Rightarrow> u8 \<Rightarrow> bool" where
  "isValidDhcpMessage m expectedOp =
     (if offset_options + 4 > mSize m then False
      else if op (dhcp m) \<noteq> expectedOp then False
      else if htype (dhcp m) \<noteq> HTYPE_ETHER then False
      else if hlen (dhcp m) \<noteq> of_nat ETH_ALEN then False
      else if options (dhcp m) 0 \<noteq> OPT_COOKIE ! 0 then False
      else if options (dhcp m) 1 \<noteq> OPT_COOKIE ! 1 then False
      else if options (dhcp m) 2 \<noteq> OPT_COOKIE ! 2 then False
      else if options (dhcp m) 3 \<noteq> OPT_COOKIE ! 3 then False
      else True)"

definition isValidDhcpMessageXid :: "message \<Rightarrow> u8 \<Rightarrow> u32 \<Rightarrow> bool" where
  "isValidDhcpMessageXid m expectedOp expectedXid =
     (if \<not> isValidDhcpMessage m expectedOp then False
      else if xid (dhcp m) \<noteq> expectedXid then False
      else True)"

end
