(* ===== verification/Options.thy ===== *)
theory Options
  imports Message
begin

text \<open>
  What the option area of a DHCP message holds.  The abstract view is a list of (code, value)
  pairs and its wire encoding; \<open>option_store\<close> is the interface between whoever writes options
  and whoever looks them up, and the DHCP message implements it: a value written by
  \<open>addOption\<close> is the value \<open>getOption\<close> finds.
\<close>

section \<open>Type-length-value lists\<close>

type_synonym tlv = "u8 \<times> bytes"

definition encode_tlv :: "tlv \<Rightarrow> bytes" where
  "encode_tlv t = fst t # of_nat (length (snd t)) # snd t"

definition encode_tlvs :: "tlv list \<Rightarrow> bytes" where
  "encode_tlvs ts = concat (map encode_tlv ts)"

definition wf_tlv :: "tlv \<Rightarrow> bool" where
  "wf_tlv t \<longleftrightarrow> fst t \<noteq> OPT_END \<and> length (snd t) < 256"

lemma encode_tlvs_simps [simp]:
  "encode_tlvs [] = []"
  "encode_tlvs (t # ts) = encode_tlv t @ encode_tlvs ts"
  "encode_tlvs (ts @ us) = encode_tlvs ts @ encode_tlvs us"
  by (simp_all add: encode_tlvs_def)

lemma length_encode_tlv [simp]: "length (encode_tlv t) = 2 + length (snd t)"
  by (simp add: encode_tlv_def)

lemma unat_of_nat_u8 [simp]: "n < 256 \<Longrightarrow> unat (of_nat n :: u8) = n"
  by (simp add: unat_of_nat)

section \<open>The interface\<close>

locale option_store =
  fixes put :: "'m \<Rightarrow> u8 \<Rightarrow> bytes \<Rightarrow> 'm"
    and finish :: "'m \<Rightarrow> 'm"
    and get :: "'m \<Rightarrow> u8 \<Rightarrow> bytes option"
    and holds :: "'m \<Rightarrow> tlv list \<Rightarrow> bool"
  assumes holds_put: "holds m ts \<Longrightarrow> wf_tlv (c, d) \<Longrightarrow> holds (put m c d) (ts @ [(c, d)])"
    and get_finish: "holds m ts \<Longrightarrow> get (finish m) c = map_of ts c"
begin

fun put_all :: "'m \<Rightarrow> tlv list \<Rightarrow> 'm" where
  "put_all m [] = m"
| "put_all m ((c, d) # ds) = put_all (put m c d) ds"

lemma holds_put_all:
  "holds m ts \<Longrightarrow> list_all wf_tlv ds \<Longrightarrow> holds (put_all m ds) (ts @ ds)"
proof (induction ds arbitrary: m ts)
  case Nil
  then show ?case by simp
next
  case (Cons x ds)
  obtain c d where x: "x = (c, d)" by (cases x)
  have "holds (put m c d) (ts @ [(c, d)])"
    using Cons.prems x by (auto intro: holds_put)
  then have "holds (put_all (put m c d) ds) ((ts @ [(c, d)]) @ ds)"
    using Cons.prems(2) by (intro Cons.IH) auto
  then show ?case by (simp add: x)
qed

lemma get_put_all:
  "holds m ts \<Longrightarrow> list_all wf_tlv ds \<Longrightarrow> get (finish (put_all m ds)) c = map_of (ts @ ds) c"
  by (rule get_finish) (rule holds_put_all)

lemma get_first_written:
  assumes "holds m ts" "list_all wf_tlv (es @ (c, d) # ds)"
    and "c \<notin> fst ` set ts" "c \<notin> fst ` set es"
  shows "get (finish (put_all m (es @ (c, d) # ds))) c = Some d"
proof -
  have "map_of (ts @ es) c = None"
    using assms(3,4) by (simp add: map_of_eq_None_iff image_Un)
  then show ?thesis
    using get_put_all [OF assms(1,2), of c] by (simp add: map_add_def split: option.splits)
qed

end

section \<open>The DHCP message as an option store\<close>

definition option_value :: "message \<Rightarrow> u8 \<Rightarrow> bytes option" where
  "option_value m c =
     map_option (\<lambda>(opt, len). load (dhcpData m) (offset_options + opt) (unat len)) (getOption m c)"

definition put_option :: "message \<Rightarrow> u8 \<Rightarrow> bytes \<Rightarrow> message" where
  "put_option m c d = addOption m c d (of_nat (length d))"

text \<open>The option area so far: the cookie, then the encoded options, up to the message's size.\<close>

definition carries :: "message \<Rightarrow> tlv list \<Rightarrow> bool" where
  "carries m ts \<longleftrightarrow>
     list_all wf_tlv ts \<and>
     mSize m = 240 + length (encode_tlvs ts) \<and>
     load (dhcpData m) 236 (4 + length (encode_tlvs ts)) = OPT_COOKIE @ encode_tlvs ts"

definition carries_end :: "message \<Rightarrow> tlv list \<Rightarrow> bool" where
  "carries_end m ts \<longleftrightarrow>
     list_all wf_tlv ts \<and>
     241 + length (encode_tlvs ts) \<le> mSize m \<and>
     load (dhcpData m) 236 (5 + length (encode_tlvs ts)) = OPT_COOKIE @ encode_tlvs ts @ [OPT_END]"

lemma length_OPT_COOKIE [simp]: "length OPT_COOKIE = 4"
  by (simp add: OPT_COOKIE_def)

lemma carries_put_option:
  assumes "carries m ts" "wf_tlv (c, d)"
  shows "carries (put_option m c d) (ts @ [(c, d)])"
proof -
  have len: "length d < 256" using assms(2) by (simp add: wf_tlv_def)
  have "load (store (dhcpData m) (mSize m) ([c, of_nat (length d)] @ d)) 236
          ((4 + length (encode_tlvs ts)) + length ([c, of_nat (length d)] @ d)) =
        load (dhcpData m) 236 (4 + length (encode_tlvs ts)) @ [c, of_nat (length d)] @ d"
    using assms(1) by (intro load_store_end) (simp add: carries_def)
  then show ?thesis
    using assms len
    by (simp add: carries_def put_option_def addOption_def nextOption_def updateSize_def
        encode_tlv_def algebra_simps)
qed

lemma carries_endOptions:
  assumes "carries m ts"
  shows "carries_end (endOptions m) ts" "mSize (endOptions m) = 241 + length (encode_tlvs ts)"
proof -
  have "load (store (dhcpData m) (mSize m) [OPT_END]) 236
          ((4 + length (encode_tlvs ts)) + length [OPT_END]) =
        load (dhcpData m) 236 (4 + length (encode_tlvs ts)) @ [OPT_END]"
    using assms by (intro load_store_end) (simp add: carries_def)
  then show "carries_end (endOptions m) ts" "mSize (endOptions m) = 241 + length (encode_tlvs ts)"
    using assms
    by (simp_all add: carries_def carries_end_def endOptions_def nextOption_def updateSize_def
        algebra_simps)
qed

text \<open>The scanner against the encoding: induction over the options still ahead.\<close>

lemma getOption_from_encoded:
  assumes "load (dhcpData m) (236 + i) (length (encode_tlvs ts) + 1) = encode_tlvs ts @ [OPT_END]"
    and "i + length (encode_tlvs ts) + 1 \<le> optionsSize m"
    and "list_all wf_tlv ts"
  shows "map_option (\<lambda>(opt, len). load (dhcpData m) (236 + opt) (unat len)) (getOption_from m c i)
         = map_of ts c"
  using assms
proof (induction ts arbitrary: i)
  case Nil
  then have "dhcpData m (236 + i) = OPT_END"
    by simp
  then show ?case
    by (subst getOption_from.simps) (simp add: Let_def)
next
  case (Cons t ts)
  obtain k d where t: "t = (k, d)" by (cases t)
  let ?n = "2 + length d"
  have "wf_tlv (k, d)" and wft: "list_all wf_tlv ts"
    using Cons.prems(3) by (simp_all add: t)
  then have wf: "k \<noteq> OPT_END" "length d < 256"
    by (simp_all add: wf_tlv_def)
  have split: "load (dhcpData m) (236 + i) (?n + (length (encode_tlvs ts) + 1)) =
      encode_tlv (k, d) @ encode_tlvs ts @ [OPT_END]"
    using Cons.prems(1) by (simp add: t add.assoc)
  have "load (dhcpData m) (236 + i) ?n @
      load (dhcpData m) (236 + (i + ?n)) (length (encode_tlvs ts) + 1) =
      encode_tlv (k, d) @ encode_tlvs ts @ [OPT_END]"
    using split unfolding load_append [of _ "236 + i" ?n] by (simp only: add.assoc)
  then have hd: "load (dhcpData m) (236 + i) ?n = encode_tlv (k, d)"
    and tl: "load (dhcpData m) (236 + (i + ?n)) (length (encode_tlvs ts) + 1) =
      encode_tlvs ts @ [OPT_END]"
    by simp_all
  have code: "dhcpData m (236 + i) = k" and len: "dhcpData m (236 + i + 1) = of_nat (length d)"
    and val: "load (dhcpData m) (236 + i + 2) (length d) = d"
    using hd by (simp_all add: load_Suc encode_tlv_def)
  have inb: "i + 2 < optionsSize m" using Cons.prems(2) by (simp add: t)
  have IH: "map_option (\<lambda>(opt, len). load (dhcpData m) (236 + opt) (unat len))
       (getOption_from m c (i + ?n)) = map_of ts c"
    using Cons.prems(2) wft tl by (intro Cons.IH) (simp_all add: t)
  show ?case
  proof (cases "k = c")
    case True
    then show ?thesis
      using inb code len val wf
      by (subst getOption_from.simps) (simp add: Let_def t add.assoc)
  next
    case False
    then show ?thesis
      using inb code len wf IH
      by (subst getOption_from.simps) (simp add: Let_def t add.assoc)
  qed
qed

lemma option_value_encoded:
  assumes "carries_end m ts"
  shows "option_value m c = map_of ts c"
proof -
  have "load (dhcpData m) (236 + 4) (length (encode_tlvs ts) + 1) = encode_tlvs ts @ [OPT_END]"
    using assms load_append [of "dhcpData m" 236 4 "length (encode_tlvs ts) + 1"]
    by (simp add: carries_end_def)
  moreover have "4 + length (encode_tlvs ts) + 1 \<le> optionsSize m" and "list_all wf_tlv ts"
    using assms by (auto simp: carries_end_def optionsSize_def offset_options_def)
  ultimately show ?thesis
    unfolding option_value_def getOption_def offset_options_def
    by (intro getOption_from_encoded)
qed

interpretation dhcp_options: option_store put_option endOptions option_value carries
  by unfold_locales (auto intro: carries_put_option carries_endOptions option_value_encoded)

text \<open>The option writers of the code are all \<^term>\<open>put_option\<close>.\<close>

lemma addOption32_put: "addOption32 m c v = put_option m c (bytes32 v)"
  by (simp add: addOption32_def put_option_def)

lemma addOptionArray_put: "length d < 256 \<Longrightarrow> addOptionArray m c d = put_option m c d"
  by (simp add: addOptionArray_def put_option_def addOption_def)

lemma carries_set [simp]:
  "carries (set_xid v m) ts = carries m ts"
  "carries (set_flags w m) ts = carries m ts"
  "carries (set_yiaddr v m) ts = carries m ts"
  "carries (set_giaddr v m) ts = carries m ts"
  by (simp_all add: carries_def setter_defs mem_simps)

lemma carries_Message_new:
  "length mac = ETH_ALEN \<Longrightarrow>
   carries (fst (Message_new operation mac type x)) [(OPT_MESSAGE_TYPE, [type])]"
  by (simp add: carries_def Message_new_def updateSize_def offset_options_def mem_simps
      encode_tlv_def wf_tlv_def dhcp_consts Let_def)

section \<open>Reading typed options\<close>

lemma option_value_length:
  assumes "option_value m c = Some d" "n < 256" "length d = n"
  obtains opt where "getOption m c = Some (opt, of_nat n)"
    and "load (dhcpData m) (offset_options + opt) n = d"
proof -
  obtain opt len where g: "getOption m c = Some (opt, len)"
    and d: "load (dhcpData m) (offset_options + opt) (unat len) = d"
    using assms(1) by (auto simp: option_value_def)
  have "unat len = n" using arg_cong [OF d, of length] assms(3) by simp
  moreover from this have "len = of_nat n" by (metis unat_of_nat_u8 assms(2) word_unat_eq_iff)
  ultimately show ?thesis using that g d by simp
qed

lemma message_type_value:
  assumes "option_value m OPT_MESSAGE_TYPE = Some [t]"
  shows "message_type m = t"
  using assms
  by (rule option_value_length [where n = 1]) (simp_all add: message_type_def offset_options_def)

lemma serverId_value:
  assumes "option_value m OPT_SERVER_ID = Some (bytes32 w)"
  shows "serverId m = w"
  using assms
  by (rule option_value_length [where n = 4]) (simp_all add: serverId_def load32_bytes)

lemma requestedIp_value:
  assumes "option_value m OPT_REQUESTED_IP = Some (bytes32 w)"
  shows "requestedIp m = w"
  using assms
  by (rule option_value_length [where n = 4]) (simp_all add: requestedIp_def load32_bytes)

lemmas typed_values = message_type_value serverId_value requestedIp_value

section \<open>The messages the program builds\<close>

text \<open>The options of the five message kinds, in the order they are written.\<close>

definition discover_tlvs :: "tlv list" where
  "discover_tlvs = [(OPT_MESSAGE_TYPE, [DHCPDISCOVER]), (OPT_PARAMETER_LIST, kRequestParameters)]"

definition request_tlvs :: "u32 \<Rightarrow> u32 \<Rightarrow> tlv list" where
  "request_tlvs a s =
     [(OPT_MESSAGE_TYPE, [DHCPREQUEST]), (OPT_PARAMETER_LIST, kRequestParameters),
      (OPT_REQUESTED_IP, bytes32 a), (OPT_SERVER_ID, bytes32 s)]"

definition lease_tlvs :: "u8 \<Rightarrow> u32 \<Rightarrow> u32 \<Rightarrow> u32 \<Rightarrow> u32 list \<Rightarrow> tlv list" where
  "lease_tlvs type s nm gw dns =
     [(OPT_MESSAGE_TYPE, [type]), (OPT_SERVER_ID, bytes32 s),
      (OPT_LEASE_TIME, bytes32 kDefaultLeaseTime), (OPT_SUBNET_MASK, bytes32 nm),
      (OPT_GATEWAY, bytes32 gw), (OPT_DNS, concat (map bytes32 dns))]"

definition nack_tlvs :: "u32 \<Rightarrow> tlv list" where
  "nack_tlvs s = [(OPT_MESSAGE_TYPE, [DHCPNAK]), (OPT_SERVER_ID, bytes32 s)]"

lemmas tlvs_defs = discover_tlvs_def request_tlvs_def lease_tlvs_def nack_tlvs_def

lemma length_bytes32s [simp]: "length (concat (map bytes32 ws)) = 4 * length ws"
  by (induction ws) auto

lemma length_kRequestParameters [simp]: "length kRequestParameters = 8"
  by (simp add: kRequestParameters_def)

lemma addOption_dns:
  "length dns \<le> 63 \<Longrightarrow>
   addOption m OPT_DNS (concat (map bytes32 dns)) (of_nat (length dns) * 4) =
   put_option m OPT_DNS (concat (map bytes32 dns))"
  by (simp add: put_option_def mult.commute)

lemma wf_tlv_consts [simp]:
  "length d < 256 \<Longrightarrow> wf_tlv (OPT_MESSAGE_TYPE, d)" "length d < 256 \<Longrightarrow> wf_tlv (OPT_SERVER_ID, d)"
  "length d < 256 \<Longrightarrow> wf_tlv (OPT_LEASE_TIME, d)" "length d < 256 \<Longrightarrow> wf_tlv (OPT_SUBNET_MASK, d)"
  "length d < 256 \<Longrightarrow> wf_tlv (OPT_GATEWAY, d)" "length d < 256 \<Longrightarrow> wf_tlv (OPT_DNS, d)"
  "length d < 256 \<Longrightarrow> wf_tlv (OPT_REQUESTED_IP, d)"
  "length d < 256 \<Longrightarrow> wf_tlv (OPT_PARAMETER_LIST, d)"
  by (simp_all add: wf_tlv_def dhcp_consts)

lemma carries_put_simple:
  "carries m ts \<Longrightarrow> wf_tlv (c, d) \<Longrightarrow> us = ts @ [(c, d)] \<Longrightarrow> carries (put_option m c d) us"
  by (simp add: carries_put_option)

text \<open>
  \<open>extends m m'\<close>: \<open>m'\<close> is \<open>m\<close> with bytes appended between the two sizes and nothing
  else written, in particular nothing behind its end.
\<close>

definition extends :: "message \<Rightarrow> message \<Rightarrow> bool" where
  "extends m m' \<longleftrightarrow>
     mSize m \<le> mSize m' \<and>
     (\<forall>i. i < mSize m \<or> mSize m' \<le> i \<longrightarrow> dhcpData m' i = dhcpData m i)"

lemma extends_refl [simp]: "extends m m"
  by (simp add: extends_def)

lemma extends_trans: "extends a b \<Longrightarrow> extends b c \<Longrightarrow> extends a c"
  by (fastforce simp: extends_def)

lemma extends_put_option: "length d < 256 \<Longrightarrow> extends m (put_option m c d)"
  by (auto simp: extends_def put_option_def addOption_def nextOption_def updateSize_def mem_simps
      Let_def)

lemma extends_endOptions: "extends m (endOptions m)"
  by (auto simp: extends_def endOptions_def nextOption_def updateSize_def mem_simps Let_def)

lemma extends_put_trans: "extends a m \<Longrightarrow> length d < 256 \<Longrightarrow> extends a (put_option m c d)"
  by (rule extends_trans [OF _ extends_put_option])

lemma extends_load: "extends m m' \<Longrightarrow> a + n \<le> mSize m \<Longrightarrow> load (dhcpData m') a n = load (dhcpData m) a n"
  by (rule load_cong) (simp add: extends_def)

lemma extends_load32: "extends m m' \<Longrightarrow> a + 4 \<le> mSize m \<Longrightarrow> load32 (dhcpData m') a = load32 (dhcpData m) a"
  by (rule load32_cong) (rule extends_load)

lemma extends_load16: "extends m m' \<Longrightarrow> a + 2 \<le> mSize m \<Longrightarrow> load16 (dhcpData m') a = load16 (dhcpData m) a"
  by (simp add: extends_def load16_def)

text \<open>
  \<open>built m base ts\<close>: \<open>m\<close> is the finished message that carries the options \<open>ts\<close> on top
  of the header of \<open>base\<close>.
\<close>

definition built :: "message \<Rightarrow> message \<Rightarrow> tlv list \<Rightarrow> bool" where
  "built m base ts \<longleftrightarrow>
     extends base m \<and> carries_end m ts \<and> mSize m = 241 + length (encode_tlvs ts)"

lemma built_endOptions:
  "carries m ts \<Longrightarrow> extends base m \<Longrightarrow> built (endOptions m) base ts"
  by (simp add: built_def carries_endOptions extends_trans [OF _ extends_endOptions])

lemma built_option_value: "built m base ts \<Longrightarrow> option_value m c = map_of ts c"
  by (simp add: built_def option_value_encoded)

definition lease_header :: "u8 \<Rightarrow> message \<Rightarrow> u32 \<Rightarrow> u32 \<Rightarrow> message" where
  "lease_header type src a x =
     set_giaddr (giaddr (dhcp src)) (set_yiaddr a (set_flags (flags (dhcp src))
       (set_xid (xid (dhcp src))
         (fst (Message_new OP_BOOTREPLY (take ETH_ALEN (chaddr (dhcp src))) type x)))))"

definition nack_header :: "message \<Rightarrow> u32 \<Rightarrow> message" where
  "nack_header src x =
     set_giaddr (giaddr (dhcp src)) (set_flags (flags (dhcp src))
       (set_xid (xid (dhcp src))
         (fst (Message_new OP_BOOTREPLY (take ETH_ALEN (chaddr (dhcp src))) DHCPNAK x))))"

lemmas put_intros = carries_put_simple extends_put_trans built_endOptions

lemma built_lease_reply:
  assumes "length dns \<le> 63"
  shows "built (fst (lease_reply type src s a nm gw dns x)) (lease_header type src a x)
           (lease_tlvs type s nm gw dns)"
proof -
  let ?m = "lease_header type src a x"
  have "carries ?m [(OPT_MESSAGE_TYPE, [type])]"
    by (simp add: lease_header_def carries_Message_new ETH_ALEN_def)
  then show ?thesis
    using assms
    by (simp add: lease_reply_def Let_def case_prod_beta addOption32_put addOption_dns
        lease_tlvs_def flip: lease_header_def Dhcp_at_sel) (intro put_intros; simp)
qed

lemma built_nack:
  "built (fst (nack src s x)) (nack_header src x) (nack_tlvs s)"
proof -
  have "carries (nack_header src x) [(OPT_MESSAGE_TYPE, [DHCPNAK])]"
    by (simp add: nack_header_def carries_Message_new ETH_ALEN_def)
  then show ?thesis
    by (simp add: nack_def Let_def case_prod_beta addOption32_put nack_tlvs_def
        flip: nack_header_def Dhcp_at_sel) (intro put_intros; simp)
qed

lemma built_request:
  assumes "length mac = ETH_ALEN"
  shows "built (fst (request mac a s x)) (fst (Message_new OP_BOOTREQUEST mac DHCPREQUEST x))
           (request_tlvs a s)"
  using carries_Message_new [OF assms, of OP_BOOTREQUEST DHCPREQUEST x]
  by (simp add: request_def Let_def case_prod_beta addOption32_put addOptionArray_put
      request_tlvs_def) (intro put_intros; simp)

lemma built_discover:
  assumes "length mac = ETH_ALEN"
  shows "built (fst (discover mac x)) (fst (Message_new OP_BOOTREQUEST mac DHCPDISCOVER x))
           discover_tlvs"
  using carries_Message_new [OF assms, of OP_BOOTREQUEST DHCPDISCOVER x]
  by (simp add: discover_def Let_def case_prod_beta addOptionArray_put discover_tlvs_def)
    (intro put_intros; simp)

end
