(* ===== verification/MessageProps.thy ===== *)
theory MessageProps
  imports Options
begin

text \<open>
  The properties of the DHCP messages: what a receiver of a built message reads back, that
  building one stays inside the struct, and how far the option scanner can look.
\<close>

section \<open>Headers and validity of built messages\<close>

lemma Message_new_header:
  assumes "length mac = ETH_ALEN"
  shows "dhcpData (fst (Message_new opr mac t x)) 0 = opr"
    and "dhcpData (fst (Message_new opr mac t x)) (Suc 0) = HTYPE_ETHER"
    and "dhcpData (fst (Message_new opr mac t x)) 2 = of_nat ETH_ALEN"
    and "load32 (dhcpData (fst (Message_new opr mac t x))) 4 = htonl x"
    and "load (dhcpData (fst (Message_new opr mac t x))) 28 6 = mac"
    and "mSize (fst (Message_new opr mac t x)) = 243"
    and "243 \<le> i \<Longrightarrow> dhcpData (fst (Message_new opr mac t x)) i = 0"
  using assms
  by (simp_all add: Message_new_def updateSize_def offset_options_def mem_simps Let_def
      ETH_ALEN_def OPT_COOKIE_def)

lemmas set_header = setter_defs

lemma lease_header_fields:
  "dhcpData (lease_header t src a x) 0 = OP_BOOTREPLY"
  "dhcpData (lease_header t src a x) (Suc 0) = HTYPE_ETHER"
  "dhcpData (lease_header t src a x) 2 = of_nat ETH_ALEN"
  "load32 (dhcpData (lease_header t src a x)) 4 = load32 (dhcpData src) 4"
  "load16 (dhcpData (lease_header t src a x)) 10 = load16 (dhcpData src) 10"
  "load32 (dhcpData (lease_header t src a x)) 16 = a"
  "load32 (dhcpData (lease_header t src a x)) 24 = load32 (dhcpData src) 24"
  "load (dhcpData (lease_header t src a x)) 28 6 = load (dhcpData src) 28 6"
  "mSize (lease_header t src a x) = 243"
  "243 \<le> i \<Longrightarrow> dhcpData (lease_header t src a x) i = 0"
  by (simp_all add: lease_header_def setter_defs Message_new_header mem_simps ETH_ALEN_def
      take_load)

lemma nack_header_fields:
  "dhcpData (nack_header src x) 0 = OP_BOOTREPLY"
  "dhcpData (nack_header src x) (Suc 0) = HTYPE_ETHER"
  "dhcpData (nack_header src x) 2 = of_nat ETH_ALEN"
  "load32 (dhcpData (nack_header src x)) 4 = load32 (dhcpData src) 4"
  "load (dhcpData (nack_header src x)) 28 6 = load (dhcpData src) 28 6"
  "mSize (nack_header src x) = 243"
  "243 \<le> i \<Longrightarrow> dhcpData (nack_header src x) i = 0"
  by (simp_all add: nack_header_def setter_defs Message_new_header mem_simps ETH_ALEN_def
      take_load)

lemma built_header:
  assumes "built m base ts" "mSize base = 243"
  shows "i < 243 \<Longrightarrow> dhcpData m i = dhcpData base i"
    and "a + 4 \<le> 243 \<Longrightarrow> load32 (dhcpData m) a = load32 (dhcpData base) a"
    and "a + 2 \<le> 243 \<Longrightarrow> load16 (dhcpData m) a = load16 (dhcpData base) a"
    and "a + n \<le> 243 \<Longrightarrow> load (dhcpData m) a n = load (dhcpData base) a n"
    and "mSize m \<le> i \<Longrightarrow> dhcpData m i = dhcpData base i"
  using assms
  by (auto simp: built_def extends_load extends_load32 extends_load16) (simp_all add: extends_def)

lemma isValidDhcpMessage_iff:
  "isValidDhcpMessage m opr \<longleftrightarrow>
     240 \<le> mSize m \<and> dhcpData m 0 = opr \<and> dhcpData m (Suc 0) = HTYPE_ETHER \<and>
     dhcpData m 2 = of_nat ETH_ALEN \<and> load (dhcpData m) 236 4 = OPT_COOKIE"
  by (auto simp: isValidDhcpMessage_def offset_options_def load_4 OPT_COOKIE_def)

lemma built_valid:
  assumes "built m base ts" "mSize base = 243" "dhcpData base 0 = opr"
    and "dhcpData base (Suc 0) = HTYPE_ETHER" "dhcpData base 2 = of_nat ETH_ALEN"
  shows "isValidDhcpMessage m opr"
proof -
  have "load (dhcpData m) 236 (4 + (1 + length (encode_tlvs ts))) =
      OPT_COOKIE @ encode_tlvs ts @ [OPT_END]" and "240 \<le> mSize m"
    using assms(1) by (auto simp: built_def carries_end_def)
  then have "load (dhcpData m) 236 4 = OPT_COOKIE" and "240 \<le> mSize m"
    unfolding load_append [of _ 236 4] by simp_all
  then show ?thesis
    using assms by (simp add: isValidDhcpMessage_iff built_header)
qed

lemma isValidDhcpMessageXid_iff:
  "isValidDhcpMessageXid m opr x \<longleftrightarrow> isValidDhcpMessage m opr \<and> load32 (dhcpData m) 4 = x"
  by (simp add: isValidDhcpMessageXid_def)

lemmas tlv_consts = tlvs_defs dhcp_consts

lemma take_chaddr: "take ETH_ALEN (chaddr (dhcp m)) = load (dhcpData m) 28 6"
  by (simp add: ETH_ALEN_def take_load)

lemma lease_reply_facts:
  assumes "length dns \<le> 63" and m: "m = fst (lease_reply t src s a nm gw dns x)"
  shows "isValidDhcpMessageXid m OP_BOOTREPLY (xid (dhcp src))"
    and "message_type m = t" and "serverId m = s" and "yiaddr (dhcp m) = a"
    and "flags (dhcp m) = flags (dhcp src)" and "giaddr (dhcp m) = giaddr (dhcp src)"
    and "take ETH_ALEN (chaddr (dhcp m)) = take ETH_ALEN (chaddr (dhcp src))"
    and "option_value m c = map_of (lease_tlvs t s nm gw dns) c"
    and "mSize m = 270 + 4 * length dns"
    and "mSize m \<le> i \<Longrightarrow> dhcpData m i = 0"
proof -
  have b: "built m (lease_header t src a x) (lease_tlvs t s nm gw dns)"
    using built_lease_reply [OF assms(1)] m by blast
  note [simp] = lease_header_fields built_header [OF b lease_header_fields(9)]
  show ov: "option_value m c = map_of (lease_tlvs t s nm gw dns) c" for c
    by (rule built_option_value [OF b])
  show "isValidDhcpMessageXid m OP_BOOTREPLY (xid (dhcp src))"
    using built_valid [OF b] by (simp add: isValidDhcpMessageXid_iff)
  show "message_type m = t" "serverId m = s"
    by (rule typed_values; simp add: ov tlv_consts)+
  show "yiaddr (dhcp m) = a" "flags (dhcp m) = flags (dhcp src)"
    "giaddr (dhcp m) = giaddr (dhcp src)"
    by simp_all
  show "take ETH_ALEN (chaddr (dhcp m)) = take ETH_ALEN (chaddr (dhcp src))"
    unfolding take_chaddr by simp
  show sz: "mSize m = 270 + 4 * length dns"
    using b by (simp add: built_def lease_tlvs_def)
  show "mSize m \<le> i \<Longrightarrow> dhcpData m i = 0"
    using sz by simp
qed

lemma nack_facts:
  assumes m: "m = fst (nack src s x)"
  shows "isValidDhcpMessageXid m OP_BOOTREPLY (xid (dhcp src))"
    and "message_type m = DHCPNAK" and "serverId m = s"
    and "take ETH_ALEN (chaddr (dhcp m)) = take ETH_ALEN (chaddr (dhcp src))"
    and "mSize m = 250" and "mSize m \<le> i \<Longrightarrow> dhcpData m i = 0"
proof -
  have b: "built m (nack_header src x) (nack_tlvs s)"
    using built_nack m by blast
  note [simp] = nack_header_fields built_header [OF b nack_header_fields(6)]
  have ov: "option_value m c = map_of (nack_tlvs s) c" for c
    by (rule built_option_value [OF b])
  show "isValidDhcpMessageXid m OP_BOOTREPLY (xid (dhcp src))"
    using built_valid [OF b] by (simp add: isValidDhcpMessageXid_iff)
  show "message_type m = DHCPNAK" "serverId m = s"
    by (rule typed_values; simp add: ov tlv_consts)+
  show "take ETH_ALEN (chaddr (dhcp m)) = take ETH_ALEN (chaddr (dhcp src))"
    unfolding take_chaddr by simp
  show sz: "mSize m = 250"
    using b by (simp add: built_def nack_tlvs_def)
  show "mSize m \<le> i \<Longrightarrow> dhcpData m i = 0"
    using sz by simp
qed

lemma client_message_facts:
  assumes mac: "length mac = ETH_ALEN"
    and b: "built m (fst (Message_new OP_BOOTREQUEST mac t x)) ts"
  shows "isValidDhcpMessageXid m OP_BOOTREQUEST (htonl x)"
    and "take ETH_ALEN (chaddr (dhcp m)) = mac"
    and "option_value m c = map_of ts c"
    and "mSize m = 241 + length (encode_tlvs ts)"
    and "mSize m \<le> i \<Longrightarrow> dhcpData m i = 0"
proof -
  note [simp] = Message_new_header [OF mac]
    built_header [OF b Message_new_header(6) [OF mac]]
  show "isValidDhcpMessageXid m OP_BOOTREQUEST (htonl x)"
    using built_valid [OF b] by (simp add: isValidDhcpMessageXid_iff)
  show "take ETH_ALEN (chaddr (dhcp m)) = mac"
    unfolding take_chaddr by simp
  show "option_value m c = map_of ts c"
    by (rule built_option_value [OF b])
  show sz: "mSize m = 241 + length (encode_tlvs ts)"
    using b by (simp add: built_def)
  have "243 \<le> mSize m"
    using b Message_new_header(6) [OF mac] by (simp add: built_def extends_def)
  then show "mSize m \<le> i \<Longrightarrow> dhcpData m i = 0"
    by simp
qed

lemma request_facts:
  assumes mac: "length mac = ETH_ALEN" and m: "m = fst (request mac a s x)"
  shows "isValidDhcpMessageXid m OP_BOOTREQUEST (htonl x)"
    and "message_type m = DHCPREQUEST" and "requestedIp m = a" and "serverId m = s"
    and "take ETH_ALEN (chaddr (dhcp m)) = mac"
    and "mSize m = 266" and "mSize m \<le> i \<Longrightarrow> dhcpData m i = 0"
proof -
  note f = client_message_facts [OF mac built_request [OF mac, of a s x, folded m]]
  show "message_type m = DHCPREQUEST" "requestedIp m = a" "serverId m = s"
    by (rule typed_values; simp add: f(3) tlv_consts)+
  show "isValidDhcpMessageXid m OP_BOOTREQUEST (htonl x)"
    and "take ETH_ALEN (chaddr (dhcp m)) = mac"
    and "mSize m = 266" and "mSize m \<le> i \<Longrightarrow> dhcpData m i = 0"
    using f by (simp_all add: request_tlvs_def)
qed

lemma discover_facts:
  assumes mac: "length mac = ETH_ALEN" and m: "m = fst (discover mac x)"
  shows "isValidDhcpMessageXid m OP_BOOTREQUEST (htonl x)"
    and "message_type m = DHCPDISCOVER"
    and "take ETH_ALEN (chaddr (dhcp m)) = mac"
    and "mSize m = 254" and "mSize m \<le> i \<Longrightarrow> dhcpData m i = 0"
proof -
  note f = client_message_facts [OF mac built_discover [OF mac, of x, folded m]]
  show "message_type m = DHCPDISCOVER"
    by (rule typed_values; simp add: f(3) tlv_consts)
  show "isValidDhcpMessageXid m OP_BOOTREQUEST (htonl x)"
    and "take ETH_ALEN (chaddr (dhcp m)) = mac"
    and "mSize m = 254" and "mSize m \<le> i \<Longrightarrow> dhcpData m i = 0"
    using f by (simp_all add: discover_tlvs_def)
qed

section \<open>Properties\<close>

text \<open>
  C14. A DHCPOFFER or DHCPACK that the server builds from a client's message reads back as a valid
  reply to that message: same transaction id, flags, relay address and hardware address, the
  message type, the server id, the offered address, the netmask, the gateway and the name servers
  it was built from, whatever the client's message was and for up to 63 name servers.
\<close>

theorem offer_ack_roundtrip:
  assumes "length dns \<le> 63"
    and "t = DHCPOFFER \<and> m = fst (offer src s a nm gw dns x) \<or>
         t = DHCPACK \<and> m = fst (ack src s a nm gw dns x)"
  shows "isValidDhcpMessageXid m OP_BOOTREPLY (xid (dhcp src)) \<and>
    flags (dhcp m) = flags (dhcp src) \<and> giaddr (dhcp m) = giaddr (dhcp src) \<and>
    take ETH_ALEN (chaddr (dhcp m)) = take ETH_ALEN (chaddr (dhcp src)) \<and>
    message_type m = t \<and> serverId m = s \<and> yiaddr (dhcp m) = a \<and>
    option_value m OPT_SUBNET_MASK = Some (bytes32 nm) \<and>
    option_value m OPT_GATEWAY = Some (bytes32 gw) \<and>
    option_value m OPT_DNS = Some (concat (map bytes32 dns))"
proof -
  have m: "m = fst (lease_reply t src s a nm gw dns x)"
    using assms(2) by (auto simp: offer_def ack_def)
  note f = lease_reply_facts [OF assms(1) m]
  show ?thesis
    by (intro conjI f(1-7)) (simp_all add: f(8) tlv_consts)
qed

theorem offer_ack_roundtrip_witness:
  "isValidDhcpMessageXid
     (fst (ack (fst (discover [2, 0, 0, 0, 0, 1] 7)) 11 12 13 14 [15, 16] 9))
     OP_BOOTREPLY (xid (dhcp (fst (discover [2, 0, 0, 0, 0, 1] 7)))) \<and>
   serverId (fst (ack (fst (discover [2, 0, 0, 0, 0, 1] 7)) 11 12 13 14 [15, 16] 9)) = 11"
  using offer_ack_roundtrip [of "[15, 16]" DHCPACK
      "fst (ack (fst (discover [2, 0, 0, 0, 0, 1] 7)) 11 12 13 14 [15, 16] 9)"
      "fst (discover [2, 0, 0, 0, 0, 1] 7)" 11 12 13 14 9] by simp

text \<open>
  A DHCPREQUEST that the client builds reads back as a valid request of that client: the
  transaction id is the counter in network byte order and the counter moves on by one, and the
  hardware address, the requested address and the server id are the arguments.
\<close>

theorem request_roundtrip:
  assumes "length mac = ETH_ALEN" and "(m, x') = request mac a s x"
  shows "isValidDhcpMessageXid m OP_BOOTREQUEST (htonl x) \<and> x' = x + 1 \<and>
    message_type m = DHCPREQUEST \<and> take ETH_ALEN (chaddr (dhcp m)) = mac \<and>
    requestedIp m = a \<and> serverId m = s"
proof -
  have m: "m = fst (request mac a s x)" and x': "x' = snd (request mac a s x)"
    using assms(2) by (metis fst_conv, metis snd_conv)
  have "x' = x + 1"
    by (simp add: x' request_def Message_new_def Let_def)
  then show ?thesis
    using request_facts(1-5) [OF assms(1) m] by blast
qed

theorem request_roundtrip_witness:
  "requestedIp (fst (request [2, 0, 0, 0, 0, 1] 5 6 7)) = 5 \<and>
   serverId (fst (request [2, 0, 0, 0, 0, 1] 5 6 7)) = 6"
  using request_roundtrip [of "[2, 0, 0, 0, 0, 1]" "fst (request [2, 0, 0, 0, 0, 1] 5 6 7)"
      "snd (request [2, 0, 0, 0, 0, 1] 5 6 7)" 5 6 7]
  by (simp add: ETH_ALEN_def)

text \<open>
  C21. No message the program builds, by any of its five constructors, leaves its struct: its size is
  within the capacity for every number of name servers an option can hold (the server uses
  four at most), it is at most 270 bytes and four for every name server, and no byte behind the
  message's end is written.
\<close>

theorem built_messages_fit:
  assumes "length dns \<le> 63" and "length mac = ETH_ALEN"
    and "m \<in> {fst (offer src s a nm gw dns x), fst (ack src s a nm gw dns x),
              fst (nack src s x), fst (request mac a s x), fst (discover mac x)}"
  shows "mSize m \<le> capacity m \<and> mSize m \<le> 270 + 4 * length dns \<and>
    (\<forall>i\<ge>mSize m. dhcpData m i = 0)"
proof -
  have "mSize m \<le> 270 + 4 * length dns \<and> (\<forall>i\<ge>mSize m. dhcpData m i = 0)"
    using assms(3) lease_reply_facts(9,10) [OF assms(1) refl] nack_facts(5,6) [OF refl, of src s x]
      request_facts(6,7) [OF assms(2) refl] discover_facts(4,5) [OF assms(2) refl]
    by (auto simp: offer_def ack_def)
  then show ?thesis
    using assms(1) by (auto simp: capacity_def sizeof_dhcpData_def)
qed

theorem built_messages_fit_witness:
  "mSize (fst (offer Message_empty 1 2 3 4 [5, 6, 7, 8] 9)) \<le> 286"
  using built_messages_fit [of "[5, 6, 7, 8]" "[2, 0, 0, 0, 0, 1]"
      "fst (offer Message_empty 1 2 3 4 [5, 6, 7, 8] 9)" Message_empty 1 2 3 4 9]
  by (simp add: ETH_ALEN_def)

text \<open>
  The lease time is written in host byte order: what a client reads from the option of an
  offer or an acknowledgement, as the network order number it is, is 0x58020000 seconds (some 46
  years) and not the 600 seconds of \<open>kDefaultLeaseTime\<close>.
\<close>

theorem lease_time_not_in_network_order:
  assumes "length dns \<le> 63"
    and "m = fst (offer src s a nm gw dns x) \<or> m = fst (ack src s a nm gw dns x)"
  shows "option_value m OPT_LEASE_TIME = Some (bytes32 kDefaultLeaseTime) \<and>
    bytes32 kDefaultLeaseTime = bytes32 (htonl 0x58020000) \<and> kDefaultLeaseTime = 600"
proof -
  obtain t where "m = fst (lease_reply t src s a nm gw dns x)"
    using assms(2) by (auto simp: offer_def ack_def)
  then have "option_value m OPT_LEASE_TIME = Some (bytes32 kDefaultLeaseTime)"
    by (simp add: lease_reply_facts(8) [OF assms(1)] tlv_consts)
  then show ?thesis
    by (simp add: kDefaultLeaseTime_def htonl_def bytes32_def le32_def)
qed

theorem lease_time_not_in_network_order_witness:
  "option_value (fst (ack Message_empty 1 2 3 4 [] 5)) OPT_LEASE_TIME =
   Some (bytes32 (htonl 0x58020000))"
  using lease_time_not_in_network_order [of "[]" "fst (ack Message_empty 1 2 3 4 [] 5)"
      Message_empty 1 2 3 4 5] by simp

lemma getOption_from_bounds:
  "getOption_from m c i = Some (opt, len) \<Longrightarrow> i + 2 \<le> opt \<and> opt < optionsSize m"
proof (induction m c i rule: getOption_from.induct)
  case (1 m c i)
  then show ?case
    by (subst (asm) (2) getOption_from.simps)
      (fastforce simp: Let_def split: if_splits)
qed

lemma same_bytes:
  assumes "load (dhcpData m) 0 (mSize m) = load (dhcpData m') 0 (mSize m)" "k < optionsSize m"
  shows "dhcpData m' (236 + k) = dhcpData m (236 + k)"
  using assms(2) arg_cong [OF assms(1), of "\<lambda>xs. xs ! (236 + k)"]
  by (simp add: optionsSize_def offset_options_def split: if_splits)

lemma getOption_from_cong:
  "mSize m' = mSize m \<Longrightarrow> load (dhcpData m) 0 (mSize m) = load (dhcpData m') 0 (mSize m) \<Longrightarrow>
   getOption_from m' c i = getOption_from m c i"
proof (induction m c i rule: getOption_from.induct)
  case (1 m c i)
  have sz: "optionsSize m' = optionsSize m" using "1.prems"(1) by (simp add: optionsSize_def)
  note eq = same_bytes [OF "1.prems"(2)]
  show ?case
  proof (cases "i + 2 < optionsSize m")
    case True
    then have "dhcpData m' (236 + i) = dhcpData m (236 + i)"
      and "dhcpData m' (236 + (i + 1)) = dhcpData m (236 + (i + 1))"
      by (intro eq; simp)+
    with True "1.IH" "1.prems" sz show ?thesis
      by (simp add: getOption_from.simps [of m' c i] getOption_from.simps [of m c i] Let_def)
  next
    case False
    with sz show ?thesis
      by (simp add: getOption_from.simps [of m' c i] getOption_from.simps [of m c i])
  qed
qed

text \<open>
  C22. The scanner and \<open>type()\<close> depend on the received bytes only, however malformed the
  message is: the value found starts inside the option area, and two messages that agree on the
  bytes up to their size, but not on what is left in the buffer behind it, have the same options
  and the same type.
\<close>

theorem scanner_reads_received_bytes:
  assumes "mSize m' = mSize m"
    and "load (dhcpData m) 0 (mSize m) = load (dhcpData m') 0 (mSize m)"
  shows "getOption m' c = getOption m c \<and> message_type m' = message_type m \<and>
    (case getOption m c of None \<Rightarrow> True | Some (opt, len) \<Rightarrow> 6 \<le> opt \<and> opt < optionsSize m)"
proof -
  have g: "getOption m' c = getOption m c" for c
    unfolding getOption_def by (rule getOption_from_cong [OF assms])
  have b: "6 \<le> opt \<and> opt < optionsSize m" if "getOption m c = Some (opt, len)" for c opt len
    using getOption_from_bounds [of m c 4 opt len] that by (simp add: getOption_def)
  have "message_type m' = message_type m"
    by (auto simp: message_type_def g same_bytes [OF assms(2)] dest: b split: option.split)
  then show ?thesis
    using g b by (auto split: option.split)
qed

theorem scanner_reads_received_bytes_witness:
  "message_type (Message_of (\<lambda>_. 7) [1, 2, 3]) = message_type (Message_of (\<lambda>_. 8) [1, 2, 3])"
  using scanner_reads_received_bytes [of "Message_of (\<lambda>_. 7) [1, 2, 3]"
      "Message_of (\<lambda>_. 8) [1, 2, 3]"]
  by (simp add: Message_of_def sizeof_dhcpData_def mem_simps)

text \<open>
  A reply that fills the struct, whose last option starts three bytes before its end: a server id
  that announces four bytes of which the struct holds one.
\<close>

definition brim_message :: "u8 \<Rightarrow> message" where
  "brim_message after =
     \<lparr>dhcpData = (\<lambda>_. 0)(0 := OP_BOOTREPLY, 1 := HTYPE_ETHER, 2 := 6,
        236 := 0x63, 237 := 0x82, 238 := 0x53, 239 := 0x63,
        240 := 1, 241 := 255, 497 := 1, 498 := 255, 754 := 1, 755 := 255, 1011 := 1, 1012 := 244,
        1257 := OPT_SERVER_ID, 1258 := 4, 1260 := after),
      mSize = sizeof_dhcpData\<rparr>"

lemma load_fun_upd_outside: "\<not> (a \<le> j \<and> j < a + n) \<Longrightarrow> load (m(j := v)) a n = load m a n"
  by (rule load_cong) auto

lemma brim_getOption: "getOption (brim_message b) OPT_SERVER_ID = Some (1023, 4)"
  unfolding getOption_def
  by (subst getOption_from.simps, simp add: brim_message_def optionsSize_def offset_options_def
      sizeof_dhcpData_def dhcp_consts Let_def)+

text \<open>
  \<open>serverId()\<close> (and \<open>requestedIp()\<close>, which is the same code) checks the announced
  length and not that the value ends inside the message: there are two valid replies of full size
  with the same 1260 bytes whose server ids differ, because the value is completed by the memory
  behind the struct.
\<close>

theorem serverId_reads_behind_struct:
  "isValidDhcpMessage (brim_message 0) OP_BOOTREPLY \<and>
   isValidDhcpMessage (brim_message 1) OP_BOOTREPLY \<and>
   mSize (brim_message 0) = capacity (brim_message 0) \<and>
   mSize (brim_message 1) = capacity (brim_message 1) \<and>
   load (dhcpData (brim_message 0)) 0 sizeof_dhcpData =
     load (dhcpData (brim_message 1)) 0 sizeof_dhcpData \<and>
   serverId (brim_message 0) \<noteq> serverId (brim_message 1)"
proof -
  have id: "serverId (brim_message b) = le32 0 b 0 0" for b
    by (simp add: serverId_def brim_getOption offset_options_def load32_def)
      (simp add: brim_message_def)
  have neq: "le32 0 0 0 0 \<noteq> le32 0 1 0 0"
    by (simp add: le32_def)
  have bytes: "load (dhcpData (brim_message b)) 0 sizeof_dhcpData =
      load (dhcpData (brim_message 0)) 0 sizeof_dhcpData" for b
    by (rule load_cong) (simp add: brim_message_def sizeof_dhcpData_def)
  have valid: "isValidDhcpMessage (brim_message b) OP_BOOTREPLY" for b
    by (simp add: isValidDhcpMessage_iff load_4 OPT_COOKIE_def ETH_ALEN_def)
      (simp add: brim_message_def sizeof_dhcpData_def)
  have sz: "mSize (brim_message b) = capacity (brim_message b)" for b
    by (simp add: capacity_def brim_message_def)
  show ?thesis
    by (intro conjI valid sz bytes [symmetric]) (simp add: id neq)
qed

text \<open>
  The scanner takes a pad byte (code 0, one byte long by RFC 2132) for an option with a length:
  a message whose message type follows a single pad byte has no type.
\<close>

theorem pad_hides_next_option:
  assumes "load (dhcpData m) 236 (optionsSize m) =
      OPT_COOKIE @ [0] @ encode_tlv (OPT_MESSAGE_TYPE, [t]) @ [OPT_END]"
  shows "message_type m = 0"
proof -
  have n: "optionsSize m = 9"
    using arg_cong [OF assms, of length] by simp
  have "load (dhcpData m) 240 5 = [0] @ encode_tlv (OPT_MESSAGE_TYPE, [t]) @ [OPT_END]"
    using assms load_append [of "dhcpData m" 236 4 5] by (simp add: n)
  then have "dhcpData m 240 = 0" "dhcpData m 241 = OPT_MESSAGE_TYPE"
    using load_append [of "dhcpData m" 240 2 3] by (simp_all add: load_2 encode_tlv_def)
  then have "getOption m OPT_MESSAGE_TYPE = None"
    unfolding getOption_def
    by (subst getOption_from.simps, simp add: n dhcp_consts Let_def)
      (subst getOption_from.simps, simp add: n)
  then show ?thesis
    by (simp add: message_type_def)
qed

theorem pad_hides_next_option_witness:
  "message_type \<lparr>dhcpData = store (\<lambda>_. 0) 236 (OPT_COOKIE @ [0, OPT_MESSAGE_TYPE, 1, DHCPACK, OPT_END]),
     mSize = 245\<rparr> = 0"
  by (rule pad_hides_next_option [where t = DHCPACK])
    (simp add: optionsSize_def offset_options_def encode_tlv_def mem_simps)

end
