(* ===== verification/Checksum.thy ===== *)
theory Checksum
  imports Prelude
begin

text \<open>
  The Internet checksum of \<open>wifi/dhcp/common/socket.cpp\<close>: \<open>addChecksum\<close> and
  \<open>finishChecksum\<close>, against the ones' complement sum of the 16 bit words.  The interface
  \<open>running_checksum\<close> states what the packet builder relies on: feeding a packet in chunks of
  even length is feeding it whole, and a packet with its checksum filled in sums to zero.
\<close>

section \<open>The code\<close>

text \<open>
  The loop over \<open>const uint16_t* data\<close> and the odd byte after it; the addition is on
  \<open>uint32_t\<close>.
\<close>

fun sum_words :: "bytes \<Rightarrow> u32 \<Rightarrow> u32" where
  "sum_words (a # b # data) checksum = sum_words data (checksum + ucast (le16 a b))"
| "sum_words [a] checksum = checksum + ucast a"
| "sum_words [] checksum = checksum"

text \<open>The loop that folds the upper half into the lower half until it is zero.\<close>

lemma drop_bit_16_unat: "unat (drop_bit 16 (c :: u32)) = unat c div 65536"
  by (simp add: drop_bit_eq_div unat_div_distrib)

lemma and_FFFF_unat: "unat (c AND 0xFFFF :: u32) = unat c mod 65536"
proof -
  have "c AND 0xFFFF = take_bit 16 c"
    by (simp add: take_bit_eq_mask mask_eq_exp_minus_1)
  then show ?thesis
    by (simp add: take_bit_eq_mod unat_mod_distrib)
qed

lemma fold_step_unat:
  "unat ((c AND 0xFFFF) + drop_bit 16 c :: u32) = unat c mod 65536 + unat c div 65536"
proof -
  have "unat c < 2 ^ 32" using unsigned_less [of c] by simp
  then have "unat c div 65536 < 65536" and "unat c mod 65536 < 65536" by simp_all
  then have "unat (c AND 0xFFFF) + unat (drop_bit 16 c) < 2 ^ LENGTH(32)"
    unfolding and_FFFF_unat drop_bit_16_unat by simp
  then show ?thesis
    by (simp only: unat_add_lem [THEN iffD1] and_FFFF_unat drop_bit_16_unat)
qed

function fold_carry :: "u32 \<Rightarrow> u32" where
  "fold_carry checksum =
     (let msw = drop_bit 16 checksum
      in if msw \<noteq> 0 then fold_carry ((checksum AND 0xFFFF) + msw) else checksum)"
  by pat_completeness auto
termination
proof (relation "measure unat")
  fix c x :: u32
  assume "x = drop_bit 16 c" "x \<noteq> 0"
  then have "0 < unat c div 65536"
    by (metis drop_bit_16_unat unat_eq_0 neq0_conv)
  then show "((c AND 0xFFFF) + x, c) \<in> measure unat"
    using \<open>x = drop_bit 16 c\<close> div_mult_mod_eq [of "unat c" 65536]
    by (simp only: in_measure fold_step_unat)
qed simp

declare fold_carry.simps [simp del]

definition addChecksum :: "bytes \<Rightarrow> u32 \<Rightarrow> u32" where
  "addChecksum buffer checksum = fold_carry (sum_words buffer checksum)"

definition finishChecksum :: "u32 \<Rightarrow> u32" where
  "finishChecksum checksum = NOT checksum AND 0xFFFF"

section \<open>The reference: ones' complement sums\<close>

fun wsum :: "bytes \<Rightarrow> nat" where
  "wsum (a # b # bs) = unat a + 256 * unat b + wsum bs"
| "wsum [a] = unat a"
| "wsum [] = 0"

text \<open>The representative of a sum modulo \<open>2 ^ 16 - 1\<close> that is zero only for the sum zero.\<close>

definition oc :: "nat \<Rightarrow> nat" where
  "oc n = (if n = 0 then 0 else if n mod 65535 = 0 then 65535 else n mod 65535)"

lemma oc_small: "n \<le> 65535 \<Longrightarrow> oc n = n"
  by (cases "n = 65535") (simp_all add: oc_def)

lemma oc_le: "oc n \<le> 65535"
  by (simp add: oc_def less_imp_le)

lemma oc_0 [simp]: "oc n = 0 \<longleftrightarrow> n = 0"
  by (simp add: oc_def)

lemma oc_mod: "oc n mod 65535 = n mod 65535"
  by (simp add: oc_def)

lemma oc_eqI: "a mod 65535 = b mod 65535 \<Longrightarrow> (a = 0 \<longleftrightarrow> b = 0) \<Longrightarrow> oc a = oc b"
  by (simp add: oc_def)

lemma oc_oc_add: "oc (oc a + b) = oc (a + b)"
  by (rule oc_eqI) (simp_all add: mod_add_cong [OF oc_mod refl])

lemma unat_le16: "unat (le16 a b) = unat a + 256 * unat b"
proof -
  have "le16 a b = ucast a + push_bit 8 (ucast b)"
    unfolding le16_def
    by (rule disjunctive_add [symmetric]) (auto simp: bit_simps dest: bit_imp_le_length)
  moreover have "unat a < 256" "unat b < 256"
    using unsigned_less [of a] unsigned_less [of b] by simp_all
  ultimately show ?thesis
    by (simp add: push_bit_eq_mult unat_word_ariths unsigned_ucast_eq take_bit_nat_eq_self)
qed

lemma unat_sum_words:
  "unat c + wsum bs < 2 ^ 32 \<Longrightarrow> unat (sum_words bs c) = unat c + wsum bs"
proof (induction bs c rule: sum_words.induct)
  case (1 a b bs c)
  have "unat (c + ucast (le16 a b)) = unat c + (unat a + 256 * unat b)"
    using "1.prems" by (simp add: unat_word_ariths unsigned_ucast_eq take_bit_nat_eq_self unat_le16)
  with "1.IH" "1.prems" show ?case by simp
next
  case (2 a c)
  then show ?case by (simp add: unat_word_ariths unsigned_ucast_eq take_bit_nat_eq_self)
qed simp

lemma unat_fold_carry: "unat (fold_carry c) = oc (unat c)"
proof (induction c rule: fold_carry.induct)
  case (1 c)
  show ?case
  proof (cases "drop_bit 16 c = 0")
    case True
    then have "unat c div 65536 = 0"
      by (metis drop_bit_16_unat unat_0)
    then have "unat c \<le> 65535" by simp
    with True show ?thesis
      by (subst fold_carry.simps) (simp add: oc_small)
  next
    case False
    let ?n = "unat c"
    have n: "?n = 65536 * (?n div 65536) + ?n mod 65536" by simp
    have "oc (?n mod 65536 + ?n div 65536) = oc ?n"
    proof (rule oc_eqI)
      have "?n = 65535 * (?n div 65536) + (?n mod 65536 + ?n div 65536)"
        using n by linarith
      then show "(?n mod 65536 + ?n div 65536) mod 65535 = ?n mod 65535"
        by (metis mod_mult_self4)
      show "?n mod 65536 + ?n div 65536 = 0 \<longleftrightarrow> ?n = 0"
        using n by linarith
    qed
    with "1.IH" [OF refl False] False show ?thesis
      by (subst fold_carry.simps) (simp add: fold_step_unat)
  qed
qed

lemma wsum_bound: "wsum bs \<le> 65535 * ((length bs + 1) div 2)"
proof (induction bs rule: wsum.induct)
  case (1 a b bs)
  have "unat a < 256" "unat b < 256"
    using unsigned_less [of a] unsigned_less [of b] by simp_all
  with 1 show ?case by simp
next
  case (2 a)
  have "unat a < 256" using unsigned_less [of a] by simp
  then show ?case by simp
qed simp

lemma wsum_append: "even (length xs) \<Longrightarrow> wsum (xs @ ys) = wsum xs + wsum ys"
  by (induction xs rule: wsum.induct) auto

text \<open>
  For the sizes the code feeds (a datagram is at most 64 KiB) the 32 bit accumulator does not
  overflow before it is folded.
\<close>

lemma unat_addChecksum:
  assumes "length bs \<le> 65536" "unat c \<le> 65535"
  shows "unat (addChecksum bs c) = oc (unat c + wsum bs)"
proof -
  have "(length bs + 1) div 2 \<le> 32768" using assms(1) by simp
  then have "wsum bs \<le> 65535 * 32768"
    using wsum_bound [of bs] mult_le_mono2 order_trans by blast
  then have "unat c + wsum bs < 2 ^ 32" using assms(2) by simp
  then show ?thesis
    by (simp add: addChecksum_def unat_fold_carry unat_sum_words)
qed

lemma addChecksum_le: "unat (addChecksum bs c) \<le> 65535"
  by (simp add: addChecksum_def unat_fold_carry oc_le)

lemma addChecksum_append:
  assumes "even (length xs)" "length (xs @ ys) \<le> 65536" "unat c \<le> 65535"
  shows "addChecksum (xs @ ys) c = addChecksum ys (addChecksum xs c)"
proof -
  have "unat (addChecksum (xs @ ys) c) = unat (addChecksum ys (addChecksum xs c))"
    using assms addChecksum_le [of xs c]
    by (simp add: unat_addChecksum oc_oc_add wsum_append add.assoc)
  then show ?thesis by (simp add: word_unat_eq_iff)
qed

lemma unat_finishChecksum: "unat c \<le> 65535 \<Longrightarrow> unat (finishChecksum c) = 65535 - unat c"
proof -
  assume c: "unat c \<le> 65535"
  have "n < 16" if "bit c n" for n
  proof -
    have "c = take_bit 16 c"
      using c by (simp add: word_unat_eq_iff unsigned_take_bit_eq take_bit_nat_eq_self)
    then show ?thesis using that by (metis bit_take_bit_iff)
  qed
  then have "c OR (NOT c AND mask 16) = mask 16"
    by (intro bit_word_eqI) (auto simp: bit_simps)
  then have "c OR (NOT c AND 0xFFFF) = 0xFFFF"
    by (simp add: mask_eq_exp_minus_1)
  moreover have "c + (NOT c AND 0xFFFF) = c OR (NOT c AND 0xFFFF)"
    by (rule disjunctive_add) (auto simp: bit_simps)
  ultimately have "unat (c + finishChecksum c) = 65535"
    by (simp add: finishChecksum_def)
  moreover have "unat (finishChecksum c) \<le> 65535"
    by (simp add: finishChecksum_def and_FFFF_unat)
  ultimately show "unat (finishChecksum c) = 65535 - unat c"
    using c by (simp add: unat_word_ariths)
qed

section \<open>The interface of the packet builder\<close>

locale running_checksum =
  fixes add :: "bytes \<Rightarrow> u32 \<Rightarrow> u32"
    and finish :: "u32 \<Rightarrow> u32"
    and limit :: nat
  assumes add_append: "even (length xs) \<Longrightarrow> length (xs @ ys) \<le> limit \<Longrightarrow> unat c \<le> 65535 \<Longrightarrow>
      add (xs @ ys) c = add ys (add xs c)"
    and add_bound: "unat (add xs c) \<le> 65535"
    and filled_in: "even (length xs) \<Longrightarrow> length (xs @ ys) + 2 \<le> limit \<Longrightarrow>
      finish (add (xs @ bytes16 (ucast (finish (add (xs @ [0, 0] @ ys) 0))) @ ys) 0) = 0"
begin

fun feed :: "bytes list \<Rightarrow> u32 \<Rightarrow> u32" where
  "feed [] c = c"
| "feed (xs # xss) c = feed xss (add xs c)"

text \<open>Chunks of even length, but for the last, can be fed one by one.\<close>

lemma feed_concat:
  "xss \<noteq> [] \<Longrightarrow> list_all (\<lambda>xs. even (length xs)) (butlast xss) \<Longrightarrow> length (concat xss) \<le> limit \<Longrightarrow>
   unat c \<le> 65535 \<Longrightarrow> feed xss c = add (concat xss) c"
proof (induction xss arbitrary: c)
  case Nil
  then show ?case by simp
next
  case (Cons xs xss)
  show ?case
  proof (cases "xss = []")
    case False
    then have "feed xss (add xs c) = add (concat xss) (add xs c)"
      using Cons.prems by (intro Cons.IH) (auto simp: add_bound)
    then show ?thesis
      using Cons.prems False by (simp add: add_append)
  qed simp
qed

text \<open>A packet whose checksum field was zero while it was summed checks to zero afterwards.\<close>

lemma feed_filled_in:
  assumes "xss \<noteq> []" "list_all (\<lambda>xs. even (length xs)) (butlast xss)"
    and "concat xss = pre @ [0, 0] @ post" "even (length pre)" "length (concat xss) \<le> limit"
  shows "finish (add (pre @ bytes16 (ucast (finish (feed xss 0))) @ post) 0) = 0"
  using filled_in [of pre post] feed_concat [OF assms(1,2,5), of 0] assms(3-5) by simp

end

lemma wsum_bytes16: "wsum (bytes16 w) = unat w"
  using unat_le16 [of "ucast w" "ucast (drop_bit 8 w)"] by (simp add: bytes16_def)

lemma finish_filled_in:
  assumes "even (length xs)" "length (xs @ ys) + 2 \<le> 65536"
  shows "finishChecksum (addChecksum
      (xs @ bytes16 (ucast (finishChecksum (addChecksum (xs @ [0, 0] @ ys) 0))) @ ys) 0) = 0"
proof -
  let ?z = "xs @ [0, 0] @ ys"
  define S where "S = wsum xs + wsum ys"
  define k where "k = finishChecksum (addChecksum ?z 0)"
  have "unat (addChecksum ?z 0) = oc S"
    using assms by (simp add: unat_addChecksum wsum_append S_def)
  then have k: "unat k = 65535 - oc S"
    using addChecksum_le [of ?z 0] by (simp add: k_def unat_finishChecksum)
  then have w: "wsum (bytes16 (ucast k)) = 65535 - oc S"
    by (simp add: wsum_bytes16 unsigned_ucast_eq take_bit_nat_eq_self)
  have "wsum (xs @ bytes16 (ucast k) @ ys) = S + (65535 - oc S)"
    using assms(1) w by (simp add: wsum_append S_def)
  moreover have "oc (S + (65535 - oc S)) = 65535"
  proof -
    have "(S + (65535 - oc S)) mod 65535 = (oc S + (65535 - oc S)) mod 65535"
      by (rule mod_add_cong) (simp_all add: oc_mod)
    also have "\<dots> = 0" using oc_le [of S] by simp
    finally show ?thesis
      using oc_le [of S] by (cases "S = 0") (auto simp: oc_def)
  qed
  ultimately have "unat (addChecksum (xs @ bytes16 (ucast k) @ ys) 0) = 65535"
    using assms(2) by (simp add: unat_addChecksum)
  then have "unat (finishChecksum (addChecksum (xs @ bytes16 (ucast k) @ ys) 0)) = 0"
    by (simp add: unat_finishChecksum)
  then show ?thesis by (simp add: k_def unat_eq_0)
qed

interpretation inet: running_checksum addChecksum finishChecksum 65536
  by unfold_locales (fact addChecksum_append addChecksum_le finish_filled_in)+

section \<open>Properties\<close>

text \<open>
  C23. \<open>addChecksum\<close> is the ones' complement sum of the 16 bit words of its buffer and the
  sum so far, for every buffer a datagram can hold: the 32 bit accumulator does not overflow, the
  fold terminates, and the result fits 16 bits.
\<close>

theorem addChecksum_ones_complement_sum:
  assumes "length bs \<le> 65536" and "unat c \<le> 65535"
  shows "unat (addChecksum bs c) = oc (unat c + wsum bs) \<and> unat (addChecksum bs c) \<le> 65535"
  using unat_addChecksum [OF assms] addChecksum_le by blast

theorem addChecksum_ones_complement_sum_witness:
  "unat (addChecksum [0xFF, 0xFF, 0x01] 0xFFFF) = oc (65535 + wsum [0xFF, 0xFF, 0x01])"
  using addChecksum_ones_complement_sum [of "[0xFF, 0xFF, 0x01]" "0xFFFF"] by simp

end
