(* ===== verification/World.thy ===== *)
theory World
  imports Prelude "HOL-Library.State_Monad"
begin

text \<open>
  The programs' view of the operating system.  A program is a state monad over the trace of the
  system calls it has made; the kernel is a parameter, any function that answers a call from the
  whole trace up to and including it.  So nothing is assumed of the system, every return value and
  every \<open>errno\<close> is possible at every call, and what a program did is in the trace.
\<close>

section \<open>Calls and answers\<close>

datatype sockaddr =
    SockaddrIn u16 u32           \<comment> \<open>\<open>AF_INET\<close>: port and address in network byte order\<close>
  | SockaddrLl u16 u32 bytes     \<comment> \<open>\<open>AF_PACKET\<close>: protocol, interface index, link address\<close>
  | SockaddrNl                   \<comment> \<open>\<open>AF_NETLINK\<close>, to the kernel\<close>
  | SockaddrIn6 bytes            \<comment> \<open>\<open>AF_INET6\<close>: the address; port, flow and scope are zero\<close>
  | SockaddrBytes bytes          \<comment> \<open>a \<open>sockaddr\<close> of any family, as it lies in memory\<close>

record cmsg =
  cmsg_level :: int
  cmsg_type :: int
  ipi_ifindex :: u32

datatype (plugins only: code) call =
    ClockGettime
  | RandomInt int int
  | SocketCreate int int int
  | Close int
  | Bind int sockaddr
  | SetSockOpt int int int
  | SendMsg int sockaddr u32 bytes   \<comment> \<open>descriptor, destination, packet info index, payload\<close>
  | RecvMsg int
  | Readv int
  | SendTo int sockaddr bytes
  | Recv int
  | Ioctl int int bytes              \<comment> \<open>descriptor, request, the \<open>ifreq\<close>\<close>
  | Ppoll int u32
  | PpollForever int
  | IfIndexToName u32
  | IfNameToIndex string
  | PropertyGet string
  | PropertySet string string
  | SetSockOptVal int int int bytes  \<comment> \<open>descriptor, level, option, value\<close>
  | SendMsgFrom int bytes sockaddr bytes  \<comment> \<open>descriptor, source of the packet info, destination, payload\<close>
  | Send int bytes
  | RecvFrom int
  | GetAddrInfo string
  | SigSetMask
  | PpollMany "int list"             \<comment> \<open>the descriptors polled for input, without a timeout\<close>
  | OpenFile string int int          \<comment> \<open>path, flags, mode\<close>
  | SetNs int
  | ReadFile int nat
  | WriteFile int bytes
  | Unlink string
  | Unshare int
  | Mount string string int          \<comment> \<open>source, target, flags\<close>
  | GetPid
  | IsATty int
  | FOpen string                     \<comment> \<open>for reading; 0 is the null pointer\<close>
  | FRead int nat
  | FEof int
  | FClose int
  | GetPwNam string                  \<comment> \<open>the \<open>pw_uid\<close> of the entry, -1 for the null pointer\<close>
  | GetGrNam string                  \<comment> \<open>the \<open>gr_gid\<close> of the entry, -1 for the null pointer\<close>
  | SetUid int
  | SetGid int
  | ExecVp "string list"             \<comment> \<open>the command and its arguments\<close>
  | LogError string
  | Time                             \<comment> \<open>\<open>time(NULL)\<close>\<close>
  | ElapsedRealtimeNano

text \<open>
  \<open>ret\<close> and \<open>err\<close> are the return value and \<open>errno\<close>; \<open>data\<close> is what the call wrote
  into the caller's buffer, \<open>addr_data\<close> into the one for the peer's address; the other fields are what the call of their name returns.
\<close>

record answer =
  ret :: int
  err :: int
  data :: bytes
  cmsgs :: "cmsg list"
  text_data :: string
  addr_data :: bytes
  tv_sec :: int
  tv_nsec :: int

type_synonym trace = "call list"
type_synonym kernel = "trace \<Rightarrow> answer"

definition sys :: "kernel \<Rightarrow> call \<Rightarrow> (trace, answer) state" where
  "sys k c = State (\<lambda>t. (k (t @ [c]), t @ [c]))"

lemma run_sys [simp]: "run_state (sys k c) t = (k (t @ [c]), t @ [c])"
  by (simp add: sys_def)

text \<open>\<open>Result res = ...; if (!res) return res;\<close>\<close>

definition on_success :: "(trace, result) state \<Rightarrow> (trace, result) state \<Rightarrow> (trace, result) state" where
  "on_success m k = do {
     res \<leftarrow> m;
     if \<not> isSuccess res then State_Monad.return res else k
   }"

lemma run_on_success [simp]:
  "run_state (on_success m n) t =
     (case run_state m t of (r, t') \<Rightarrow> if r = Success then run_state n t' else (r, t'))"
  by (simp add: on_success_def split: prod.split)

definition PATH_MAX :: nat where "PATH_MAX = 4096"
definition O_RDONLY_CLOEXEC :: int where "O_RDONLY_CLOEXEC = 0x80000"

text \<open>A kernel that answers every call with success and no data.\<close>

definition idle_answer :: answer where
  "idle_answer =
     \<lparr>ret = 0, err = 0, data = [], cmsgs = [], text_data = [], addr_data = [], tv_sec = 0, tv_nsec = 0\<rparr>"

section \<open>Programs only add to the trace\<close>

text \<open>
  \<open>issues P m\<close>: whatever the kernel answers and the value returned, \<open>m\<close> extends the trace,
  and only by calls that satisfy \<open>P\<close>.
\<close>

definition issues :: "(call \<Rightarrow> bool) \<Rightarrow> (trace, 'a) state \<Rightarrow> bool" where
  "issues P m \<longleftrightarrow> (\<forall>t. \<exists>cs. snd (run_state m t) = t @ cs \<and> list_all P cs)"

named_theorems issues_intros

lemma issues_sys [issues_intros]: "P c \<Longrightarrow> issues P (sys k c)"
  by (simp add: issues_def)

lemma issues_return [issues_intros]: "issues P (State_Monad.return x)"
  by (simp add: issues_def)

lemma issues_bind [issues_intros]:
  assumes "issues P m" and "\<And>x. issues P (f x)"
  shows "issues P (m \<bind> f)"
  unfolding issues_def
proof
  fix t
  obtain x t' where m: "run_state m t = (x, t')" by force
  then obtain cs where "t' = t @ cs" "list_all P cs"
    using assms(1) by (metis issues_def snd_conv)
  moreover obtain ds where "snd (run_state (f x) t') = t' @ ds" "list_all P ds"
    using assms(2) by (metis issues_def)
  ultimately have "snd (run_state (m \<bind> f) t) = t @ (cs @ ds) \<and> list_all P (cs @ ds)"
    by (simp add: m)
  then show "\<exists>cs. snd (run_state (m \<bind> f) t) = t @ cs \<and> list_all P cs" by blast
qed

lemma issues_if [issues_intros]:
  "(b \<Longrightarrow> issues P m) \<Longrightarrow> (\<not> b \<Longrightarrow> issues P n) \<Longrightarrow> issues P (if b then m else n)"
  by simp

lemma issues_Let [issues_intros]: "issues P (f x) \<Longrightarrow> issues P (Let x f)"
  by (simp add: Let_def)

lemma issues_prod [issues_intros]:
  "(\<And>a b. issues P (f a b)) \<Longrightarrow> issues P (case x of (a, b) \<Rightarrow> f a b)"
  by (cases x) simp

lemma issues_on_success [issues_intros]: "issues P m \<Longrightarrow> issues P n \<Longrightarrow> issues P (on_success m n)"
  unfolding on_success_def by (intro issues_intros)

lemma issues_weaken: "issues P m \<Longrightarrow> (\<And>c. P c \<Longrightarrow> Q c) \<Longrightarrow> issues Q m"
  unfolding issues_def by (metis list_all_length)

lemma issuesE:
  assumes "issues P m" "run_state m t = (x, t')"
  obtains cs where "t' = t @ cs" "list_all P cs"
  using assms by (metis issues_def snd_conv)

text \<open>The datagrams a program has handed to \<open>sendmsg\<close>: interface of the packet info, and bytes.\<close>

definition is_send :: "call \<Rightarrow> bool" where
  "is_send c = (case c of SendMsg _ _ _ _ \<Rightarrow> True | _ \<Rightarrow> False)"

fun sent :: "trace \<Rightarrow> (sockaddr \<times> u32 \<times> bytes) list" where
  "sent [] = []"
| "sent (c # t) = (case c of SendMsg _ addr i bs \<Rightarrow> (addr, i, bs) # sent t | _ \<Rightarrow> sent t)"

lemma sent_append [simp]: "sent (t @ u) = sent t @ sent u"
  by (induction t) (auto split: call.split)

lemma sent_none: "list_all (\<lambda>c. \<not> is_send c) t \<Longrightarrow> sent t = []"
  by (induction t) (auto simp: is_send_def split: call.splits)

abbreviation quiet :: "(trace, 'a) state \<Rightarrow> bool" where
  "quiet \<equiv> issues (\<lambda>c. \<not> is_send c)"

lemma quiet_sent: "quiet m \<Longrightarrow> run_state m t = (x, t') \<Longrightarrow> sent t' = sent t"
  by (erule issuesE) (auto simp: sent_none)

section \<open>The clock\<close>

text \<open>\<open>now()\<close> of \<open>timer.cpp\<close>: the monotonic clock in milliseconds, in a \<open>uint64_t\<close>.\<close>

definition now :: "kernel \<Rightarrow> (trace, u64) state" where
  "now k = do {
     time \<leftarrow> sys k ClockGettime;
     State_Monad.return (of_int (tv_sec time) * 1000 + of_int (tv_nsec time div 1000000))
   }"

end
