(* ===== verification/DhcpSocket.thy ===== *)
theory DhcpSocket
  imports MessageProps Checksum World
begin

text \<open>
  \<open>class Socket\<close> of the DHCP programs (\<open>wifi/dhcp/common/socket.cpp\<close>): the descriptor's
  life cycle, the construction and the reception of a raw UDP datagram, and the send and receive
  calls of the server's UDP socket.
\<close>

section \<open>The descriptor\<close>

record socket =
  mSocketFd :: int

definition Socket_new :: socket where
  "Socket_new = \<lparr>mSocketFd = -1\<rparr>"

definition Socket_destroy :: "kernel \<Rightarrow> socket \<Rightarrow> (trace, socket) state" where
  "Socket_destroy k s =
     (if mSocketFd s \<noteq> -1
      then do { _ \<leftarrow> sys k (Close (mSocketFd s)); State_Monad.return (s\<lparr>mSocketFd := -1\<rparr>) }
      else State_Monad.return s)"

definition Socket_open ::
  "kernel \<Rightarrow> int \<Rightarrow> int \<Rightarrow> int \<Rightarrow> socket \<Rightarrow> (trace, result \<times> socket) state" where
  "Socket_open k domain stype prot s =
     (if mSocketFd s \<noteq> -1 then State_Monad.return (Error ''Socket already open'' None, s)
      else do {
        a \<leftarrow> sys k (SocketCreate domain stype prot);
        let s = s\<lparr>mSocketFd := ret a\<rparr>;
        State_Monad.return
          (if mSocketFd s = -1 then Error ''Failed to open socket: '' (Some (err a)) else Success, s)
      })"

definition ETH_P_IP :: u16 where "ETH_P_IP = 0x0800"

definition Socket_bind :: "kernel \<Rightarrow> sockaddr \<Rightarrow> socket \<Rightarrow> (trace, result) state" where
  "Socket_bind k addr s =
     (if mSocketFd s = -1 then State_Monad.return (Error ''Socket not open'' None)
      else do {
        status \<leftarrow> sys k (Bind (mSocketFd s) addr);
        State_Monad.return
          (if ret status \<noteq> 0 then Error ''Unable to bind raw socket: '' (Some (err status))
           else Success)
      })"

definition Socket_bindIp :: "kernel \<Rightarrow> u32 \<Rightarrow> u16 \<Rightarrow> socket \<Rightarrow> (trace, result) state" where
  "Socket_bindIp k address port s = Socket_bind k (SockaddrIn (htons port) address) s"

definition Socket_bindRaw :: "kernel \<Rightarrow> u32 \<Rightarrow> socket \<Rightarrow> (trace, result) state" where
  "Socket_bindRaw k interfaceIndex s =
     Socket_bind k (SockaddrLl (htons ETH_P_IP) interfaceIndex []) s"

definition Socket_enableOption :: "kernel \<Rightarrow> int \<Rightarrow> int \<Rightarrow> socket \<Rightarrow> (trace, result) state" where
  "Socket_enableOption k level optionName s =
     (if mSocketFd s = -1 then State_Monad.return (Error ''Socket not open'' None)
      else do {
        status \<leftarrow> sys k (SetSockOpt (mSocketFd s) level optionName);
        State_Monad.return
          (if ret status = -1 then Error ''Failed to set socket option: '' (Some (err status))
           else Success)
      })"

section \<open>The server's UDP socket\<close>

definition payload :: "message \<Rightarrow> bytes" where
  "payload message = load (dhcpData message) 0 (mSize message)"

definition sendOnInterface ::
  "kernel \<Rightarrow> u32 \<Rightarrow> u32 \<Rightarrow> u16 \<Rightarrow> message \<Rightarrow> socket \<Rightarrow> (trace, result) state" where
  "sendOnInterface k interfaceIndex destinationAddress destinationPort message s =
     (if mSocketFd s = -1 then State_Monad.return (Error ''Socket not open'' None)
      else do {
        let addr = SockaddrIn (htons destinationPort) destinationAddress;
        status \<leftarrow> sys k (SendMsg (mSocketFd s) addr interfaceIndex (payload message));
        State_Monad.return
          (if ret status \<le> 0 then Error ''Failed to send packet: '' (Some (err status))
           else Success)
      })"

definition SOL_IP :: int where "SOL_IP = 0"
definition IP_PKTINFO :: int where "IP_PKTINFO = 8"

text \<open>The loop over the control messages: the last packet info wins.\<close>

fun pktinfo_index :: "cmsg list \<Rightarrow> u32 \<Rightarrow> u32" where
  "pktinfo_index [] interfaceIndex = interfaceIndex"
| "pktinfo_index (c # cs) interfaceIndex =
     pktinfo_index cs
       (if cmsg_level c = SOL_IP \<and> cmsg_type c = IP_PKTINFO then ipi_ifindex c else interfaceIndex)"

text \<open>
  \<open>receiveFromInterface\<close>: a datagram, cut to the capacity of the message, lands in the message;
  the bytes behind it stay as they were.
\<close>

definition receiveFromInterface ::
  "kernel \<Rightarrow> message \<Rightarrow> u32 \<Rightarrow> socket \<Rightarrow> (trace, result \<times> message \<times> u32) state" where
  "receiveFromInterface k message interfaceIndex s = do {
     a \<leftarrow> sys k (RecvMsg (mSocketFd s));
     State_Monad.return
       (if ret a < 0
        then (Error ''Error receiving on socket: '' (Some (err a)), message, interfaceIndex)
        else let received = take (capacity message) (data a);
                 message = message\<lparr>dhcpData := store (dhcpData message) 0 received\<rparr>;
                 message = setSize message (length received)
             in (Success, message, pktinfo_index (cmsgs a) interfaceIndex))
   }"

section \<open>Raw UDP datagrams\<close>

record iphdr =
  version :: u8
  ihl :: u8
  tos :: u8
  tot_len :: u16
  ip_id :: u16
  frag_off :: u16
  ttl :: u8
  protocol :: u8
  check :: u16
  saddr :: u32
  daddr :: u32

record udphdr =
  source :: u16
  dest :: u16
  udp_len :: u16
  udp_check :: u16

text \<open>
  The headers in memory.  \<open>version\<close> and \<open>ihl\<close> are bit fields of four bits, \<open>ihl\<close> the
  lower ones on a little endian host.
\<close>

definition iphdr_bytes :: "iphdr \<Rightarrow> bytes" where
  "iphdr_bytes ip =
     [push_bit 4 (version ip) OR (ihl ip AND 15), tos ip] @ bytes16 (tot_len ip) @
     bytes16 (ip_id ip) @ bytes16 (frag_off ip) @ [ttl ip, protocol ip] @
     bytes16 (check ip) @ bytes32 (saddr ip) @ bytes32 (daddr ip)"

definition udphdr_bytes :: "udphdr \<Rightarrow> bytes" where
  "udphdr_bytes udp =
     bytes16 (source udp) @ bytes16 (dest udp) @ bytes16 (udp_len udp) @ bytes16 (udp_check udp)"

definition IPVERSION :: u8 where "IPVERSION = 4"
definition IPDEFTTL :: u8 where "IPDEFTTL = 64"
definition IPPROTO_UDP :: u8 where "IPPROTO_UDP = 17"
definition sizeof_iphdr :: nat where "sizeof_iphdr = 20"
definition sizeof_udphdr :: nat where "sizeof_udphdr = 8"

lemmas ip_consts = IPVERSION_def IPDEFTTL_def IPPROTO_UDP_def sizeof_iphdr_def sizeof_udphdr_def

text \<open>The IP header \<open>sendRawUdp\<close> fills in, first without and then with its checksum.\<close>

definition rawUdp_ip0 :: "u32 \<Rightarrow> u32 \<Rightarrow> nat \<Rightarrow> iphdr" where
  "rawUdp_ip0 src dst msize =
     \<lparr>version = IPVERSION, ihl = of_nat (sizeof_iphdr div 4), tos = 0,
      tot_len = htons (of_nat (sizeof_iphdr + sizeof_udphdr + msize)),
      ip_id = 0, frag_off = 0, ttl = IPDEFTTL, protocol = IPPROTO_UDP, check = 0,
      saddr = src, daddr = dst\<rparr>"

definition rawUdp_ip :: "u32 \<Rightarrow> u32 \<Rightarrow> nat \<Rightarrow> iphdr" where
  "rawUdp_ip src dst msize =
     (let ip = rawUdp_ip0 src dst msize
      in ip\<lparr>check := ucast (finishChecksum (addChecksum (iphdr_bytes ip) 0))\<rparr>)"

definition rawUdp_udp0 :: "u16 \<Rightarrow> u16 \<Rightarrow> nat \<Rightarrow> udphdr" where
  "rawUdp_udp0 sourcePort destinationPort msize =
     \<lparr>source = htons sourcePort, dest = htons destinationPort,
      udp_len = htons (of_nat (sizeof_udphdr + msize)), udp_check = 0\<rparr>"

definition rawUdp_udp :: "iphdr \<Rightarrow> u16 \<Rightarrow> u16 \<Rightarrow> message \<Rightarrow> udphdr" where
  "rawUdp_udp ip sourcePort destinationPort message =
     (let udp = rawUdp_udp0 sourcePort destinationPort (mSize message);
          udpChecksum = 0;
          udpChecksum = addChecksum (bytes32 (saddr ip)) udpChecksum;
          udpChecksum = addChecksum (bytes32 (daddr ip)) udpChecksum;
          udpChecksum = addChecksum (bytes16 (htons (ucast IPPROTO_UDP))) udpChecksum;
          udpChecksum = addChecksum (bytes16 (udp_len udp)) udpChecksum;
          udpChecksum = addChecksum (udphdr_bytes udp) udpChecksum;
          udpChecksum = addChecksum (payload message) udpChecksum
      in udp\<lparr>udp_check := ucast (finishChecksum udpChecksum)\<rparr>)"

definition rawUdp_packet :: "u32 \<Rightarrow> u16 \<Rightarrow> u32 \<Rightarrow> u16 \<Rightarrow> message \<Rightarrow> bytes" where
  "rawUdp_packet src sourcePort dst destinationPort message =
     (let ip = rawUdp_ip src dst (mSize message);
          udp = rawUdp_udp ip sourcePort destinationPort message
      in iphdr_bytes ip @ udphdr_bytes udp @ payload message)"

text \<open>
  \<open>sendRawUdp\<close>: the three buffers are handed to \<open>sendmsg\<close> for the interface, addressed
  to the link layer broadcast address.
\<close>

definition sendRawUdp ::
  "kernel \<Rightarrow> u32 \<Rightarrow> u16 \<Rightarrow> u32 \<Rightarrow> u16 \<Rightarrow> u32 \<Rightarrow> message \<Rightarrow> socket \<Rightarrow> (trace, result) state" where
  "sendRawUdp k src sourcePort dst destinationPort interfaceIndex message s = do {
     let dest = SockaddrLl (htons ETH_P_IP) interfaceIndex (replicate ETH_ALEN 0xFF);
     res \<leftarrow> sys k (SendMsg (mSocketFd s) dest 0
              (rawUdp_packet src sourcePort dst destinationPort message));
     State_Monad.return
       (if ret res = -1 then Error ''Failed to send message: '' (Some (err res)) else Success)
   }"

text \<open>
  \<open>receiveRawUdp\<close>: \<open>readv\<close> scatters the datagram, cut to the room of the three buffers,
  over the two headers and the message.  The validity flag is the caller's on a receive error.
\<close>

definition receiveRawUdp ::
  "kernel \<Rightarrow> u16 \<Rightarrow> message \<Rightarrow> bool \<Rightarrow> socket \<Rightarrow> (trace, result \<times> message \<times> bool) state" where
  "receiveRawUdp k expectedPort message isValid s = do {
     a \<leftarrow> sys k (Readv (mSocketFd s));
     State_Monad.return
       (if ret a < 0
        then (Error ''Unable to read from socket: '' (Some (err a)), message, isValid)
        else
          let headers = sizeof_iphdr + sizeof_udphdr;
              buf = take (headers + capacity message) (data a);
              message = message\<lparr>dhcpData := store (dhcpData message) 0 (drop headers buf)\<rparr>
          in if length buf < headers then (Success, message, False)
             else (Success, setSize message (length buf - headers),
                   drop_bit 4 (buf ! 0) = IPVERSION \<and>
                   (buf ! 0) AND 15 = of_nat (sizeof_iphdr div 4) \<and>
                   buf ! 9 = IPPROTO_UDP \<and>
                   le16 (buf ! 22) (buf ! 23) = htons expectedPort))
   }"

section \<open>Lemmas\<close>

lemma length_iphdr_bytes [simp]: "length (iphdr_bytes ip) = 20"
  by (simp add: iphdr_bytes_def)

lemma length_udphdr_bytes [simp]: "length (udphdr_bytes udp) = 8"
  by (simp add: udphdr_bytes_def)

lemma length_payload [simp]: "length (payload m) = mSize m"
  by (simp add: payload_def)

lemma length_rawUdp_packet [simp]: "length (rawUdp_packet s sp d dp m) = 28 + mSize m"
  by (simp add: rawUdp_packet_def Let_def)

lemma bytes16_0 [simp]: "bytes16 0 = [0, 0]"
  by (simp add: bytes16_def)

lemma iphdr_bytes_check:
  "iphdr_bytes (ip\<lparr>check := c\<rparr>) =
     take 10 (iphdr_bytes ip) @ bytes16 c @ drop 12 (iphdr_bytes ip)"
  by (simp add: iphdr_bytes_def bytes16_def bytes32_def)

lemma udphdr_bytes_check:
  "udphdr_bytes (udp\<lparr>udp_check := c\<rparr>) = take 6 (udphdr_bytes udp) @ bytes16 c"
  by (simp add: udphdr_bytes_def bytes16_def)

text \<open>The pseudo header the UDP checksum covers in front of the datagram (RFC 768).\<close>

definition pseudo_header :: "iphdr \<Rightarrow> udphdr \<Rightarrow> bytes" where
  "pseudo_header ip udp =
     bytes32 (saddr ip) @ bytes32 (daddr ip) @ bytes16 (htons (ucast IPPROTO_UDP)) @
     bytes16 (udp_len udp)"

lemma rawUdp_udp_feed:
  "rawUdp_udp ip sp dp m =
     (rawUdp_udp0 sp dp (mSize m))
       \<lparr>udp_check := ucast (finishChecksum (inet.feed
          [bytes32 (saddr ip), bytes32 (daddr ip), bytes16 (htons (ucast IPPROTO_UDP)),
           bytes16 (udp_len (rawUdp_udp0 sp dp (mSize m))),
           udphdr_bytes (rawUdp_udp0 sp dp (mSize m)), payload m] 0))\<rparr>"
  by (simp add: rawUdp_udp_def Let_def)

lemma ip_header_checks:
  "finishChecksum (addChecksum (iphdr_bytes (rawUdp_ip s d n)) 0) = 0"
proof -
  let ?ip = "rawUdp_ip0 s d n"
  have split: "iphdr_bytes ?ip = take 10 (iphdr_bytes ?ip) @ [0, 0] @ drop 12 (iphdr_bytes ?ip)"
    by (simp add: iphdr_bytes_def bytes16_def bytes32_def rawUdp_ip0_def)
  then show ?thesis
    using inet.filled_in [of "take 10 (iphdr_bytes ?ip)" "drop 12 (iphdr_bytes ?ip)"]
    by (simp add: rawUdp_ip_def Let_def iphdr_bytes_check)
qed

lemma udp_datagram_checks:
  assumes "mSize m \<le> 65500"
  shows "finishChecksum (addChecksum
      (pseudo_header ip (rawUdp_udp ip sp dp m) @ udphdr_bytes (rawUdp_udp ip sp dp m) @
       payload m) 0) = 0"
proof -
  let ?u = "rawUdp_udp0 sp dp (mSize m)"
  let ?chunks = "[bytes32 (saddr ip), bytes32 (daddr ip), bytes16 (htons (ucast IPPROTO_UDP)),
      bytes16 (udp_len ?u), udphdr_bytes ?u, payload m]"
  let ?pre = "pseudo_header ip ?u @ take 6 (udphdr_bytes ?u)"
  have cat: "concat ?chunks = ?pre @ [0, 0] @ payload m"
    by (simp add: pseudo_header_def udphdr_bytes_def rawUdp_udp0_def bytes16_def)
  have "finishChecksum (addChecksum
      (?pre @ bytes16 (ucast (finishChecksum (inet.feed ?chunks 0))) @ payload m) 0) = 0"
    by (rule inet.feed_filled_in [OF _ _ cat]) (use assms in \<open>simp_all add: pseudo_header_def\<close>)
  then show ?thesis
    unfolding rawUdp_udp_feed udphdr_bytes_check by (simp add: pseudo_header_def)
qed

lemma iphdr_bytes_nth:
  "iphdr_bytes ip ! 0 = push_bit 4 (version ip) OR (ihl ip AND 15)"
  "iphdr_bytes ip ! 9 = protocol ip"
  by (simp_all add: iphdr_bytes_def bytes16_def bytes32_def)

lemma udphdr_bytes_nth:
  "udphdr_bytes udp ! 2 = ucast (dest udp)"
  "udphdr_bytes udp ! 3 = ucast (drop_bit 8 (dest udp))"
  by (simp_all add: udphdr_bytes_def bytes16_def)

lemma rawUdp_ip_sel [simp]:
  "version (rawUdp_ip s d n) = IPVERSION" "ihl (rawUdp_ip s d n) = 5"
  "protocol (rawUdp_ip s d n) = IPPROTO_UDP"
  "saddr (rawUdp_ip s d n) = s" "daddr (rawUdp_ip s d n) = d"
  by (simp_all add: rawUdp_ip_def rawUdp_ip0_def sizeof_iphdr_def Let_def)

lemma rawUdp_udp_dest [simp]: "dest (rawUdp_udp ip sp dp m) = htons dp"
  by (simp add: rawUdp_udp_def rawUdp_udp0_def Let_def)

lemma rawUdp_packet_nth:
  "rawUdp_packet s sp d dp m ! 0 = 0x45"
  "rawUdp_packet s sp d dp m ! 9 = IPPROTO_UDP"
  "rawUdp_packet s sp d dp m ! 22 = ucast (htons dp)"
  "rawUdp_packet s sp d dp m ! 23 = ucast (drop_bit 8 (htons dp))"
  "drop 28 (rawUdp_packet s sp d dp m) = payload m"
  by (simp_all add: rawUdp_packet_def Let_def nth_append iphdr_bytes_nth udphdr_bytes_nth
      IPVERSION_def)

text \<open>A message whose datagram from client to server sums to 0xFFFF.\<close>

definition zero_sum_message :: message where
  "zero_sum_message = \<lparr>dhcpData = store (\<lambda>_. 0) 0 [0xFF, 0x53], mSize = 2\<rparr>"

section \<open>Properties\<close>

lemma receiveRawUdp_packet:
  assumes "mSize m \<le> capacity m"
    and "ret (k (t @ [Readv (mSocketFd s)])) \<ge> 0"
    and "data (k (t @ [Readv (mSocketFd s)])) = rawUdp_packet src sport dst dport m"
  shows "run_state (receiveRawUdp k port m0 v0 s) t =
    ((Success, \<lparr>dhcpData = store (dhcpData m0) 0 (payload m), mSize = mSize m\<rparr>, dport = port),
     t @ [Readv (mSocketFd s)])"
proof -
  have c: "capacity m0 = capacity m" by (simp add: capacity_def)
  show ?thesis
    using assms
    by (simp add: receiveRawUdp_def sizeof_iphdr_def sizeof_udphdr_def Let_def c
        rawUdp_packet_nth IPVERSION_def htons_eq_iff setSize_def not_less)
qed

text \<open>
  C15. What \<open>sendRawUdp\<close> puts on the wire, \<open>receiveRawUdp\<close> takes off it: when the datagram
  of the sender's \<open>sendmsg\<close> is what the receiver's \<open>readv\<close> delivers, the receiver's message
  has the size and the bytes of the sent one, and it counts as valid exactly when it was sent to
  the port the receiver expects, whatever the receiver's buffer and flag held before.
\<close>

theorem raw_udp_roundtrip:
  assumes "mSize m \<le> capacity m"
    and "snd (run_state (sendRawUdp k src sport dst dport ifindex m s) t) =
      t @ [SendMsg (mSocketFd s) to 0 packet]"
    and "ret (k' (t' @ [Readv (mSocketFd s')])) \<ge> 0"
    and "data (k' (t' @ [Readv (mSocketFd s')])) = packet"
  shows "\<exists>m'. run_state (receiveRawUdp k' port m0 v0 s') t' =
      ((Success, m', dport = port), t' @ [Readv (mSocketFd s')]) \<and>
    mSize m' = mSize m \<and> payload m' = payload m"
proof -
  have "packet = rawUdp_packet src sport dst dport m"
    using assms(2) by (simp add: sendRawUdp_def Let_def)
  then show ?thesis
    using receiveRawUdp_packet [where k = k' and t = t' and s = s', OF assms(1,3)] assms(4)
    by (simp add: payload_def [of "\<lparr>dhcpData = _, mSize = _\<rparr>"] mem_simps)
qed

theorem raw_udp_roundtrip_witness:
  "let m = fst (discover [2, 0, 0, 0, 0, 1] 7);
       packet = rawUdp_packet 0 68 0xFFFFFFFF 67 m;
       k = (\<lambda>t. \<lparr>ret = 0, err = 0, data = packet, cmsgs = [], text_data = [], addr_data = [],
       tv_sec = 0, tv_nsec = 0\<rparr>)
   in fst (fst (run_state (receiveRawUdp k 67 Message_empty False \<lparr>mSocketFd = 3\<rparr>) [])) = Success"
proof -
  let ?m = "fst (discover [2, 0, 0, 0, 0, 1] 7)"
  let ?p = "rawUdp_packet 0 68 0xFFFFFFFF 67 ?m"
  let ?a = "\<lparr>ret = 0, err = 0, data = ?p, cmsgs = [], text_data = [], addr_data = [],
       tv_sec = 0, tv_nsec = 0\<rparr>"
  have "mSize ?m = 254"
    by (rule discover_facts(4) [OF _ refl]) (simp add: ETH_ALEN_def)
  then have fits: "mSize ?m \<le> capacity ?m"
    by (simp add: capacity_def sizeof_dhcpData_def)
  have sent: "snd (run_state (sendRawUdp (\<lambda>t. ?a) 0 68 0xFFFFFFFF 67 2 ?m \<lparr>mSocketFd = 3\<rparr>) []) =
      [] @ [SendMsg (mSocketFd \<lparr>mSocketFd = 3\<rparr>)
        (SockaddrLl (htons ETH_P_IP) 2 (replicate ETH_ALEN 0xFF)) 0 ?p]"
    by (simp add: sendRawUdp_def Let_def)
  show ?thesis
    using raw_udp_roundtrip [where k' = "\<lambda>t. ?a" and t' = "[]" and s' = "\<lparr>mSocketFd = 3\<rparr>"
        and port = 67 and ?m0.0 = Message_empty and ?v0.0 = False, OF fits sent]
    by auto
qed

text \<open>
  The checksums of a raw datagram: the words of its IP header sum to zero, and so do those of
  the pseudo header (RFC 768), the UDP header and the message, for all addresses and ports and
  every message that fits a datagram.
\<close>

theorem raw_udp_checksums:
  assumes "mSize m \<le> 65500" and "ip = rawUdp_ip src dst (mSize m)"
    and "udp = rawUdp_udp ip sport dport m"
  shows "rawUdp_packet src sport dst dport m = iphdr_bytes ip @ udphdr_bytes udp @ payload m \<and>
    finishChecksum (addChecksum (iphdr_bytes ip) 0) = 0 \<and>
    finishChecksum (addChecksum (pseudo_header ip udp @ udphdr_bytes udp @ payload m) 0) = 0"
  using udp_datagram_checks [OF assms(1), of ip sport dport] ip_header_checks [of src dst "mSize m"]
  by (simp add: assms(2,3) rawUdp_packet_def Let_def)

theorem raw_udp_checksums_witness:
  "finishChecksum (addChecksum (iphdr_bytes (rawUdp_ip 0 0xFFFFFFFF 0)) 0) = 0"
  using raw_udp_checksums [where m = Message_empty and ip = "rawUdp_ip 0 0xFFFFFFFF 0"
      and src = 0 and dst = "0xFFFFFFFF" and sport = 68 and dport = 67
      and udp = "rawUdp_udp (rawUdp_ip 0 0xFFFFFFFF 0) 68 67 Message_empty"]
  by (simp add: Message_empty_def)

text \<open>
  The UDP checksum of a datagram whose words sum to 0xFFFF is sent as 0, which a receiver
  takes for "no checksum" (RFC 768 asks for 0xFFFF): a two byte message from the client to the server.
\<close>

theorem udp_checksum_sent_as_zero:
  "udp_check (rawUdp_udp (rawUdp_ip 0 0xFFFFFFFF 2) 68 67 zero_sum_message) = 0"
  by (simp add: rawUdp_udp_def rawUdp_udp0_def Let_def addChecksum_def udphdr_bytes_def
      payload_def zero_sum_message_def mem_simps) code_simp

end
