(* ===== verification/Netlink.thy ===== *)
theory Netlink
  imports Prelude
begin

text \<open>
  Routing netlink requests.  \<open>addRouterAttribute\<close> is written out twice in the repository with
  one and the same body (\<open>wifi/dhcp/client/netlink.h\<close>, \<open>network/ipv6proxy/router.cpp\<close>);
  the requests it fills are modelled as the memory of their struct, which starts with the
  \<open>nlmsghdr\<close>.  The reference is the kernel's reading of the attribute stream.
\<close>

section \<open>The code\<close>

text \<open>\<open>NLMSG_ALIGN\<close> and \<open>RTA_ALIGN\<close>, on \<open>__u32\<close> lengths.\<close>

definition NLMSG_ALIGN :: "u32 \<Rightarrow> u32" where
  "NLMSG_ALIGN len = (len + 3) AND NOT 3"

definition NLMSG_HDRLEN :: nat where "NLMSG_HDRLEN = 16"
definition RTA_HDRLEN :: nat where "RTA_HDRLEN = 4"

definition nlmsg_len :: "mem \<Rightarrow> u32" where
  "nlmsg_len r = load32 r 0"

definition set_nlmsg_len :: "u32 \<Rightarrow> mem \<Rightarrow> mem" where
  "set_nlmsg_len v r = store r 0 (bytes32 v)"

text \<open>
  The offset into \<open>buf\<close> is taken relative to the struct, so the attribute lands at the aligned
  message length.  \<open>rta_len\<close> and \<open>rta_type\<close> are 16 bit fields, in this order.
\<close>

definition addRouterAttribute :: "mem \<Rightarrow> u16 \<Rightarrow> bytes \<Rightarrow> mem" where
  "addRouterAttribute r type dat =
     (let attr = unat (NLMSG_ALIGN (nlmsg_len r));
          rta_len = of_nat (RTA_HDRLEN + length dat) :: u16;
          r = store r attr (bytes16 rta_len @ bytes16 type @ dat)
      in set_nlmsg_len (NLMSG_ALIGN (nlmsg_len r) + NLMSG_ALIGN (ucast rta_len)) r)"

section \<open>The reference reader\<close>

text \<open>
  The kernel walks the attributes: each has its length, with header, in the first two bytes, its
  type in the next two, and starts at a multiple of four.
\<close>

function parse_attrs :: "bytes \<Rightarrow> (u16 \<times> bytes) list" where
  "parse_attrs bs =
     (if length bs < RTA_HDRLEN then []
      else let len = unat (le16 (bs ! 0) (bs ! 1)); type = le16 (bs ! 2) (bs ! 3)
           in if len < RTA_HDRLEN \<or> length bs < len then []
              else (type, take (len - RTA_HDRLEN) (drop RTA_HDRLEN bs)) #
                   parse_attrs (drop (4 * ((len + 3) div 4)) bs))"
  by pat_completeness auto
termination
  by (relation "measure length") (auto simp: RTA_HDRLEN_def)

declare parse_attrs.simps [simp del]

definition encode_attr :: "u16 \<times> bytes \<Rightarrow> bytes" where
  "encode_attr a = bytes16 (of_nat (RTA_HDRLEN + length (snd a))) @ bytes16 (fst a) @ snd a"

text \<open>The attributes the programs use hold a multiple of four bytes.\<close>

definition wf_attr :: "u16 \<times> bytes \<Rightarrow> bool" where
  "wf_attr a \<longleftrightarrow> length (snd a) mod 4 = 0 \<and> length (snd a) \<le> 64"

definition request_holds :: "nat \<Rightarrow> mem \<Rightarrow> (u16 \<times> bytes) list \<Rightarrow> bool" where
  "request_holds base r ats \<longleftrightarrow>
     base mod 4 = 0 \<and> 4 \<le> base \<and> list_all wf_attr ats \<and>
     unat (nlmsg_len r) = base + length (concat (map encode_attr ats)) \<and>
     load r base (length (concat (map encode_attr ats))) = concat (map encode_attr ats)"

section \<open>The interface of the request builders\<close>

text \<open>
  A request is filled by adding attributes: \<open>holds\<close> says which are in it, and adding one keeps
  those in front of it, the fixed part of the request, and the bound on its length.
\<close>

locale attribute_writer =
  fixes add :: "mem \<Rightarrow> u16 \<Rightarrow> bytes \<Rightarrow> mem"
    and holds :: "mem \<Rightarrow> (u16 \<times> bytes) list \<Rightarrow> bool"
    and wf :: "u16 \<times> bytes \<Rightarrow> bool"
    and size_of :: "(u16 \<times> bytes) list \<Rightarrow> nat"
    and limit :: nat
    and base :: nat
  assumes add_holds: "holds r ats \<Longrightarrow> wf (t, d) \<Longrightarrow> size_of (ats @ [(t, d)]) \<le> limit \<Longrightarrow>
      holds (add r t d) (ats @ [(t, d)])"
    and add_frame: "holds r ats \<Longrightarrow> wf (t, d) \<Longrightarrow> size_of (ats @ [(t, d)]) \<le> limit \<Longrightarrow>
      4 \<le> i \<Longrightarrow> i < base \<or> base + size_of (ats @ [(t, d)]) \<le> i \<Longrightarrow> add r t d i = r i"
    and size_mono: "size_of ats \<le> size_of (ats @ bts)"
begin

fun add_all :: "mem \<Rightarrow> (u16 \<times> bytes) list \<Rightarrow> mem" where
  "add_all r [] = r"
| "add_all r ((t, d) # ats) = add_all (add r t d) ats"

lemma add_all_holds:
  "holds r ats \<Longrightarrow> list_all wf bts \<Longrightarrow> size_of (ats @ bts) \<le> limit \<Longrightarrow>
   holds (add_all r bts) (ats @ bts)"
proof (induction bts arbitrary: r ats)
  case (Cons b bts)
  obtain t d where b: "b = (t, d)" by (cases b)
  have "size_of (ats @ [(t, d)]) \<le> size_of ((ats @ [(t, d)]) @ bts)" by (rule size_mono)
  then have "holds (add r t d) (ats @ [(t, d)])"
    using Cons.prems by (intro add_holds) (simp_all add: b)
  from Cons.IH [OF this] Cons.prems show ?case by (simp add: b)
qed simp

lemma add_all_frame:
  "holds r ats \<Longrightarrow> list_all wf bts \<Longrightarrow> size_of (ats @ bts) \<le> limit \<Longrightarrow> 4 \<le> i \<Longrightarrow>
   i < base \<or> base + size_of (ats @ bts) \<le> i \<Longrightarrow> add_all r bts i = r i"
proof (induction bts arbitrary: r ats)
  case (Cons b bts)
  obtain t d where b: "b = (t, d)" by (cases b)
  have le: "size_of (ats @ [(t, d)]) \<le> size_of ((ats @ [(t, d)]) @ bts)" by (rule size_mono)
  then have "holds (add r t d) (ats @ [(t, d)])" and "add r t d i = r i"
    using Cons.prems by (auto intro!: add_holds add_frame [where ats = ats] simp: b)
  with Cons.IH [of "add r t d" "ats @ [(t, d)]"] Cons.prems show ?case by (simp add: b)
qed simp

end

section \<open>The laws hold for the code\<close>

lemma unat_NLMSG_ALIGN:
  assumes "unat w + 3 < 2 ^ 32"
  shows "unat (NLMSG_ALIGN w) = 4 * ((unat w + 3) div 4)"
proof -
  have suc: "Suc (Suc (n - 2)) = n" if "2 \<le> n" for n
    using that by simp
  have "x AND NOT (mask 2) = push_bit 2 (drop_bit 2 x)" for x :: u32
    by (rule bit_word_eqI) (auto simp: bit_simps suc)
  then have "NLMSG_ALIGN w = push_bit 2 (drop_bit 2 (w + 3))"
    by (simp add: NLMSG_ALIGN_def mask_eq_exp_minus_1)
  moreover have "unat (w + 3) = unat w + 3"
    using assms by (simp add: unat_word_ariths)
  ultimately show ?thesis
    using assms by (simp add: push_bit_eq_mult drop_bit_eq_div unat_word_ariths unat_div_distrib)
qed

lemma length_encode_attr [simp]: "length (encode_attr a) = 4 + length (snd a)"
  by (simp add: encode_attr_def)

definition attrs_size :: "(u16 \<times> bytes) list \<Rightarrow> nat" where
  "attrs_size ats = length (concat (map encode_attr ats))"

lemma attrs_size_simps [simp]:
  "attrs_size [] = 0"
  "attrs_size (a # ats) = 4 + length (snd a) + attrs_size ats"
  "attrs_size (ats @ bts) = attrs_size ats + attrs_size bts"
  by (simp_all add: attrs_size_def)

lemma attrs_size_mod: "list_all wf_attr ats \<Longrightarrow> attrs_size ats mod 4 = 0"
  by (induction ats) (auto simp: wf_attr_def mod_eq_0_iff_dvd)

lemma add_at_end:
  assumes "request_holds base r ats" "wf_attr (t, d)"
    and "base + attrs_size (ats @ [(t, d)]) < 2 ^ 16"
  shows "addRouterAttribute r t d =
    store (store r (base + attrs_size ats) (encode_attr (t, d))) 0
      (bytes32 (of_nat (base + attrs_size (ats @ [(t, d)]))))"
proof -
  have len: "unat (nlmsg_len r) = base + attrs_size ats"
    and mod: "(base + attrs_size ats) mod 4 = 0"
    using assms(1) attrs_size_mod [of ats]
    by (auto simp: request_holds_def attrs_size_def mod_add_eq [symmetric, of base])
  have d: "(4 + length d) mod 4 = 0" "4 + length d < 2 ^ 16"
    using assms(2) by (auto simp: wf_attr_def)
  have a1: "unat (NLMSG_ALIGN (nlmsg_len r)) = base + attrs_size ats"
    using mod assms(3) by (simp add: unat_NLMSG_ALIGN len) presburger
  have u: "unat (ucast (of_nat (4 + length d) :: u16) :: u32) = 4 + length d"
    using d(2) by (simp del: of_nat_add add: unsigned_ucast_eq unsigned_of_nat take_bit_nat_eq_self)
  then have a2: "unat (NLMSG_ALIGN (ucast (of_nat (4 + length d) :: u16))) = 4 + length d"
    using d by (simp del: of_nat_add add: unat_NLMSG_ALIGN) presburger
  have "NLMSG_ALIGN (nlmsg_len r) + NLMSG_ALIGN (ucast (of_nat (4 + length d) :: u16)) =
      of_nat (unat (NLMSG_ALIGN (nlmsg_len r)) +
        unat (NLMSG_ALIGN (ucast (of_nat (4 + length d) :: u16))))"
    by simp
  then have "NLMSG_ALIGN (nlmsg_len r) + NLMSG_ALIGN (ucast (of_nat (4 + length d) :: u16)) =
      of_nat (base + attrs_size (ats @ [(t, d)]))"
    unfolding a1 a2 by (simp add: add.assoc)
  moreover have "nlmsg_len (store r (base + attrs_size ats) bs) = nlmsg_len r" for bs
    using assms(1) by (simp add: nlmsg_len_def request_holds_def mem_simps)
  ultimately show ?thesis
    using a1 by (simp add: addRouterAttribute_def set_nlmsg_len_def encode_attr_def RTA_HDRLEN_def Let_def)
qed

lemma request_holds_add:
  assumes r: "request_holds base r ats" "wf_attr (t, d)"
    and le: "base + attrs_size (ats @ [(t, d)]) < 2 ^ 16"
  shows "request_holds base (addRouterAttribute r t d) (ats @ [(t, d)])"
proof -
  have len: "unat (of_nat (base + attrs_size (ats @ [(t, d)])) :: u32) =
      base + attrs_size (ats @ [(t, d)])"
    using le by (simp only: unsigned_of_nat) (simp add: take_bit_nat_eq_self)
  let ?r = "store r (base + attrs_size ats) (encode_attr (t, d))"
  have "load ?r base (attrs_size ats + length (encode_attr (t, d))) =
      concat (map encode_attr ats) @ encode_attr (t, d)"
    using r(1) by (subst load_store_end) (simp_all add: request_holds_def attrs_size_def)
  moreover have "attrs_size (ats @ [(t, d)]) = attrs_size ats + length (encode_attr (t, d))"
    by simp
  ultimately show ?thesis
    unfolding add_at_end [OF assms] using r len
    by (simp add: request_holds_def nlmsg_len_def mem_simps flip: attrs_size_def)
qed

lemma add_frame:
  assumes "request_holds base r ats" "wf_attr (t, d)"
    and "base + attrs_size (ats @ [(t, d)]) < 2 ^ 16"
    and "4 \<le> i" "i < base \<or> base + attrs_size (ats @ [(t, d)]) \<le> i"
  shows "addRouterAttribute r t d i = r i"
  using assms(4,5) by (auto simp: add_at_end [OF assms(1-3)] mem_simps store_def)

text \<open>The two fixed parts in use are 24 and 28 bytes long, the buffer behind them 256.\<close>

interpretation addr_request: attribute_writer
    addRouterAttribute "request_holds 24" wf_attr attrs_size 256 24
  by unfold_locales (auto intro: request_holds_add add_frame)

interpretation route_request: attribute_writer
    addRouterAttribute "request_holds 28" wf_attr attrs_size 256 28
  by unfold_locales (auto intro: request_holds_add add_frame)

lemma parse_encode_attrs:
  "list_all wf_attr ats \<Longrightarrow> parse_attrs (concat (map encode_attr ats)) = ats"
proof (induction ats)
  case Nil
  then show ?case by (simp add: parse_attrs.simps RTA_HDRLEN_def)
next
  case (Cons a ats)
  obtain t d where a: "a = (t, d)" by (cases a)
  let ?rest = "concat (map encode_attr ats)"
  have d: "length d mod 4 = 0" "length d \<le> 64" using Cons.prems by (auto simp: a wf_attr_def)
  have len: "unat (of_nat (4 + length d) :: u16) = 4 + length d"
    using d(2) by (simp only: unsigned_of_nat) (simp add: take_bit_nat_eq_self)
  have pad: "4 * ((4 + length d + 3) div 4) = 4 + length d" using d(1) by presburger
  let ?bs = "bytes16 (of_nat (4 + length d)) @ bytes16 t @ d @ ?rest"
  have "le16 (?bs ! 0) (?bs ! 1) = of_nat (4 + length d)" "le16 (?bs ! 2) (?bs ! 3) = t"
    by (simp_all add: bytes16_def nth_Cons' del: of_nat_add)
  moreover have "length ?bs = 4 + length d + length ?rest" "take (length d) (drop 4 ?bs) = d"
      "drop (4 + length d) ?bs = ?rest"
    by simp_all
  ultimately have "parse_attrs ?bs = (t, d) # parse_attrs ?rest"
    using len pad by (subst parse_attrs.simps) (simp only: RTA_HDRLEN_def Let_def, simp)
  with Cons show ?case by (simp add: a encode_attr_def [of "(t, d)"] RTA_HDRLEN_def)
qed

end
