(* ===== verification/Interface.thy ===== *)
theory Interface
  imports Netlink World
begin

text \<open>
  The network interface and the router of the DHCP client (\<open>wifi/dhcp/client/interface.cpp\<close>,
  \<open>wifi/dhcp/client/router.cpp\<close>): the \<open>ioctl\<close> requests and the two netlink requests they
  issue, with every error return.
\<close>

section \<open>Interface requests\<close>

definition SIOCGIFFLAGS :: int where "SIOCGIFFLAGS = 0x8913"
definition SIOCSIFFLAGS :: int where "SIOCSIFFLAGS = 0x8914"
definition SIOCSIFMTU :: int where "SIOCSIFMTU = 0x8922"
definition SIOCGIFHWADDR :: int where "SIOCGIFHWADDR = 0x8927"
definition SIOCGIFINDEX :: int where "SIOCGIFINDEX = 0x8933"
definition IFNAMSIZ :: nat where "IFNAMSIZ = 16"
definition sizeof_ifreq :: nat where "sizeof_ifreq = 40"
definition AF_NETLINK :: int where "AF_NETLINK = 16"
definition SOCK_RAW :: int where "SOCK_RAW = 3"
definition SOCK_CLOEXEC :: int where "SOCK_CLOEXEC = 0x80000"
definition NETLINK_ROUTE :: int where "NETLINK_ROUTE = 0"
definition AF_INET_u8 :: u8 where "AF_INET_u8 = 2"

record interface =
  mInterfaceName :: string
  ifSocketFd :: int
  mIndex :: u32
  mMacAddress :: bytes

text \<open>A C string's characters, and what a call that fills a buffer leaves in it.\<close>

definition cstr :: "string \<Rightarrow> bytes" where
  "cstr s = takeWhile (\<lambda>b. b \<noteq> 0) (map of_char s)"

definition overlay :: "bytes \<Rightarrow> bytes \<Rightarrow> bytes" where
  "overlay dat buf = take (length buf) dat @ drop (length dat) buf"

lemma length_overlay [simp]: "length (overlay dat buf) = length buf"
  by (simp add: overlay_def)

definition broadcastFromNetmask :: "u32 \<Rightarrow> u32 \<Rightarrow> u32" where
  "broadcastFromNetmask address netmask = address OR (NOT netmask)"

definition Interface_new :: "u32 \<Rightarrow> bytes \<Rightarrow> interface" where
  "Interface_new index mac =
     \<lparr>mInterfaceName = '''', ifSocketFd = -1, mIndex = index, mMacAddress = mac\<rparr>"

definition Interface_destroy :: "kernel \<Rightarrow> interface \<Rightarrow> (trace, interface) state" where
  "Interface_destroy k i =
     (if ifSocketFd i \<noteq> -1
      then do { _ \<leftarrow> sys k (Close (ifSocketFd i)); State_Monad.return (i\<lparr>ifSocketFd := -1\<rparr>) }
      else State_Monad.return i)"

definition createRequest :: "interface \<Rightarrow> bytes" where
  "createRequest i =
     (let name = take (IFNAMSIZ - 1) (cstr (mInterfaceName i))
      in name @ replicate (sizeof_ifreq - length name) 0)"

definition populateIndex :: "kernel \<Rightarrow> interface \<Rightarrow> (trace, result \<times> interface) state" where
  "populateIndex k i = do {
     let request = createRequest i;
     status \<leftarrow> sys k (Ioctl (ifSocketFd i) SIOCGIFINDEX request);
     State_Monad.return
       (if ret status \<noteq> 0 then (Error ''Failed to get interface index'' (Some (err status)), i)
        else let request = overlay (data status) request
             in (Success, i\<lparr>mIndex := le32 (request ! 16) (request ! 17) (request ! 18) (request ! 19)\<rparr>))
   }"

definition populateMacAddress :: "kernel \<Rightarrow> interface \<Rightarrow> (trace, result \<times> interface) state" where
  "populateMacAddress k i = do {
     let request = createRequest i;
     status \<leftarrow> sys k (Ioctl (ifSocketFd i) SIOCGIFHWADDR request);
     State_Monad.return
       (if ret status \<noteq> 0 then (Error ''Failed to get MAC address'' (Some (err status)), i)
        else let request = overlay (data status) request
             in (Success, i\<lparr>mMacAddress := take 6 (drop 18 request)\<rparr>))
   }"

text \<open>\<open>IFF_UP\<close> is bit 0 of the 16 bit flags at offset 16.\<close>

definition setInterfaceUp :: "kernel \<Rightarrow> bool \<Rightarrow> interface \<Rightarrow> (trace, result) state" where
  "setInterfaceUp k shouldBeUp i = do {
     let request = createRequest i;
     status \<leftarrow> sys k (Ioctl (ifSocketFd i) SIOCGIFFLAGS request);
     if ret status \<noteq> 0
     then State_Monad.return (Error ''Failed to get interface flags'' (Some (err status)))
     else do {
       let request = overlay (data status) request;
       let isUp = (request ! 16) AND 1 \<noteq> 0;
       if isUp \<noteq> shouldBeUp
       then do {
         let request = request[16 := (request ! 16) XOR 1];
         status \<leftarrow> sys k (Ioctl (ifSocketFd i) SIOCSIFFLAGS request);
         State_Monad.return
           (if ret status \<noteq> 0 then Error ''Failed to set interface flags'' (Some (err status))
            else Success)
       }
       else State_Monad.return Success
     }
   }"

definition bringUp :: "kernel \<Rightarrow> interface \<Rightarrow> (trace, result) state" where
  "bringUp k i = setInterfaceUp k True i"

definition bringDown :: "kernel \<Rightarrow> interface \<Rightarrow> (trace, result) state" where
  "bringDown k i = setInterfaceUp k False i"

text \<open>
  \<open>setMtu\<close> copies the name once more, over all 16 bytes, and stores the MTU as an \<open>int\<close>.
\<close>

definition mtu_request :: "interface \<Rightarrow> u16 \<Rightarrow> bytes" where
  "mtu_request i mtu =
     (let name = take IFNAMSIZ (cstr (mInterfaceName i))
      in name @ replicate (IFNAMSIZ - length name) 0 @ bytes32 (ucast mtu) @
         drop 20 (createRequest i))"

definition setMtu :: "kernel \<Rightarrow> u16 \<Rightarrow> interface \<Rightarrow> (trace, result) state" where
  "setMtu k mtu i = do {
     status \<leftarrow> sys k (Ioctl (ifSocketFd i) SIOCSIFMTU (mtu_request i mtu));
     State_Monad.return
       (if ret status \<noteq> 0 then Error ''Failed to set interface MTU'' (Some (err status))
        else Success)
   }"

section \<open>Setting the address\<close>

definition RTM_NEWADDR :: u16 where "RTM_NEWADDR = 20"
definition NLM_F_REQUEST :: u16 where "NLM_F_REQUEST = 1"
definition NLM_F_ACK :: u16 where "NLM_F_ACK = 4"
definition NLM_F_REPLACE :: u16 where "NLM_F_REPLACE = 0x100"
definition NLM_F_CREATE :: u16 where "NLM_F_CREATE = 0x400"
definition IFA_ADDRESS :: u16 where "IFA_ADDRESS = 1"
definition IFA_LOCAL :: u16 where "IFA_LOCAL = 2"
definition IFA_BROADCAST :: u16 where "IFA_BROADCAST = 4"
definition NLMSG_ERROR :: u16 where "NLMSG_ERROR = 2"

definition popcount :: "u32 \<Rightarrow> nat" where
  "popcount w = length (filter (\<lambda>n. bit w n) [0..<32])"

text \<open>
  The struct: a 16 byte \<open>nlmsghdr\<close>, the 8 bytes of \<open>ifaddrmsg\<close> (family, prefix length,
  flags, scope, index), and the attributes.
\<close>

definition addr_request0 :: "u32 \<Rightarrow> u32 \<Rightarrow> mem" where
  "addr_request0 index subnetMask =
     store (\<lambda>_. 0) 0
       (bytes32 24 @ bytes16 RTM_NEWADDR @
        bytes16 (NLM_F_REQUEST OR NLM_F_ACK OR NLM_F_CREATE OR NLM_F_REPLACE) @
        replicate 8 0 @
        [AF_INET_u8, of_nat (popcount subnetMask), 0, 0] @ bytes32 index)"

definition addr_request :: "u32 \<Rightarrow> u32 \<Rightarrow> u32 \<Rightarrow> mem" where
  "addr_request index address subnetMask =
     (let r = addr_request0 index subnetMask;
          r = addRouterAttribute r IFA_ADDRESS (bytes32 address);
          r = addRouterAttribute r IFA_LOCAL (bytes32 address);
          broadcast = broadcastFromNetmask address subnetMask
      in addRouterAttribute r IFA_BROADCAST (bytes32 broadcast))"

definition request_bytes :: "mem \<Rightarrow> bytes" where
  "request_bytes r = load r 0 (unat (nlmsg_len r))"

definition sizeof_nlmsgerr :: nat where "sizeof_nlmsgerr = 20"

text \<open>The evaluation of the kernel's response, which is all that \<open>recv\<close> put into the buffer.\<close>

definition address_response :: "bytes \<Rightarrow> result" where
  "address_response response =
     (if length response < NLMSG_HDRLEN
      then Error ''Received incomplete response from netlink'' None
      else if le16 (response ! 4) (response ! 5) = NLMSG_ERROR
      then if length response < NLMSG_HDRLEN + sizeof_nlmsgerr
           then Error ''Recieved an error from netlink but the response was incomplete'' None
           else let error = le32 (response ! 16) (response ! 17) (response ! 18) (response ! 19)
                in if error \<noteq> 0
                   then Error ''Could not set interface address: '' (Some (- sint error))
                   else Success
      else Success)"

definition setAddress :: "kernel \<Rightarrow> u32 \<Rightarrow> u32 \<Rightarrow> interface \<Rightarrow> (trace, result) state" where
  "setAddress k address subnetMask i = do {
     status \<leftarrow> sys k (SendTo (ifSocketFd i) SockaddrNl
                (request_bytes (addr_request (mIndex i) address subnetMask)));
     if ret status = -1
     then State_Monad.return (Error ''Unable to set interface address: '' (Some (err status)))
     else do {
       status \<leftarrow> sys k (Recv (ifSocketFd i));
       State_Monad.return
         (if ret status < 0 then Error ''Unable to read netlink response: '' (Some (err status))
          else address_response (take 8192 (data status)))
     }
   }"

section \<open>Initialisation\<close>

definition Interface_init :: "kernel \<Rightarrow> string \<Rightarrow> interface \<Rightarrow> (trace, result \<times> interface) state" where
  "Interface_init k interfaceName i = do {
     let i = i\<lparr>mInterfaceName := interfaceName\<rparr>;
     if ifSocketFd i \<noteq> -1
     then State_Monad.return (Error ''Interface initialized more than once'' None, i)
     else do {
       a \<leftarrow> sys k (SocketCreate AF_NETLINK (SOCK_RAW + SOCK_CLOEXEC) NETLINK_ROUTE);
       let i = i\<lparr>ifSocketFd := ret a\<rparr>;
       if ifSocketFd i = -1
       then State_Monad.return (Error ''Failed to create interface socket'' (Some (err a)), i)
       else do {
         (res, i) \<leftarrow> populateIndex k i;
         if \<not> isSuccess res then State_Monad.return (res, i)
         else do {
           (res, i) \<leftarrow> populateMacAddress k i;
           if \<not> isSuccess res then State_Monad.return (res, i)
           else do {
             res \<leftarrow> on_success (bringUp k i) (setAddress k 0 0 i);
             State_Monad.return (res, i)
           }
         }
       }
     }
   }"

section \<open>The router\<close>

definition RTM_NEWROUTE :: u16 where "RTM_NEWROUTE = 24"
definition RTA_OIF :: u16 where "RTA_OIF = 4"
definition RTA_GATEWAY :: u16 where "RTA_GATEWAY = 5"
definition RT_TABLE_MAIN :: u8 where "RT_TABLE_MAIN = 254"
definition RTPROT_BOOT :: u8 where "RTPROT_BOOT = 3"
definition RT_SCOPE_UNIVERSE :: u8 where "RT_SCOPE_UNIVERSE = 0"
definition RTN_UNICAST :: u8 where "RTN_UNICAST = 1"

record router =
  rtSocketFd :: int

definition Router_new :: router where
  "Router_new = \<lparr>rtSocketFd = -1\<rparr>"

definition Router_destroy :: "kernel \<Rightarrow> router \<Rightarrow> (trace, router) state" where
  "Router_destroy k r =
     (if rtSocketFd r \<noteq> -1
      then do { _ \<leftarrow> sys k (Close (rtSocketFd r)); State_Monad.return (r\<lparr>rtSocketFd := -1\<rparr>) }
      else State_Monad.return r)"

definition Router_init :: "kernel \<Rightarrow> router \<Rightarrow> (trace, result \<times> router) state" where
  "Router_init k r = do {
     a \<leftarrow> sys k (SocketCreate AF_NETLINK SOCK_RAW NETLINK_ROUTE);
     State_Monad.return
       (if ret a = -1 then Error '''' (Some (err a)) else Success, r\<lparr>rtSocketFd := ret a\<rparr>)
   }"

text \<open>The 12 bytes of \<open>rtmsg\<close>: family, lengths, tos, table, protocol, scope, type, flags.\<close>

definition gateway_request0 :: mem where
  "gateway_request0 =
     store (\<lambda>_. 0) 0
       (bytes32 28 @ bytes16 RTM_NEWROUTE @ bytes16 (NLM_F_REQUEST OR NLM_F_CREATE) @
        replicate 8 0 @
        [AF_INET_u8, 0, 0, 0, RT_TABLE_MAIN, RTPROT_BOOT, RT_SCOPE_UNIVERSE, RTN_UNICAST] @
        bytes32 0)"

definition gateway_request :: "u32 \<Rightarrow> u32 \<Rightarrow> mem" where
  "gateway_request gateway ifaceIndex =
     addRouterAttribute (addRouterAttribute gateway_request0 RTA_GATEWAY (bytes32 gateway))
       RTA_OIF (bytes32 ifaceIndex)"

definition sendNetlinkMessage :: "kernel \<Rightarrow> bytes \<Rightarrow> router \<Rightarrow> (trace, result) state" where
  "sendNetlinkMessage k dat r = do {
     res \<leftarrow> sys k (SendTo (rtSocketFd r) SockaddrNl dat);
     State_Monad.return
       (if ret res = -1 then Error ''Unable to send on netlink socket: '' (Some (err res))
        else Success)
   }"

definition setDefaultGateway :: "kernel \<Rightarrow> u32 \<Rightarrow> u32 \<Rightarrow> router \<Rightarrow> (trace, result) state" where
  "setDefaultGateway k gateway ifaceIndex r =
     sendNetlinkMessage k (request_bytes (gateway_request gateway ifaceIndex)) r"

section \<open>Lemmas\<close>

lemma load_eqI: "length bs = n \<Longrightarrow> (\<And>i. i < n \<Longrightarrow> m (a + i) = bs ! i) \<Longrightarrow> load m a n = bs"
  by (rule nth_equalityI) auto

lemmas rtnl_consts =
  RTM_NEWADDR_def NLM_F_REQUEST_def NLM_F_ACK_def NLM_F_REPLACE_def NLM_F_CREATE_def
  IFA_ADDRESS_def IFA_LOCAL_def IFA_BROADCAST_def RTM_NEWROUTE_def RTA_OIF_def RTA_GATEWAY_def

lemma request0_holds:
  assumes "length bs = base - 4" "base mod 4 = 0" "4 \<le> base" "base < 2 ^ 16"
  shows "request_holds base (store g 0 (bytes32 (of_nat base) @ bs)) []"
proof -
  have "store g 0 (bytes32 (of_nat base) @ bs) = store (store g 0 (bytes32 (of_nat base))) 4 bs"
    using store_store_end [of g 0 "bytes32 (of_nat base)" bs] by simp
  then show ?thesis
    using assms
    by (simp add: request_holds_def nlmsg_len_def mem_simps unsigned_of_nat take_bit_nat_eq_self)
qed

lemma wf_attr_bytes32 [simp]: "wf_attr (t, bytes32 w)"
  by (simp add: wf_attr_def)

definition addr_attrs :: "u32 \<Rightarrow> u32 \<Rightarrow> (u16 \<times> bytes) list" where
  "addr_attrs address subnetMask =
     [(IFA_ADDRESS, bytes32 address), (IFA_LOCAL, bytes32 address),
      (IFA_BROADCAST, bytes32 (address OR NOT subnetMask))]"

lemma addr_request_add_all:
  "addr_request ix a nm = addr_request.add_all (addr_request0 ix nm) (addr_attrs a nm)"
  by (simp add: addr_request_def addr_attrs_def broadcastFromNetmask_def Let_def)

lemma addr_request0_holds: "request_holds 24 (addr_request0 ix nm) []"
  unfolding addr_request0_def using request0_holds [where base = 24] by simp

lemma addr_request_facts:
  "request_holds 24 (addr_request ix a nm) (addr_attrs a nm)"
  "4 \<le> i \<Longrightarrow> i < 24 \<or> 48 \<le> i \<Longrightarrow> addr_request ix a nm i = addr_request0 ix nm i"
  using addr_request.add_all_holds [OF addr_request0_holds, of "addr_attrs a nm" ix nm]
    addr_request.add_all_frame [OF addr_request0_holds, of "addr_attrs a nm" i ix nm]
  by (simp_all add: addr_request_add_all) (simp_all add: addr_attrs_def)

definition gateway_attrs :: "u32 \<Rightarrow> u32 \<Rightarrow> (u16 \<times> bytes) list" where
  "gateway_attrs gw ix = [(RTA_GATEWAY, bytes32 gw), (RTA_OIF, bytes32 ix)]"

lemma gateway_request0_holds: "request_holds 28 gateway_request0 []"
  unfolding gateway_request0_def using request0_holds [where base = 28] by simp

lemma gateway_request_facts:
  "request_holds 28 (gateway_request gw ix) (gateway_attrs gw ix)"
  "4 \<le> i \<Longrightarrow> i < 28 \<or> 44 \<le> i \<Longrightarrow> gateway_request gw ix i = gateway_request0 i"
  using route_request.add_all_holds [OF gateway_request0_holds, of "gateway_attrs gw ix"]
    route_request.add_all_frame [OF gateway_request0_holds, of "gateway_attrs gw ix" i]
  by (simp_all add: gateway_attrs_def gateway_request_def)

lemma request_bytes_split:
  assumes "request_holds base r ats"
  shows "request_bytes r = load r 0 base @ concat (map encode_attr ats)"
    and "length (request_bytes r) = base + attrs_size ats"
  using assms by (simp_all add: request_bytes_def request_holds_def load_append attrs_size_def)

text \<open>The prefix length of every contiguous netmask, in network byte order as the code holds it.\<close>

definition prefix_mask :: "nat \<Rightarrow> u32" where
  "prefix_mask n = htonl (NOT (mask (32 - n)))"

lemma popcount_netmask: "list_all (\<lambda>n. popcount (prefix_mask n) = n) [0..<33]"
  by code_simp

text \<open>The responses of the kernel that are no error.\<close>

definition acknowledges :: "bytes \<Rightarrow> bool" where
  "acknowledges response \<longleftrightarrow>
     16 \<le> length response \<and>
     (le16 (response ! 4) (response ! 5) \<noteq> NLMSG_ERROR \<or>
      36 \<le> length response \<and>
      le32 (response ! 16) (response ! 17) (response ! 18) (response ! 19) = 0)"

section \<open>Properties\<close>

text \<open>
  The request \<open>setAddress\<close> sends for an address and a netmask of \<open>n\<close> bits: the kernel
  reads from it the interface's index, the prefix length \<open>n\<close>, and as attributes exactly the
  address, the local address and the broadcast address, the request is as long as its header
  says, and nothing is written behind its 48 bytes (the struct has 280).
\<close>

theorem set_address_request:
  assumes "n \<le> 32" and "r = addr_request ix address (prefix_mask n)"
  shows "parse_attrs (drop 24 (request_bytes r)) =
      [(IFA_ADDRESS, bytes32 address), (IFA_LOCAL, bytes32 address),
       (IFA_BROADCAST, bytes32 (address OR NOT (prefix_mask n)))] \<and>
    nlmsg_len r = 48 \<and> length (request_bytes r) = 48 \<and>
    r 17 = of_nat n \<and> load32 r 20 = ix \<and>
    (\<forall>i\<ge>48. r i = 0)"
proof -
  let ?a = "addr_attrs address (prefix_mask n)"
  note f = addr_request_facts [where ix = ix and a = address and nm = "prefix_mask n", folded assms(2)]
  have at: "attrs_size ?a = 24" "list_all wf_attr ?a" by (simp_all add: addr_attrs_def)
  have pc: "popcount (prefix_mask n) = n"
    using popcount_netmask assms(1) by (auto simp: list_all_iff)
  have "drop 24 (request_bytes r) = concat (map encode_attr ?a)"
    by (simp add: request_bytes_split(1) [OF f(1)])
  then have p: "parse_attrs (drop 24 (request_bytes r)) = ?a"
    using parse_encode_attrs [OF at(2)] by simp
  have "unat (nlmsg_len r) = 48"
    using f(1) at by (simp add: request_holds_def attrs_size_def)
  then have len: "nlmsg_len r = 48" by (simp add: word_unat_eq_iff)
  have "load32 r 20 = load32 (addr_request0 ix (prefix_mask n)) 20"
    by (rule load32_cong) (intro load_cong f(2); simp)
  also have "\<dots> = ix"
    by (rule load32_bytes, rule load_eqI)
      (simp_all add: addr_request0_def store_def nth_append nth_Cons' bytes16_def)
  finally have ix: "load32 r 20 = ix" .
  have "r 17 = of_nat n"
    by (simp add: f(2)) (simp add: addr_request0_def store_def nth_append nth_Cons' bytes16_def pc)
  moreover have "r i = 0" if "48 \<le> i" for i
    using that by (simp add: f(2)) (simp add: addr_request0_def store_def)
  ultimately show ?thesis
    using p len ix request_bytes_split(2) [OF f(1)] at(1) by (simp add: addr_attrs_def)
qed

theorem set_address_request_witness:
  "parse_attrs (drop 24 (request_bytes (addr_request 2 0x0F02000A (prefix_mask 24)))) =
    [(IFA_ADDRESS, bytes32 0x0F02000A), (IFA_LOCAL, bytes32 0x0F02000A),
     (IFA_BROADCAST, bytes32 0xFF02000A)]"
proof -
  have "(0x0F02000A :: u32) OR NOT (prefix_mask 24) = 0xFF02000A"
    by code_simp
  then show ?thesis
    using set_address_request [of 24 _ 2 "0x0F02000A"] by simp
qed

text \<open>
  C20. The outcome of \<open>setAddress\<close> on every branch: it sends exactly one request, waits for
  the response exactly when the request was sent, and succeeds exactly when a response came that
  is no error message, or is a complete one that acknowledges (error number zero).
\<close>

theorem set_address_outcome:
  "let send = SendTo (ifSocketFd i) SockaddrNl (request_bytes (addr_request (mIndex i) a nm));
       recv = Recv (ifSocketFd i);
       response = take 8192 (data (k (t @ [send, recv])))
   in snd (run_state (setAddress k a nm i) t) =
        t @ (if ret (k (t @ [send])) = -1 then [send] else [send, recv]) \<and>
      (fst (run_state (setAddress k a nm i) t) = Success \<longleftrightarrow>
        ret (k (t @ [send])) \<noteq> -1 \<and> 0 \<le> ret (k (t @ [send, recv])) \<and> acknowledges response)"
  by (auto simp: setAddress_def address_response_def acknowledges_def Let_def
      NLMSG_HDRLEN_def sizeof_nlmsgerr_def)

text \<open>
  \<open>bringUp\<close> and \<open>bringDown\<close> ask for the flags and set them only when the up flag is
  not yet as wanted: the request then has the flag as wanted and every other bit as the system
  reported it.
\<close>

theorem set_interface_up_toggles_only_up:
  assumes "get = Ioctl (ifSocketFd i) SIOCGIFFLAGS (createRequest i)"
    and "ret (k (t @ [get])) = 0"
    and "reported = overlay (data (k (t @ [get]))) (createRequest i)"
  shows "\<exists>request. snd (run_state (setInterfaceUp k up i) t) =
      t @ get # (if bit (reported ! 16) 0 = up then []
                 else [Ioctl (ifSocketFd i) SIOCSIFFLAGS request]) \<and>
    bit (request ! 16) 0 = up \<and> drop_bit 1 (request ! 16) = drop_bit 1 (reported ! 16) \<and>
    take 16 request = take 16 reported \<and> drop 17 request = drop 17 reported"
proof -
  let ?w = "reported ! 16"
  have isUp: "?w AND 1 \<noteq> 0 \<longleftrightarrow> bit ?w 0"
    by (simp add: and_one_eq odd_iff_mod_2_eq_one bit_0)
  define new where "new = (if bit ?w 0 = up then ?w else ?w XOR 1)"
  have n: "bit new 0 = up" "drop_bit 1 new = drop_bit 1 ?w"
    by (auto simp: new_def bit_simps intro!: bit_word_eqI)
  have len: "16 < length reported"
    by (simp add: assms(3) createRequest_def sizeof_ifreq_def IFNAMSIZ_def Let_def)
  let ?r = "reported[16 := new]"
  have "snd (run_state (setInterfaceUp k up i) t) =
      t @ get # (if bit ?w 0 = up then [] else [Ioctl (ifSocketFd i) SIOCSIFFLAGS ?r])"
    using assms(2) isUp
    by (auto simp: setInterfaceUp_def new_def Let_def simp flip: assms(1) assms(3))
  moreover have "?r ! 16 = new" "take 16 ?r = take 16 reported" "drop 17 ?r = drop 17 reported"
    using len by simp_all
  ultimately show ?thesis using n by metis
qed

theorem set_interface_up_toggles_only_up_witness:
  "\<exists>request. snd (run_state (bringUp (\<lambda>t. idle_answer) (Interface_new 2 [2, 0, 0, 0, 0, 1])) []) =
     [Ioctl (-1) SIOCGIFFLAGS (replicate 40 0), Ioctl (-1) SIOCSIFFLAGS request]"
  using set_interface_up_toggles_only_up [where k = "\<lambda>t. idle_answer" and t = "[]"
      and i = "Interface_new 2 [2, 0, 0, 0, 0, 1]" and up = True, OF refl _ refl]
  by (auto simp: bringUp_def idle_answer_def Interface_new_def createRequest_def cstr_def
      overlay_def sizeof_ifreq_def IFNAMSIZ_def)

end
