(* ===== verification/Text.thy ===== *)
theory Text
  imports Prelude
begin

text \<open>
  Numbers and addresses as text, the way the C library prints them: \<open>%d\<close>, \<open>%x\<close>, and
  \<open>inet_ntop\<close> for both address families; and strings as bytes.
\<close>

fun decimal :: "nat \<Rightarrow> string" where
  "decimal n = (if n < 10 then [char_of (48 + n)]
                else decimal (n div 10) @ [char_of (48 + n mod 10)])"

declare decimal.simps [simp del]

definition isdigit :: "char \<Rightarrow> bool" where
  "isdigit c = (48 \<le> (of_char c :: nat) \<and> of_char c \<le> (57 :: nat))"

lemma isdigit_char: "n < 10 \<Longrightarrow> isdigit (char_of (48 + n :: nat))"
  by (simp add: isdigit_def)

lemma decimal_digits: "list_all isdigit (decimal n)"
proof (induction n rule: decimal.induct)
  case (1 n)
  then show ?case by (subst decimal.simps) (auto simp: isdigit_char)
qed

lemma decimal_not_empty [simp]: "decimal n \<noteq> ''''"
  by (subst decimal.simps) simp

section \<open>Strings as bytes\<close>

definition string_bytes :: "string \<Rightarrow> bytes" where
  "string_bytes s = map of_char s"

definition bytes_string :: "bytes \<Rightarrow> string" where
  "bytes_string bs = map (\<lambda>b. char_of (unat b)) bs"

lemma length_string_bytes [simp]: "length (string_bytes s) = length s"
  by (simp add: string_bytes_def)

lemma unat_of_char: "unat (of_char c :: u8) = of_char c"
proof -
  have "(of_char c :: nat) < 256" by (metis of_char_mod_256 mod_less_divisor zero_less_numeral)
  then have "unat (of_nat (of_char c) :: u8) = of_char c" by (simp only: unat_of_nat) simp
  then show ?thesis by (simp only: of_nat_of_char)
qed

lemma bytes_string_bytes [simp]: "bytes_string (string_bytes s) = s"
  by (simp add: bytes_string_def string_bytes_def unat_of_char comp_def)

section \<open>Reading numbers\<close>

definition isspace :: "char \<Rightarrow> bool" where
  "isspace c = ((of_char c :: nat) = 32 \<or> 9 \<le> (of_char c :: nat) \<and> of_char c \<le> (13 :: nat))"

definition lower :: "char \<Rightarrow> char" where
  "lower c = (if 65 \<le> (of_char c :: nat) \<and> of_char c \<le> (90 :: nat) then char_of (of_char c + 32 :: nat) else c)"

definition digit_value :: "nat \<Rightarrow> char \<Rightarrow> nat option" where
  "digit_value base c =
     (let n = of_char (lower c) :: nat
      in if isdigit c then Some (n - 48)
         else if base = 16 \<and> 97 \<le> n \<and> n \<le> 102 then Some (n - 87) else None)"

definition digits_value :: "nat \<Rightarrow> string \<Rightarrow> nat" where
  "digits_value base s = fold (\<lambda>c v. base * v + the (digit_value base c)) s 0"

text \<open>A number in decimal is read back.\<close>

lemma digits_value_append: "digits_value base (s @ [c]) = base * digits_value base s + the (digit_value base c)"
  by (simp add: digits_value_def)

lemma digit_value_decimal: "m < 10 \<Longrightarrow> digit_value 10 (char_of (48 + m :: nat)) = Some m"
  by (simp add: digit_value_def isdigit_def lower_def)

lemma digits_value_decimal: "digits_value 10 (decimal n) = n"
proof (induction n rule: decimal.induct)
  case (1 n)
  show ?case
  proof (cases "n < 10")
    case False
    then have "decimal n = decimal (n div 10) @ [char_of (48 + n mod 10)]" by (subst decimal.simps) simp
    then show ?thesis using 1 [OF False] by (simp add: digits_value_append digit_value_decimal)
  qed (simp add: digits_value_def digit_value_decimal decimal.simps)
qed

section \<open>Hexadecimal, and addresses\<close>

definition hex_digit :: "nat \<Rightarrow> char" where
  "hex_digit n = (if n < 10 then char_of (48 + n) else char_of (87 + n))"

fun hexadecimal :: "nat \<Rightarrow> string" where
  "hexadecimal n = (if n < 16 then [hex_digit n]
                    else hexadecimal (n div 16) @ [hex_digit (n mod 16)])"

declare hexadecimal.simps [simp del]

text \<open>Dotted decimal, first byte first.\<close>

definition inet_ntop4 :: "bytes \<Rightarrow> string" where
  "inet_ntop4 bs =
     (case map (\<lambda>b. decimal (unat b)) bs of
        [a, b, c, d] \<Rightarrow> a @ ''.'' @ b @ ''.'' @ c @ ''.'' @ d
      | _ \<Rightarrow> '''')"

text \<open>
  IPv6: eight groups of sixteen bits in hexadecimal, the first longest run of at least two zero
  groups replaced by two colons, the last four bytes in dotted decimal when the address embeds an
  IPv4 address.  The result is an error (\<open>None\<close>) when it does not fit into the caller's buffer.
\<close>

fun groups16 :: "bytes \<Rightarrow> nat list" where
  "groups16 (a # b # bs) = (256 * unat a + unat b) # groups16 bs"
| "groups16 _ = []"

definition zero_run :: "nat list \<Rightarrow> nat \<Rightarrow> nat" where
  "zero_run ws i = length (takeWhile (\<lambda>w. w = 0) (drop i ws))"

definition best_run :: "nat list \<Rightarrow> nat \<times> nat" where
  "best_run ws =
     fold (\<lambda>i (b, l). if zero_run ws i > l then (i, zero_run ws i) else (b, l)) [0..<length ws] (0, 1)"

definition format6 :: "bytes \<Rightarrow> string" where
  "format6 bs =
     (let ws = groups16 bs; (b, l) = best_run ws;
          compressed = (\<lambda>i. 2 \<le> l \<and> b \<le> i \<and> i < b + l);
          embeds = (b = 0 \<and> (l = 6 \<or> l = 5 \<and> ws ! 5 = 0xFFFF));
          group = (\<lambda>i. if compressed i then (if i = b then '':'' else '''')
                       else (if i = 0 then '''' else '':'') @
                            (if embeds \<and> i = 6 then inet_ntop4 (drop 12 bs)
                             else hexadecimal (ws ! i)))
      in concat (map group [0..<(if embeds then 7 else 8)]) @
         (if 2 \<le> l \<and> b + l = 8 then '':'' else ''''))"

definition inet_ntop6 :: "bytes \<Rightarrow> nat \<Rightarrow> string option" where
  "inet_ntop6 bs room = (let s = format6 bs in if length s < room then Some s else None)"

definition INET6_ADDRSTRLEN :: nat where "INET6_ADDRSTRLEN = 46"

lemma inet_ntop6_examples:
  "format6 [0x20, 1, 0x0D, 0xB8, 0, 0, 0, 0, 0, 0, 0, 0, 0, 0, 0, 1] = ''2001:db8::1''"
  "format6 [0xFE, 0x80, 0, 0, 0, 0, 0, 0, 0, 0, 0, 0, 0, 0, 0, 0] = ''fe80::''"
  "format6 [0, 0, 0, 0, 0, 0, 0, 0, 0, 0, 0xFF, 0xFF, 10, 0, 2, 15] = ''::ffff:10.0.2.15''"
  "format6 [0x20, 1, 0, 0, 0, 0, 0, 1, 0, 0, 0, 0, 0, 0, 0, 1] = ''2001:0:0:1::1''"
  by (simp_all add: format6_def best_run_def zero_run_def upt_rec hexadecimal.simps decimal.simps
      hex_digit_def inet_ntop4_def) code_simp+

text \<open>Every address fits into the buffer of \<open>INET6_ADDRSTRLEN\<close> bytes.\<close>

lemma length_decimal_le: "n < 10 ^ Suc k \<Longrightarrow> length (decimal n) \<le> Suc k"
proof (induction k arbitrary: n)
  case (Suc k)
  show ?case
  proof (cases "n < 10")
    case False
    then have "length (decimal n) = Suc (length (decimal (n div 10)))" by (subst decimal.simps) simp
    also have "\<dots> \<le> Suc (Suc k)" using Suc.IH [of "n div 10"] Suc.prems by simp
    finally show ?thesis .
  qed (simp add: decimal.simps)
qed (simp add: decimal.simps)

lemma length_decimal: "n < 256 \<Longrightarrow> length (decimal n) \<le> 3"
  using length_decimal_le [of n 2] by (simp add: eval_nat_numeral)

lemma length_hexadecimal: "n < 65536 \<Longrightarrow> length (hexadecimal n) \<le> 4"
proof -
  have 1: "length (hexadecimal n) = 1" if "n < 16" for n
    using that by (subst hexadecimal.simps) simp
  have 2: "length (hexadecimal n) \<le> 2" if "n < 256" for n
    using that 1 [of "n div 16"] 1 [of n] by (subst hexadecimal.simps) simp
  have 3: "length (hexadecimal n) \<le> 3" if "n < 4096" for n
    using that 2 [of "n div 16"] by (subst hexadecimal.simps) simp
  show "n < 65536 \<Longrightarrow> length (hexadecimal n) \<le> 4"
    using 3 [of "n div 16"] by (subst hexadecimal.simps) simp
qed

lemma length_inet_ntop4: "length (inet_ntop4 bs) \<le> 15"
proof (cases "length bs = 4")
  case True
  then obtain a b c d where bs: "bs = [a, b, c, d]"
    by (auto simp: eval_nat_numeral length_Suc_conv)
  have "length (decimal (unat x)) \<le> 3" for x :: u8
    using unsigned_less [of x, where 'a = nat] by (intro length_decimal) simp
  from this [of a] this [of b] this [of c] this [of d] show ?thesis
    by (simp add: inet_ntop4_def bs)
next
  case False
  then show ?thesis
    by (auto simp: inet_ntop4_def length_Suc_conv split: list.split)
qed

lemma groups16_bound: "w \<in> set (groups16 bs) \<Longrightarrow> w < 65536"
proof (induction bs rule: groups16.induct)
  case (1 a b bs)
  then show ?case
    using unsigned_less [of a, where 'a = nat] unsigned_less [of b, where 'a = nat] by auto
qed auto

lemma length_concat_le: "(\<And>x. x \<in> set xs \<Longrightarrow> length (f x) \<le> n) \<Longrightarrow> length (concat (map f xs)) \<le> n * length xs"
  by (induction xs) (auto simp: add_mono)

lemma length_append_colon:
  "length s \<le> n \<Longrightarrow> t = s @ (if c then '':'' else '''') \<Longrightarrow> length t \<le> n + 1"
  by simp

lemma length_format6:
  assumes "length bs = 16"
  shows "length (format6 bs) < INET6_ADDRSTRLEN"
proof -
  obtain b l where bl: "best_run (groups16 bs) = (b, l)" by force
  have "length (groups16 bs) = length bs div 2" for bs
    by (induction bs rule: groups16.induct) auto
  then have hex: "length (hexadecimal (groups16 bs ! i)) \<le> 4" if "i < 8" for i
    using that assms groups16_bound [of "groups16 bs ! i" bs]
    by (intro length_hexadecimal) simp
  show ?thesis
  proof (cases "b = 0 \<and> (l = 6 \<or> l = 5 \<and> groups16 bs ! 5 = 0xFFFF)")
    case True
    then show ?thesis
      using hex [of "Suc (Suc (Suc (Suc (Suc 0))))"] length_inet_ntop4 [of "drop 12 bs"]
      by (auto simp: format6_def bl INET6_ADDRSTRLEN_def upt_rec)
  next
    case False
    let ?c = "\<lambda>i. 2 \<le> l \<and> b \<le> i \<and> i < b + l"
    let ?g = "\<lambda>i. if ?c i then (if i = b then '':'' else '''')
      else (if i = 0 then '''' else '':'') @ hexadecimal (groups16 bs ! i)"
    have "length (concat (map ?g [0..<8])) \<le> 5 * length [0..<8]"
      by (intro length_concat_le) (use hex in \<open>auto simp: le_SucI intro: le_trans [OF hex]\<close>)
    moreover have "format6 bs = concat (map ?g [0..<8]) @ (if 2 \<le> l \<and> b + l = 8 then '':'' else '''')"
      using False by (auto simp: format6_def bl cong: if_cong)
    ultimately have "length (format6 bs) \<le> 5 * length [0..<8] + 1"
      by (rule length_append_colon)
    then show ?thesis by (simp add: INET6_ADDRSTRLEN_def)
  qed
qed

lemma inet_ntop6_total:
  "length bs = 16 \<Longrightarrow> inet_ntop6 bs INET6_ADDRSTRLEN = Some (format6 bs)"
  by (simp add: inet_ntop6_def length_format6)

end
