(* ===== verification/Client.thy ===== *)
theory Client
  imports DhcpSocket Interface Text
begin

text \<open>
  The DHCP client (\<open>wifi/dhcp/client/dhcpclient.cpp\<close>, \<open>timer.cpp\<close>, \<open>main.cpp\<close>).
  \<open>run\<close> and the poll loop inside it never end, so the client is a machine: a control point
  (about to evaluate the state, or polling with some milliseconds left) and the object's fields;
  \<open>client_step\<close> is one evaluation of the \<open>switch\<close>, or one turn of the poll loop.
\<close>

section \<open>Constants and state\<close>

definition kInitialTimeout :: u32 where "kInitialTimeout = 4000"
definition kMaxTimeout :: u32 where "kMaxTimeout = 64000"
definition kNoTimeout :: u32 where "kNoTimeout = 0"
definition kTimeoutSpan :: int where "kTimeoutSpan = 1000"
definition ClientOption_NoGateway :: u32 where "ClientOption_NoGateway = 1"
definition INADDR_ANY :: u32 where "INADDR_ANY = 0"
definition INADDR_BROADCAST :: u32 where "INADDR_BROADCAST = 0xFFFFFFFF"

lemmas client_consts = kInitialTimeout_def kMaxTimeout_def kNoTimeout_def

datatype client_state = Init | Selecting | Requesting | Bound | Renewing | Rebinding

record dhcp_info =
  t1 :: u32
  t2 :: u32
  leaseTime :: u32
  mtu :: u16
  dns :: "u32 list"
  gateway :: u32
  subnetMask :: u32
  info_serverId :: u32
  offeredAddress :: u32

definition zero_info :: dhcp_info where
  "zero_info = \<lparr>t1 = 0, t2 = 0, leaseTime = 0, mtu = 0, dns = [0, 0, 0, 0], gateway = 0,
     subnetMask = 0, info_serverId = 0, offeredAddress = 0\<rparr>"

text \<open>\<open>nextXid\<close> is the static counter of the message class, \<open>calls\<close> the trace.\<close>

record client =
  mOptions :: u32
  mDhcpInfo :: dhcp_info
  mRouter :: router
  mInterface :: interface
  mLastMsg :: message
  mT1 :: u64
  mT2 :: u64
  mSocket :: socket
  mState :: client_state
  mNextTimeout :: u32
  mFuzzNextTimeout :: bool
  mRequestAddress :: u32
  mServerAddress :: u32
  nextXid :: u32
  calls :: trace

definition io :: "(trace, 'a) state \<Rightarrow> (client, 'a) state" where
  "io m = State (\<lambda>c. case run_state m (calls c) of (x, t) \<Rightarrow> (x, c\<lparr>calls := t\<rparr>))"

lemma run_io [simp]:
  "run_state (io m) c = (case run_state m (calls c) of (x, t) \<Rightarrow> (x, c\<lparr>calls := t\<rparr>))"
  by (simp add: io_def)

definition modify :: "(client \<Rightarrow> client) \<Rightarrow> (client, unit) state" where
  "modify f = State (\<lambda>c. ((), f c))"

lemma run_modify [simp]: "run_state (modify f) c = ((), f c)"
  by (simp add: modify_def)

text \<open>
  The constructor; what it does not initialise (the DHCP info and the two addresses) is what the
  memory \<open>g\<close> held.
\<close>

definition DhcpClient_new :: "u32 \<Rightarrow> client \<Rightarrow> client" where
  "DhcpClient_new opts g =
     g\<lparr>mOptions := opts, mRouter := Router_new,
       mInterface := Interface_new (mIndex (mInterface g)) (mMacAddress (mInterface g)),
       mLastMsg := Message_empty, mT1 := 0, mT2 := 0, mSocket := Socket_new,
       mState := Init, mNextTimeout := kInitialTimeout, mFuzzNextTimeout := True\<rparr>"

section \<open>Timers\<close>

definition expireSeconds :: "kernel \<Rightarrow> u64 \<Rightarrow> (trace, u64) state" where
  "expireSeconds k seconds = do {
     current \<leftarrow> now k;
     State_Monad.return (current + seconds * 1000)
   }"

definition expired :: "kernel \<Rightarrow> u64 \<Rightarrow> (trace, bool) state" where
  "expired k mExpires = do {
     current \<leftarrow> now k;
     State_Monad.return (current \<ge> mExpires)
   }"

definition remainingMillis :: "kernel \<Rightarrow> u64 \<Rightarrow> (trace, u64) state" where
  "remainingMillis k mExpires = do {
     current \<leftarrow> now k;
     State_Monad.return (if current > mExpires then 0 else mExpires - current)
   }"

section \<open>Timeouts and state changes\<close>

definition setNextState :: "client_state \<Rightarrow> client \<Rightarrow> client" where
  "setNextState state c =
     c\<lparr>mState := state, mNextTimeout := kNoTimeout, mFuzzNextTimeout := True\<rparr>"

definition next_timeout :: "u32 \<Rightarrow> u32" where
  "next_timeout t =
     (if t = kNoTimeout then kInitialTimeout
      else let t = if t < kMaxTimeout then t * 2 else t
           in if t > kMaxTimeout then kMaxTimeout else t)"

definition increaseTimeout :: "client \<Rightarrow> client" where
  "increaseTimeout c = c\<lparr>mNextTimeout := next_timeout (mNextTimeout c)\<rparr>"

definition calculateTimeoutMillis :: "kernel \<Rightarrow> client \<Rightarrow> (trace, u32) state" where
  "calculateTimeoutMillis k c =
     (if \<not> mFuzzNextTimeout c then State_Monad.return (mNextTimeout c)
      else do {
        a \<leftarrow> sys k (RandomInt (- kTimeoutSpan) kTimeoutSpan);
        let adjustment = ret a;
        State_Monad.return
          (if adjustment < 0 \<and> of_int (- adjustment) > mNextTimeout c then 0
           else mNextTimeout c + of_int adjustment)
      })"

section \<open>Sending\<close>

definition client_sendMessage :: "kernel \<Rightarrow> message \<Rightarrow> client \<Rightarrow> (trace, unit) state" where
  "client_sendMessage k message c = do {
     res \<leftarrow> sendRawUdp k INADDR_ANY PORT_BOOTP_CLIENT INADDR_BROADCAST PORT_BOOTP_SERVER
              (mIndex (mInterface c)) message (mSocket c);
     State_Monad.return ()
   }"

definition sendDhcpRequest :: "kernel \<Rightarrow> u32 \<Rightarrow> (client, unit) state" where
  "sendDhcpRequest k destination = do {
     c \<leftarrow> State_Monad.get;
     let (msg, xid') = request (mMacAddress (mInterface c)) (mRequestAddress c) destination (nextXid c);
     modify (\<lambda>c. c\<lparr>mLastMsg := msg, nextXid := xid'\<rparr>);
     io (client_sendMessage k msg c)
   }"

definition sendDhcpDiscover :: "kernel \<Rightarrow> (client, unit) state" where
  "sendDhcpDiscover k = do {
     c \<leftarrow> State_Monad.get;
     let (msg, xid') = discover (mMacAddress (mInterface c)) (nextXid c);
     modify (\<lambda>c. c\<lparr>mLastMsg := msg, nextXid := xid'\<rparr>);
     io (client_sendMessage k msg c)
   }"

section \<open>Receiving\<close>

definition receiveDhcpMessage :: "kernel \<Rightarrow> client \<Rightarrow> (trace, bool \<times> message) state" where
  "receiveDhcpMessage k c = do {
     (res, msg, isValid) \<leftarrow> receiveRawUdp k PORT_BOOTP_CLIENT Message_empty False (mSocket c);
     State_Monad.return
       (isSuccess res \<and> isValid \<and>
        isValidDhcpMessageXid msg OP_BOOTREPLY (xid (dhcp (mLastMsg c))), msg)
   }"

section \<open>Configuration\<close>

text \<open>The \<open>switch\<close> over one option, whose value starts at byte \<open>opt\<close> of the memory.\<close>

definition apply_option :: "mem \<Rightarrow> u8 \<Rightarrow> u8 \<Rightarrow> nat \<Rightarrow> dhcp_info \<Rightarrow> dhcp_info" where
  "apply_option d optCode optLength opt info =
     (if optCode = OPT_LEASE_TIME then
        (if optLength = 4 then info\<lparr>leaseTime := ntohl (load32 d opt)\<rparr> else info)
      else if optCode = OPT_T1 then
        (if optLength = 4 then info\<lparr>t1 := ntohl (load32 d opt)\<rparr> else info)
      else if optCode = OPT_T2 then
        (if optLength = 4 then info\<lparr>t2 := ntohl (load32 d opt)\<rparr> else info)
      else if optCode = OPT_SUBNET_MASK then
        (if optLength = 4 then info\<lparr>subnetMask := load32 d opt\<rparr> else info)
      else if optCode = OPT_GATEWAY then
        (if optLength \<ge> 4 then info\<lparr>gateway := load32 d opt\<rparr> else info)
      else if optCode = OPT_MTU then
        (if optLength = 2 then info\<lparr>mtu := ntohs (load16 d opt)\<rparr> else info)
      else if optCode = OPT_DNS then
        (let ds = dns info;
             ds = if optLength \<ge> 4 then ds[0 := load32 d opt] else ds;
             ds = if optLength \<ge> 8 then ds[1 := load32 d (opt + 4)] else ds;
             ds = if optLength \<ge> 12 then ds[2 := load32 d (opt + 8)] else ds;
             ds = if optLength \<ge> 16 then ds[3 := load32 d (opt + 12)] else ds
         in info\<lparr>dns := ds\<rparr>)
      else if optCode = OPT_SERVER_ID then
        (if optLength = 4 then info\<lparr>info_serverId := load32 d opt\<rparr> else info)
      else info)"

text \<open>The loop; \<open>False\<close> is its early return on an option that does not fit.\<close>

function options_loop :: "message \<Rightarrow> nat \<Rightarrow> dhcp_info \<Rightarrow> bool \<times> dhcp_info" where
  "options_loop msg i info =
     (if i + 1 < optionsSize msg then
        let optCode = options (dhcp msg) i; optLength = options (dhcp msg) (i + 1)
        in if optCode = OPT_END then (True, info)
           else if offset_options + unat optLength + i \<ge> mSize msg then (False, info)
           else options_loop msg (i + 2 + unat optLength)
                  (apply_option (dhcpData msg) optCode optLength (offset_options + i + 2) info)
      else (True, info))"
  by pat_completeness auto
termination
  by (relation "measure (\<lambda>(m, i, info). optionsSize m - i)") auto

declare options_loop.simps [simp del]

definition addrToStr :: "u32 \<Rightarrow> string" where
  "addrToStr address = inet_ntop4 (bytes32 address)"

text \<open>\<open>snprintf\<close> into the 64 bytes of \<open>propName\<close>.\<close>

definition gw_prop :: "string \<Rightarrow> string" where
  "gw_prop name = take 63 (''vendor.net.'' @ name @ ''.gw'')"

definition dns_prop :: "string \<Rightarrow> nat \<Rightarrow> string" where
  "dns_prop name i = take 63 (''vendor.net.'' @ name @ ''.dns'' @ decimal (i + 1))"

fun set_dns_props :: "kernel \<Rightarrow> string \<Rightarrow> nat \<Rightarrow> u32 list \<Rightarrow> (trace, unit) state" where
  "set_dns_props k name i [] = State_Monad.return ()"
| "set_dns_props k name i (d # ds) = do {
     _ \<leftarrow> sys k (PropertySet (dns_prop name i) (if d \<noteq> 0 then addrToStr d else ''''));
     set_dns_props k name (i + 1) ds
   }"

text \<open>The part of \<open>configureDhcp\<close> that acts on the system, with what it returns.\<close>

definition apply_config :: "kernel \<Rightarrow> client \<Rightarrow> (trace, bool) state" where
  "apply_config k c = do {
     res \<leftarrow> bringUp k (mInterface c);
     if \<not> isSuccess res then State_Monad.return False
     else do {
       _ \<leftarrow> (if mtu (mDhcpInfo c) \<noteq> 0 then setMtu k (mtu (mDhcpInfo c)) (mInterface c)
            else State_Monad.return Success);
       let name = mInterfaceName (mInterface c);
       _ \<leftarrow> sys k (PropertySet (gw_prop name) (addrToStr (gateway (mDhcpInfo c))));
       set_dns_props k name 0 (dns (mDhcpInfo c));
       res \<leftarrow> setAddress k (offeredAddress (mDhcpInfo c)) (subnetMask (mDhcpInfo c)) (mInterface c);
       if \<not> isSuccess res then State_Monad.return False
       else if mOptions c AND ClientOption_NoGateway = 0
       then do {
         res \<leftarrow> setDefaultGateway k (gateway (mDhcpInfo c)) (mIndex (mInterface c)) (mRouter c);
         State_Monad.return (isSuccess res)
       }
       else State_Monad.return True
     }
   }"

text \<open>The renewal times, the defaults in the 32 bit arithmetic of the code.\<close>

definition t1_seconds :: "dhcp_info \<Rightarrow> u32" where
  "t1_seconds info = (if t1 info > 0 then t1 info else leaseTime info div 2)"

definition t2_seconds :: "dhcp_info \<Rightarrow> u32" where
  "t2_seconds info = (if t2 info > 0 then t2 info else (leaseTime info * 7) div 8)"

definition configureDhcp :: "kernel \<Rightarrow> message \<Rightarrow> (client, bool) state" where
  "configureDhcp k msg =
     (if optionsSize msg < 4 then State_Monad.return False
      else do {
        let (ok, info) = options_loop msg 4 zero_info;
        modify (\<lambda>c. c\<lparr>mDhcpInfo := info\<rparr>);
        if \<not> ok then State_Monad.return False
        else do {
          let info = info\<lparr>offeredAddress := yiaddr (dhcp msg)\<rparr>;
          modify (\<lambda>c. c\<lparr>mDhcpInfo := info\<rparr>);
          if leaseTime info = 0 then State_Monad.return False
          else do {
            e1 \<leftarrow> io (expireSeconds k (ucast (t1_seconds info)));
            modify (\<lambda>c. c\<lparr>mT1 := e1\<rparr>);
            e2 \<leftarrow> io (expireSeconds k (ucast (t2_seconds info)));
            modify (\<lambda>c. c\<lparr>mT2 := e2\<rparr>);
            c \<leftarrow> State_Monad.get;
            io (apply_config k c)
          }
        }
      })"

definition haltNetwork :: "kernel \<Rightarrow> client \<Rightarrow> (trace, unit) state" where
  "haltNetwork k c = do {
     _ \<leftarrow> setAddress k 0 0 (mInterface c);
     _ \<leftarrow> bringDown k (mInterface c);
     State_Monad.return ()
   }"

section \<open>The state machine\<close>

text \<open>The \<open>switch\<close> of \<open>run\<close>.\<close>

definition evaluate :: "kernel \<Rightarrow> (client, unit) state" where
  "evaluate k = do {
     c \<leftarrow> State_Monad.get;
     (case mState c of
        Init \<Rightarrow> modify (setNextState Selecting)
      | Selecting \<Rightarrow> do { sendDhcpDiscover k; modify increaseTimeout }
      | Requesting \<Rightarrow>
          if mNextTimeout c \<ge> kMaxTimeout then modify (setNextState Init)
          else do { sendDhcpRequest k (mServerAddress c); modify increaseTimeout }
      | Bound \<Rightarrow> do {
          e \<leftarrow> io (expired k (mT1 c));
          if e then modify (setNextState Renewing)
          else do {
            remaining \<leftarrow> io (remainingMillis k (mT1 c));
            modify (\<lambda>c. c\<lparr>mNextTimeout := ucast remaining, mFuzzNextTimeout := False\<rparr>)
          }
        }
      | Renewing \<Rightarrow> do {
          e \<leftarrow> io (expired k (mT2 c));
          if e then modify (setNextState Rebinding)
          else do { sendDhcpRequest k (mServerAddress c); modify increaseTimeout }
        }
      | Rebinding \<Rightarrow>
          if mNextTimeout c \<ge> kMaxTimeout then modify (setNextState Init)
          else do { sendDhcpRequest k INADDR_BROADCAST; modify increaseTimeout })
   }"

text \<open>
  The \<open>switch\<close> of \<open>waitAndReceive\<close> over a received message; \<open>True\<close> is its
  \<open>return\<close>.
\<close>

definition handle_message :: "kernel \<Rightarrow> message \<Rightarrow> (client, bool) state" where
  "handle_message k msg = do {
     c \<leftarrow> State_Monad.get;
     let msgType = message_type msg;
     (case mState c of
        Selecting \<Rightarrow>
          if msgType = DHCPOFFER
          then do {
            modify (\<lambda>c. c\<lparr>mServerAddress := serverId msg, mRequestAddress := yiaddr (dhcp msg)\<rparr>);
            modify (setNextState Requesting);
            State_Monad.return True
          }
          else State_Monad.return False
      | Init \<Rightarrow> State_Monad.return False
      | Bound \<Rightarrow> State_Monad.return False
      | _ \<Rightarrow>
          if msgType = DHCPACK
          then do {
            ok \<leftarrow> configureDhcp k msg;
            if ok then do { modify (setNextState Bound); State_Monad.return True }
            else State_Monad.return False
          }
          else if msgType = DHCPNAK
          then do {
            io (haltNetwork k c);
            modify (setNextState Init);
            State_Monad.return True
          }
          else State_Monad.return False)
   }"

datatype pc = Evaluate | Polling u32

text \<open>The head of \<open>waitAndReceive\<close>, and one turn of its loop.\<close>

definition begin_wait :: "kernel \<Rightarrow> (client, pc) state" where
  "begin_wait k = do {
     c \<leftarrow> State_Monad.get;
     if mNextTimeout c = kNoTimeout then State_Monad.return Evaluate
     else do {
       timeout \<leftarrow> io (calculateTimeoutMillis k c);
       State_Monad.return (Polling timeout)
     }
   }"

definition poll_turn :: "kernel \<Rightarrow> u32 \<Rightarrow> (client, pc) state" where
  "poll_turn k timeout = do {
     startedAt \<leftarrow> io (now k);
     c \<leftarrow> State_Monad.get;
     res \<leftarrow> io (sys k (Ppoll (mSocketFd (mSocket c)) timeout));
     if ret res = 0 then State_Monad.return Evaluate
     else do {
       returned \<leftarrow>
         (if ret res > 0
          then do {
            (ok, msg) \<leftarrow> io (receiveDhcpMessage k c);
            if ok then handle_message k msg else State_Monad.return False
          }
          else State_Monad.return False);
       if returned then State_Monad.return Evaluate
       else do {
         currentTime \<leftarrow> io (now k);
         let end_time = startedAt + ucast timeout;
         State_Monad.return
           (if currentTime \<ge> end_time then Evaluate else Polling (ucast (end_time - currentTime)))
       }
     }
   }"

fun client_step :: "kernel \<Rightarrow> pc \<Rightarrow> (client, pc) state" where
  "client_step k Evaluate = do { evaluate k; begin_wait k }"
| "client_step k (Polling timeout) = poll_turn k timeout"

section \<open>Start\<close>

definition SOCK_DGRAM :: int where "SOCK_DGRAM = 2"
definition PF_PACKET :: int where "PF_PACKET = 17"

definition client_init :: "kernel \<Rightarrow> string \<Rightarrow> (client, result) state" where
  "client_init k interfaceName = do {
     c \<leftarrow> State_Monad.get;
     (res, i) \<leftarrow> io (Interface_init k interfaceName (mInterface c));
     modify (\<lambda>c. c\<lparr>mInterface := i\<rparr>);
     if \<not> isSuccess res then State_Monad.return res
     else do {
       (res, r) \<leftarrow> io (Router_init k (mRouter c));
       modify (\<lambda>c. c\<lparr>mRouter := r\<rparr>);
       if \<not> isSuccess res then State_Monad.return res
       else do {
         (res, s) \<leftarrow> io (Socket_open k PF_PACKET SOCK_DGRAM (uint (htons ETH_P_IP)) (mSocket c));
         modify (\<lambda>c. c\<lparr>mSocket := s\<rparr>);
         if \<not> isSuccess res then State_Monad.return res
         else io (Socket_bindRaw k (mIndex i) s)
       }
     }
   }"

text \<open>
  The argument loop of \<open>main\<close>, after the program's name: the interface and the options so
  far, \<open>None\<close> for the exits with status 1.
\<close>

fun client_args :: "string list \<Rightarrow> string option \<Rightarrow> u32 \<Rightarrow> (string option \<times> u32) option" where
  "client_args [] interfaceName opts = Some (interfaceName, opts)"
| "client_args (arg # args) interfaceName opts =
     (if arg = ''-i'' then
        (case args of [] \<Rightarrow> None | name # args \<Rightarrow> client_args args (Some name) opts)
      else if arg = ''--no-gateway'' then
        client_args args interfaceName (opts OR ClientOption_NoGateway)
      else None)"

text \<open>What \<open>run\<close> does before its loop: of the signal calls only \<open>sigprocmask\<close> enters the kernel.\<close>

definition client_run_start :: "kernel \<Rightarrow> (client, result) state" where
  "client_run_start k = do {
     status \<leftarrow> io (sys k SigSetMask);
     State_Monad.return
       (if ret status \<noteq> 0 then Error ''Unable to set signal mask: '' (Some (err status)) else Success)
   }"

text \<open>\<open>main\<close> up to the loop of \<open>run\<close>: the exit status, or the client that runs.\<close>

definition client_main :: "kernel \<Rightarrow> string list \<Rightarrow> client \<Rightarrow> int + client" where
  "client_main k argv g =
     (if length argv < 3 then Inl 1
      else case client_args (tl argv) None 0 of
        Some (Some interfaceName, opts) \<Rightarrow>
          (case run_state (client_init k interfaceName) (DhcpClient_new opts g) of
             (res, c) \<Rightarrow>
               if \<not> isSuccess res then Inl 1
               else (case run_state (client_run_start k) c of
                       (res, c) \<Rightarrow> if isSuccess res then Inr c else Inl 1))
      | _ \<Rightarrow> Inl 1)"

text \<open>The states of the running client: \<open>client_next\<close> is one step of it.\<close>

definition client_next :: "kernel \<Rightarrow> pc \<times> client \<Rightarrow> pc \<times> client \<Rightarrow> bool" where
  "client_next k s s' \<longleftrightarrow> run_state (client_step k (fst s)) (snd s) = s'"

definition client_reaches :: "kernel \<Rightarrow> client \<Rightarrow> pc \<Rightarrow> client \<Rightarrow> bool" where
  "client_reaches k c0 p c \<longleftrightarrow> (client_next k)\<^sup>*\<^sup>* (Evaluate, c0) (p, c)"

text \<open>The first \<open>n\<close> steps of \<open>run\<close>.\<close>

fun client_run :: "kernel \<Rightarrow> nat \<Rightarrow> pc \<times> client \<Rightarrow> pc \<times> client" where
  "client_run k 0 s = s"
| "client_run k (Suc n) s = client_run k n (run_state (client_step k (fst s)) (snd s))"

end
