(* ===== verification/ClientProps.thy ===== *)
theory ClientProps
  imports Client
begin

text \<open>
  The properties of the DHCP client: what it reads from a server's reply, how it moves through its
  states, how it spaces its requests, and what a lease does to its timers.
\<close>

section \<open>Parsing a reply's options\<close>

text \<open>What an option with its value does to the info, free of where the value lies.\<close>

definition tlv_effect :: "tlv \<Rightarrow> dhcp_info \<Rightarrow> dhcp_info" where
  "tlv_effect t = apply_option (store (\<lambda>_. 0) 0 (snd t)) (fst t) (of_nat (length (snd t))) 0"

lemma load_sub: "load m a n = xs \<Longrightarrow> k + l \<le> n \<Longrightarrow> load m (a + k) l = take l (drop k xs)"
  by (auto simp: take_load drop_load min_def)

lemma apply_option_value:
  assumes "load d opt (unat len) = v"
  shows "apply_option d c len opt info = tlv_effect (c, v) info"
proof -
  have lv: "of_nat (length v) = len" using assms by auto
  have ln: "length v = unat len" using assms by auto
  have at: "load d (opt + k) l = load (store (\<lambda>_. 0) 0 v) k l" if "k + l \<le> unat len" for k l
    using load_sub [OF assms that] that load_sub [OF load_store_same [OF refl], of k l v "\<lambda>_. 0" 0]
    by (simp add: ln)
  have l4: "load32 d (opt + k) = load32 (store (\<lambda>_. 0) 0 v) k" if "k + 4 \<le> unat len" for k
    by (rule load32_cong) (rule at [OF that])
  have l2: "load16 d opt = load16 (store (\<lambda>_. 0) 0 v) 0" if "len = 2"
    using at [of 0 2] that by (simp add: load_2 load16_def)
  have le: "4 \<le> len \<Longrightarrow> 4 \<le> unat len" "8 \<le> len \<Longrightarrow> 8 \<le> unat len" "12 \<le> len \<Longrightarrow> 12 \<le> unat len"
    "16 \<le> len \<Longrightarrow> 16 \<le> unat len"
    by (simp_all add: word_le_nat_alt)
  show ?thesis
    using l4 [of 0] l4 [of 4] l4 [of 8] l4 [of 12] l2 le
    by (auto simp: apply_option_def tlv_effect_def lv Let_def)
qed

lemma options_loop_encoded:
  assumes "load (dhcpData m) (236 + i) (length (encode_tlvs ts) + 1) = encode_tlvs ts @ [OPT_END]"
    and "i + length (encode_tlvs ts) + 1 \<le> optionsSize m"
    and "list_all wf_tlv ts"
  shows "options_loop m i info = (True, fold tlv_effect ts info)"
  using assms
proof (induction ts arbitrary: i info)
  case Nil
  then show ?case by (subst options_loop.simps) (simp add: Let_def)
next
  case (Cons t ts)
  obtain c d where t: "t = (c, d)" by (cases t)
  have wf: "c \<noteq> OPT_END" "length d < 256" using Cons.prems(3) by (simp_all add: t wf_tlv_def)
  let ?rest = "encode_tlvs ts @ [OPT_END]"
  have all: "load (dhcpData m) (236 + i) (3 + length d + length (encode_tlvs ts)) =
      [c, of_nat (length d)] @ d @ ?rest"
    using Cons.prems(1) by (simp add: t encode_tlv_def numeral_3_eq_3)
  have ld: "load (dhcpData m) (236 + i) 2 = [c, of_nat (length d)]"
      "load (dhcpData m) (236 + i + 2) (length d) = d"
      "load (dhcpData m) (236 + (i + 2 + length d)) (length (encode_tlvs ts) + 1) = ?rest"
    using load_sub [OF all, of 0 2] load_sub [OF all, of 2 "length d"]
      load_sub [OF all, of "2 + length d" "length (encode_tlvs ts) + 1"]
    by (simp_all add: add.assoc)
  have sz: "i + 2 + length d + length (encode_tlvs ts) + 1 \<le> optionsSize m" "236 + optionsSize m \<le> mSize m"
    using Cons.prems(2) by (simp_all add: t optionsSize_def offset_options_def split: if_splits)
  have "options_loop m i info = options_loop m (i + 2 + length d) (tlv_effect (c, d) info)"
    using ld sz wf apply_option_value [of "dhcpData m" "236 + i + 2" "of_nat (length d)" d]
    by (subst options_loop.simps) (simp add: Let_def load_2 offset_options_def)
  also have "\<dots> = (True, fold tlv_effect ts (tlv_effect (c, d) info))"
    using Cons.prems(3) sz(1) by (intro Cons.IH ld(3)) (simp_all add: t)
  finally show ?case by (simp add: t)
qed

lemma tlv_effect_word:
  "tlv_effect (OPT_MESSAGE_TYPE, v) info = info"
  "tlv_effect (OPT_SERVER_ID, bytes32 w) info = info\<lparr>info_serverId := w\<rparr>"
  "tlv_effect (OPT_LEASE_TIME, bytes32 w) info = info\<lparr>leaseTime := ntohl w\<rparr>"
  "tlv_effect (OPT_SUBNET_MASK, bytes32 w) info = info\<lparr>subnetMask := w\<rparr>"
  "tlv_effect (OPT_GATEWAY, bytes32 w) info = info\<lparr>gateway := w\<rparr>"
  by (simp_all add: tlv_effect_def apply_option_def dhcp_consts mem_simps)

lemma load_concat_bytes32:
  "j < length ws \<Longrightarrow> take 4 (drop (4 * j) (concat (map bytes32 ws))) = bytes32 (ws ! j)"
proof (induction ws arbitrary: j)
  case (Cons w ws)
  then show ?case by (cases j) simp_all
qed simp

lemma load32_concat_bytes32:
  assumes "j < length ws"
  shows "load32 (store g 0 (concat (map bytes32 ws))) (4 * j) = ws ! j"
proof -
  have "load (store g 0 (concat (map bytes32 ws))) (0 + 4 * j) 4 = bytes32 (ws ! j)"
    using load_sub [OF load_store_same [OF refl], of "4 * j" 4 "concat (map bytes32 ws)" g 0]
      load_concat_bytes32 [OF assms] assms by simp
  then show ?thesis by (simp add: load32_bytes)
qed

lemma tlv_effect_dns:
  assumes "length ws \<le> 63" "dns info = [0, 0, 0, 0]"
  shows "tlv_effect (OPT_DNS, concat (map bytes32 ws)) info =
    info\<lparr>dns := take 4 (ws @ [0, 0, 0, 0])\<rparr>"
proof -
  let ?d = "store (\<lambda>_. 0) 0 (concat (map bytes32 ws))"
  have le: "(n :: u8) \<le> of_nat (4 * length ws) \<longleftrightarrow> unat n \<le> 4 * length ws" for n
    using assms(1) by (subst word_le_nat_alt, subst unat_of_nat_u8) simp_all
  have w: "0 < length ws \<Longrightarrow> load32 ?d 0 = ws ! 0" "1 < length ws \<Longrightarrow> load32 ?d 4 = ws ! 1"
    "2 < length ws \<Longrightarrow> load32 ?d 8 = ws ! 2" "3 < length ws \<Longrightarrow> load32 ?d 12 = ws ! 3"
    using load32_concat_bytes32 [of 0 ws] load32_concat_bytes32 [of 1 ws]
      load32_concat_bytes32 [of 2 ws] load32_concat_bytes32 [of 3 ws] by simp_all
  consider "ws = []" | a where "ws = [a]" | a b where "ws = [a, b]" | a b c where "ws = [a, b, c]"
    | a b c e us where "ws = a # b # c # e # us"
    by (metis neq_Nil_conv)
  then show ?thesis
    using w le [of 4] le [of 8] le [of 12] le [of 16] assms(2)
    by cases (simp_all add: tlv_effect_def apply_option_def dhcp_consts Let_def)
qed

lemma built_options_loop:
  assumes "built m base ts"
  shows "options_loop m 4 info = (True, fold tlv_effect ts info)"
proof (rule options_loop_encoded)
  have c: "list_all wf_tlv ts" "mSize m = 241 + length (encode_tlvs ts)"
    "load (dhcpData m) 236 (5 + length (encode_tlvs ts)) = OPT_COOKIE @ encode_tlvs ts @ [OPT_END]"
    using assms by (simp_all add: built_def carries_end_def)
  show "load (dhcpData m) (236 + 4) (length (encode_tlvs ts) + 1) = encode_tlvs ts @ [OPT_END]"
    using load_sub [OF c(3), of 4 "length (encode_tlvs ts) + 1"] by simp
  show "4 + length (encode_tlvs ts) + 1 \<le> optionsSize m" "list_all wf_tlv ts"
    using c by (simp_all add: optionsSize_def offset_options_def)
qed

lemma lease_reply_parsed:
  assumes "length ds \<le> 63" "m = fst (lease_reply type src s a nm gw ds x)"
  shows "options_loop m 4 zero_info = (True, zero_info\<lparr>leaseTime := 0x58020000, subnetMask := nm,
      gateway := gw, dns := take 4 (ds @ [0, 0, 0, 0]), info_serverId := s\<rparr>)"
    and "optionsSize m = 34 + 4 * length ds"
proof -
  have "ntohl kDefaultLeaseTime = 0x58020000"
    by (simp add: kDefaultLeaseTime_def) code_simp
  then show "options_loop m 4 zero_info = (True, zero_info\<lparr>leaseTime := 0x58020000, subnetMask := nm,
      gateway := gw, dns := take 4 (ds @ [0, 0, 0, 0]), info_serverId := s\<rparr>)"
    using built_options_loop [OF built_lease_reply [OF assms(1)]] assms
    by (simp add: lease_tlvs_def tlv_effect_word tlv_effect_dns zero_info_def)
  show "optionsSize m = 34 + 4 * length ds"
    using lease_reply_facts(9) [OF assms] by (simp add: optionsSize_def offset_options_def)
qed

section \<open>What each operation leaves alone\<close>

text \<open>
  The fields the environment of a step may rely on: everything but the timers, the info and the
  trace is as before.
\<close>

definition config_only :: "client \<Rightarrow> client \<Rightarrow> bool" where
  "config_only c c' \<longleftrightarrow>
     c' = c\<lparr>mDhcpInfo := mDhcpInfo c', mT1 := mT1 c', mT2 := mT2 c', calls := calls c'\<rparr>"

lemma run_configureDhcp:
  assumes "run_state (configureDhcp k msg) c = (ok, c')"
  shows "config_only c c'"
    and "ok \<Longrightarrow> leaseTime (mDhcpInfo c') \<noteq> 0 \<and> offeredAddress (mDhcpInfo c') = yiaddr (dhcp msg)"
  using assms
  by (auto simp: configureDhcp_def config_only_def Let_def split: prod.splits if_splits)

lemma run_sendDhcpRequest:
  "run_state (sendDhcpRequest k d) c =
     ((), c\<lparr>mLastMsg := fst (request (mMacAddress (mInterface c)) (mRequestAddress c) d (nextXid c)),
            nextXid := snd (request (mMacAddress (mInterface c)) (mRequestAddress c) d (nextXid c)),
            calls := calls c @ [SendMsg (mSocketFd (mSocket c))
              (SockaddrLl (htons ETH_P_IP) (mIndex (mInterface c)) (replicate ETH_ALEN 0xFF)) 0
              (rawUdp_packet 0 68 0xFFFFFFFF 67
                (fst (request (mMacAddress (mInterface c)) (mRequestAddress c) d (nextXid c))))]\<rparr>)"
  by (simp add: sendDhcpRequest_def client_sendMessage_def sendRawUdp_def Let_def case_prod_beta
      INADDR_ANY_def INADDR_BROADCAST_def PORT_BOOTP_SERVER_def PORT_BOOTP_CLIENT_def)

lemma run_sendDhcpDiscover:
  "run_state (sendDhcpDiscover k) c =
     ((), c\<lparr>mLastMsg := fst (discover (mMacAddress (mInterface c)) (nextXid c)),
            nextXid := snd (discover (mMacAddress (mInterface c)) (nextXid c)),
            calls := calls c @ [SendMsg (mSocketFd (mSocket c))
              (SockaddrLl (htons ETH_P_IP) (mIndex (mInterface c)) (replicate ETH_ALEN 0xFF)) 0
              (rawUdp_packet 0 68 0xFFFFFFFF 67
                (fst (discover (mMacAddress (mInterface c)) (nextXid c))))]\<rparr>)"
  by (simp add: sendDhcpDiscover_def client_sendMessage_def sendRawUdp_def Let_def case_prod_beta
      INADDR_ANY_def INADDR_BROADCAST_def PORT_BOOTP_SERVER_def PORT_BOOTP_CLIENT_def)

text \<open>What the client has handed to \<open>sendmsg\<close>, and the call that broadcasts a message.\<close>

definition sent_calls :: "client \<Rightarrow> call list" where
  "sent_calls c = filter is_send (calls c)"

definition broadcast_call :: "client \<Rightarrow> message \<Rightarrow> call" where
  "broadcast_call c m = SendMsg (mSocketFd (mSocket c))
     (SockaddrLl (htons ETH_P_IP) (mIndex (mInterface c)) (replicate ETH_ALEN 0xFF)) 0
     (rawUdp_packet 0 68 0xFFFFFFFF 67 m)"

lemma quiet_filter: "quiet m \<Longrightarrow> run_state m t = (x, t') \<Longrightarrow> filter is_send t' = filter is_send t"
  by (erule issuesE) (auto simp: filter_empty_conv list_all_iff)

lemma quiet_setInterfaceUp [issues_intros]: "quiet (setInterfaceUp k b i)"
  unfolding setInterfaceUp_def by (intro issues_intros) (simp_all add: is_send_def)

lemma quiet_setMtu [issues_intros]: "quiet (setMtu k m i)"
  unfolding setMtu_def by (intro issues_intros) (simp_all add: is_send_def)

lemma quiet_setAddress [issues_intros]: "quiet (setAddress k a nm i)"
  unfolding setAddress_def by (intro issues_intros) (simp_all add: is_send_def)

lemma quiet_setDefaultGateway [issues_intros]: "quiet (setDefaultGateway k g i r)"
  unfolding setDefaultGateway_def sendNetlinkMessage_def by (intro issues_intros) (simp_all add: is_send_def)

lemma quiet_set_dns_props [issues_intros]: "quiet (set_dns_props k n i ds)"
proof (induction ds arbitrary: i)
  case (Cons d ds)
  then show ?case unfolding set_dns_props.simps by (intro issues_intros) (simp_all add: is_send_def)
qed (simp add: issues_return)

lemma quiet_apply_config: "quiet (apply_config k c)"
  unfolding apply_config_def bringUp_def by (intro issues_intros) (simp_all add: is_send_def)

lemma quiet_haltNetwork: "quiet (haltNetwork k c)"
  unfolding haltNetwork_def bringDown_def by (intro issues_intros)

lemma quiet_receive: "quiet (receiveDhcpMessage k c)"
  unfolding receiveDhcpMessage_def receiveRawUdp_def by (intro issues_intros) (simp_all add: is_send_def)

lemma configure_sends:
  assumes "run_state (configureDhcp k msg) c = (ok, c')"
  shows "sent_calls c' = sent_calls c"
  using assms quiet_filter [OF quiet_apply_config]
  by (fastforce simp: configureDhcp_def sent_calls_def expireSeconds_def now_def is_send_def Let_def
      split: prod.splits if_splits)

lemma handle_sends:
  assumes "run_state (handle_message k msg) c = (r, c')"
  shows "sent_calls c' = sent_calls c"
proof -
  have "sent_calls (setNextState s c) = sent_calls c" for s c by (simp add: sent_calls_def setNextState_def)
  then show ?thesis
    using assms quiet_filter [OF quiet_haltNetwork] configure_sends
    by (fastforce simp: handle_message_def sent_calls_def Let_def split: client_state.splits if_splits prod.splits)
qed

lemma poll_sends:
  assumes "run_state (poll_turn k timeout) c = (p', c')"
  shows "sent_calls c' = sent_calls c"
  using assms quiet_filter [OF quiet_receive] handle_sends
  by (fastforce simp: poll_turn_def sent_calls_def now_def is_send_def Let_def split: if_splits prod.splits)

lemma run_begin_wait:
  assumes "run_state (begin_wait k) c = (p, c')"
  shows "c' = c\<lparr>calls := calls c'\<rparr>"
    and "p = Evaluate \<longleftrightarrow> mNextTimeout c = 0"
  using assms
  by (auto simp: begin_wait_def calculateTimeoutMillis_def Let_def kNoTimeout_def split: if_splits prod.splits)

text \<open>The clock that a program with the trace \<open>t\<close> would read next.\<close>

definition millis :: "kernel \<Rightarrow> trace \<Rightarrow> u64" where
  "millis k t = fst (run_state (now k) t)"

lemma run_now: "run_state (now k) t = (millis k t, t @ [ClockGettime])"
  by (simp add: millis_def now_def)

text \<open>The edges of the state machine (RFC 2131, figure 5, without INIT-REBOOT).\<close>

fun edge :: "client_state \<Rightarrow> client_state \<Rightarrow> bool" where
  "edge Init s \<longleftrightarrow> s = Selecting"
| "edge Selecting s \<longleftrightarrow> s = Requesting"
| "edge Requesting s \<longleftrightarrow> s = Bound \<or> s = Init"
| "edge Bound s \<longleftrightarrow> s = Renewing"
| "edge Renewing s \<longleftrightarrow> s = Bound \<or> s = Rebinding \<or> s = Init"
| "edge Rebinding s \<longleftrightarrow> s = Bound \<or> s = Init"

lemma evaluate_cases:
  assumes "run_state (evaluate k) c = ((), c')"
  shows "(mState c' = mState c \<and> mNextTimeout c' = next_timeout (mNextTimeout c) \<and>
          mFuzzNextTimeout c' = mFuzzNextTimeout c \<and> mState c \<notin> {Init, Bound}) \<or>
         (edge (mState c) (mState c') \<and> mState c' \<in> {Selecting, Init, Renewing, Rebinding} \<and>
          mNextTimeout c' = 0 \<and> mFuzzNextTimeout c') \<or>
         (mState c = Bound \<and> mState c' = Bound \<and> \<not> mFuzzNextTimeout c')"
    and "mDhcpInfo c' = mDhcpInfo c" "mServerAddress c' = mServerAddress c"
    "mRequestAddress c' = mRequestAddress c" "mInterface c' = mInterface c" "mSocket c' = mSocket c"
    "mT1 c' = mT1 c" "mT2 c' = mT2 c"
  using assms
  by (auto simp: evaluate_def run_sendDhcpRequest run_sendDhcpDiscover setNextState_def
      increaseTimeout_def kNoTimeout_def split: client_state.splits if_splits prod.splits)

text \<open>
  When the evaluation of a state leaves it: the initial state always, the waiting ones when the
  longest timeout has passed, the bound and the renewing state when their timer, read from the clock
  at this moment, has expired.
\<close>

definition due :: "kernel \<Rightarrow> client \<Rightarrow> bool" where
  "due k c =
     (case mState c of
        Init \<Rightarrow> True
      | Selecting \<Rightarrow> False
      | Requesting \<Rightarrow> kMaxTimeout \<le> mNextTimeout c
      | Bound \<Rightarrow> mT1 c \<le> millis k (calls c)
      | Renewing \<Rightarrow> mT2 c \<le> millis k (calls c)
      | Rebinding \<Rightarrow> kMaxTimeout \<le> mNextTimeout c)"

lemma evaluate_due:
  assumes "run_state (evaluate k) c = ((), c')"
  shows "mState c' \<noteq> mState c \<longleftrightarrow> due k c"
  using assms
  by (auto simp: evaluate_def due_def run_sendDhcpRequest run_sendDhcpDiscover setNextState_def
      increaseTimeout_def expired_def run_now not_le split: client_state.splits if_splits prod.splits)

lemma handle_message_cases:
  assumes "run_state (handle_message k msg) c = (r, c')"
  shows "(\<not> r \<and> config_only c c') \<or>
    (r \<and> mState c = Selecting \<and> message_type msg = DHCPOFFER \<and>
      c' = setNextState Requesting (c\<lparr>mServerAddress := serverId msg, mRequestAddress := yiaddr (dhcp msg)\<rparr>)) \<or>
    (r \<and> mState c \<in> {Requesting, Renewing, Rebinding} \<and> message_type msg = DHCPACK \<and>
      (\<exists>c''. run_state (configureDhcp k msg) c = (True, c'') \<and> c' = setNextState Bound c'')) \<or>
    (r \<and> mState c \<in> {Requesting, Renewing, Rebinding} \<and> message_type msg = DHCPNAK \<and>
      (\<exists>t. run_state (haltNetwork k c) (calls c) = ((), t) \<and> c' = setNextState Init (c\<lparr>calls := t\<rparr>)))"
  using assms
  by (auto simp: handle_message_def Let_def config_only_def DHCPACK_def DHCPNAK_def
      dest: run_configureDhcp(1) split: client_state.splits if_splits prod.splits)


text \<open>
  The message a polling client takes: \<open>receiveDhcpMessage\<close> after the clock and the poll.
\<close>

definition accepted :: "kernel \<Rightarrow> client \<Rightarrow> pc \<Rightarrow> message \<Rightarrow> bool" where
  "accepted k c p msg \<longleftrightarrow>
     (case p of
        Evaluate \<Rightarrow> False
      | Polling timeout \<Rightarrow>
          let poll = calls c @ [ClockGettime, Ppoll (mSocketFd (mSocket c)) timeout]
          in ret (k poll) > 0 \<and> fst (run_state (receiveDhcpMessage k c) poll) = (True, msg))"

lemma config_only_calls: "config_only c (c\<lparr>calls := t\<rparr>)"
  by (simp add: config_only_def)

lemma receive_calls [simp]: "receiveDhcpMessage k (c\<lparr>calls := t\<rparr>) = receiveDhcpMessage k c"
  by (simp add: receiveDhcpMessage_def)

lemma poll_turn_cases:
  assumes "run_state (poll_turn k timeout) c = (p', c')"
  shows "config_only c c' \<and> (c' = c\<lparr>calls := calls c'\<rparr> \<or> (\<exists>msg. accepted k c (Polling timeout) msg)) \<or>
    (\<exists>msg t. accepted k c (Polling timeout) msg \<and> p' = Evaluate \<and>
       run_state (handle_message k msg) (c\<lparr>calls := t\<rparr>) = (True, c'))"
proof -
  let ?t1 = "calls c @ [ClockGettime]"
  let ?t2 = "?t1 @ [Ppoll (mSocketFd (mSocket c)) timeout]"
  obtain ok msg t3 where r: "run_state (receiveDhcpMessage k c) ?t2 = ((ok, msg), t3)"
    by (metis prod.exhaust)
  show ?thesis
  proof (cases "ret (k ?t2) > 0 \<and> ok")
    case False
    then have "c' = c\<lparr>calls := calls c'\<rparr>"
      using assms r by (auto simp: poll_turn_def now_def Let_def split: if_splits prod.splits)
    then show ?thesis using config_only_calls [of c "calls c'"] by argo
  next
    case True
    then have acc: "accepted k c (Polling timeout) msg"
      using r by (simp add: accepted_def Let_def)
    obtain ret' c2 where h: "run_state (handle_message k msg) (c\<lparr>calls := t3\<rparr>) = (ret', c2)"
      by force
    show ?thesis
    proof (cases ret')
      case True
      then have "p' = Evaluate" "c' = c2"
        using assms r h \<open>ret (k ?t2) > 0 \<and> ok\<close>
        by (auto simp: poll_turn_def now_def Let_def split: if_splits prod.splits)
      with True acc h show ?thesis by simp blast
    next
      case False
      have "config_only (c\<lparr>calls := t3\<rparr>) c2"
        using handle_message_cases [OF h] False by blast
      moreover have "c' = c2\<lparr>calls := calls c'\<rparr>"
        using assms r h False \<open>ret (k ?t2) > 0 \<and> ok\<close>
        by (auto simp: poll_turn_def now_def Let_def split: if_splits prod.splits)
      ultimately have "config_only c c'"
        by (cases c; cases c'; cases c2) (simp add: config_only_def)
      with acc show ?thesis by blast
    qed
  qed
qed


lemma accepted_valid:
  "accepted k c p msg \<Longrightarrow> isValidDhcpMessageXid msg OP_BOOTREPLY (xid (dhcp (mLastMsg c)))"
  by (auto simp: accepted_def receiveDhcpMessage_def Let_def split: pc.splits prod.splits)

text \<open>What a configuration that succeeded has done last: the address, then the gateway.\<close>

definition configured_with :: "kernel \<Rightarrow> client \<Rightarrow> trace \<Rightarrow> bool" where
  "configured_with k c t' \<longleftrightarrow>
     (\<exists>t t1. run_state (setAddress k (offeredAddress (mDhcpInfo c)) (subnetMask (mDhcpInfo c))
          (mInterface c)) t = (Success, t1) \<and>
        t' = t1 @ (if mOptions c AND ClientOption_NoGateway = 0
             then [SendTo (rtSocketFd (mRouter c)) SockaddrNl
                     (request_bytes (gateway_request (gateway (mDhcpInfo c)) (mIndex (mInterface c))))]
             else []))"

lemma apply_config_ok:
  assumes "run_state (apply_config k c) t = (True, t')"
  shows "configured_with k c t'"
  using assms unfolding configured_with_def
  by (fastforce simp: apply_config_def setDefaultGateway_def sendNetlinkMessage_def Let_def
      split: if_splits prod.splits)

lemma configureDhcp_ok:
  assumes "run_state (configureDhcp k msg) c = (True, c')"
  shows "configured_with k c' (calls c')"
    and "mDhcpInfo c' = (snd (options_loop msg 4 zero_info))\<lparr>offeredAddress := yiaddr (dhcp msg)\<rparr>"
    and "fst (options_loop msg 4 zero_info)"
  using assms
  by (auto simp: configureDhcp_def Let_def configured_with_def dest!: apply_config_ok
      split: if_splits prod.splits)

lemma step_Evaluate:
  assumes "run_state (client_step k Evaluate) c = (p', c')"
  obtains c1 where "run_state (evaluate k) c = ((), c1)" "run_state (begin_wait k) c1 = (p', c')"
    "c' = c1\<lparr>calls := calls c'\<rparr>" "p' = Evaluate \<longleftrightarrow> mNextTimeout c1 = 0"
proof -
  obtain c1 where "run_state (evaluate k) c = ((), c1)" by (metis prod.exhaust unit.exhaust)
  moreover from this have "run_state (begin_wait k) c1 = (p', c')" using assms by simp
  ultimately show thesis using that run_begin_wait by blast
qed

lemma config_only_fields:
  assumes "config_only c c'"
  shows "mState c' = mState c" "mNextTimeout c' = mNextTimeout c"
    "mFuzzNextTimeout c' = mFuzzNextTimeout c" "mLastMsg c' = mLastMsg c"
    "mServerAddress c' = mServerAddress c" "mRequestAddress c' = mRequestAddress c"
    "mInterface c' = mInterface c" "mSocket c' = mSocket c" "nextXid c' = nextXid c"
    "mRouter c' = mRouter c" "mOptions c' = mOptions c"
  by (subst assms [unfolded config_only_def], simp)+

text \<open>The reasons for a change of state.\<close>

definition moved_by :: "kernel \<Rightarrow> pc \<Rightarrow> client \<Rightarrow> client \<Rightarrow> bool" where
  "moved_by k p c c' \<longleftrightarrow>
     (case mState c' of
        Requesting \<Rightarrow> \<exists>msg. accepted k c p msg \<and> message_type msg = DHCPOFFER \<and>
          mServerAddress c' = serverId msg \<and> mRequestAddress c' = yiaddr (dhcp msg)
      | Bound \<Rightarrow> \<exists>msg. accepted k c p msg \<and> message_type msg = DHCPACK \<and>
          leaseTime (mDhcpInfo c') \<noteq> 0 \<and> offeredAddress (mDhcpInfo c') = yiaddr (dhcp msg) \<and>
          configured_with k c' (calls c')
      | Init \<Rightarrow> (p = Evaluate \<and> mState c \<in> {Requesting, Rebinding} \<and> kMaxTimeout \<le> mNextTimeout c) \<or>
          (mState c \<in> {Requesting, Renewing, Rebinding} \<and>
            (\<exists>msg. accepted k c p msg \<and> message_type msg = DHCPNAK))
      | Selecting \<Rightarrow> p = Evaluate \<and> mState c = Init
      | Renewing \<Rightarrow> p = Evaluate \<and> mState c = Bound \<and> mT1 c \<le> millis k (calls c)
      | Rebinding \<Rightarrow> p = Evaluate \<and> mState c = Renewing \<and> mT2 c \<le> millis k (calls c))"

lemma evaluate_moved:
  assumes "run_state (evaluate k) c = ((), c1)" "mState c1 \<noteq> mState c"
  shows "moved_by k Evaluate c (c1\<lparr>calls := t\<rparr>)"
  using assms
  by (auto simp: evaluate_def moved_by_def run_sendDhcpRequest run_sendDhcpDiscover
      setNextState_def increaseTimeout_def expired_def run_now split: client_state.splits if_splits prod.splits)

lemma handle_moved:
  assumes "run_state (handle_message k msg) (c\<lparr>calls := t\<rparr>) = (True, c')"
    and "accepted k c p msg"
  shows "moved_by k p c c' \<and> edge (mState c) (mState c') \<and> mNextTimeout c' = 0 \<and> mFuzzNextTimeout c'"
  using handle_message_cases [OF assms(1)] assms(2) configureDhcp_ok run_configureDhcp
  by (fastforce simp: moved_by_def setNextState_def kNoTimeout_def configured_with_def)

lemma step_due:
  assumes "run_state (client_step k Evaluate) c = (p', c')"
  shows "mState c' \<noteq> mState c \<longleftrightarrow> due k c"
proof -
  from assms obtain c1 where e: "run_state (evaluate k) c = ((), c1)" and c1: "c' = c1\<lparr>calls := calls c'\<rparr>"
    by (rule step_Evaluate)
  have "mState c' = mState c1" by (subst c1, simp)
  with evaluate_due [OF e] show ?thesis by simp
qed

lemma client_moves_facts:
  assumes "run_state (client_step k p) c = (p', c')" and "mState c' \<noteq> mState c"
  shows "edge (mState c) (mState c') \<and> p' = Evaluate \<and> mNextTimeout c' = 0 \<and> moved_by k p c c'"
proof (cases p)
  case Evaluate
  from assms(1) [unfolded Evaluate] obtain c1 where e: "run_state (evaluate k) c = ((), c1)"
    and c1: "c' = c1\<lparr>calls := calls c'\<rparr>" "p' = Evaluate \<longleftrightarrow> mNextTimeout c1 = 0"
    by (rule step_Evaluate)
  have s: "mState c' = mState c1" "mNextTimeout c' = mNextTimeout c1" by (subst c1(1), simp)+
  then show ?thesis
    using evaluate_cases(1) [OF e] evaluate_moved [OF e, of "calls c'"] assms(2) c1 Evaluate by auto
next
  case (Polling timeout)
  then have "run_state (poll_turn k timeout) c = (p', c')" using assms(1) by simp
  from poll_turn_cases [OF this] show ?thesis
    using assms(2) config_only_fields(1) handle_moved Polling by blast
qed

section \<open>The invariant\<close>

text \<open>
  The questions of a state with the transaction id before the counter's; a bound client's last one
  was the request its lease acknowledges, to the server it chose or to all.
\<close>

definition asked :: "client \<Rightarrow> message set" where
  "asked c =
     (let mac = mMacAddress (mInterface c); x = nextXid c - 1;
          to_server = fst (request mac (mRequestAddress c) (mServerAddress c) x);
          to_all = fst (request mac (mRequestAddress c) 0xFFFFFFFF x)
      in case mState c of
           Init \<Rightarrow> {}
         | Selecting \<Rightarrow> {fst (discover mac x)}
         | Requesting \<Rightarrow> {to_server}
         | Bound \<Rightarrow> {to_server, to_all}
         | Renewing \<Rightarrow> {to_server}
         | Rebinding \<Rightarrow> {to_all})"

text \<open>The last message is the state's question, and nothing was sent after it was broadcast.\<close>

definition asking :: "client \<Rightarrow> bool" where
  "asking c \<longleftrightarrow> mLastMsg c \<in> asked c \<and>
     (\<exists>earlier. sent_calls c = earlier @ [broadcast_call c (mLastMsg c)])"

definition client_inv :: "pc \<times> client \<Rightarrow> bool" where
  "client_inv s \<longleftrightarrow>
     (case s of (p, c) \<Rightarrow>
        (mFuzzNextTimeout c \<longrightarrow> mNextTimeout c \<in> {0, 4000, 8000, 16000, 32000, 64000}) \<and>
        (\<not> mFuzzNextTimeout c \<longrightarrow> mState c = Bound) \<and>
        (p \<noteq> Evaluate \<longrightarrow> mState c \<noteq> Init \<and> mNextTimeout c \<noteq> 0) \<and>
        (p \<noteq> Evaluate \<or> mState c = Bound \<longrightarrow> asking c))"

lemma next_timeout_closed:
  "t \<in> {0, 4000, 8000, 16000, 32000, 64000} \<Longrightarrow>
   next_timeout t \<in> {4000, 8000, 16000, 32000, 64000}"
  by (auto simp: next_timeout_def client_consts)

lemma asking_kept:
  assumes "config_only c c'" "sent_calls c' = sent_calls c"
  shows "asking c' \<longleftrightarrow> asking c"
  by (simp add: asking_def asked_def broadcast_call_def assms(2) config_only_fields [OF assms(1)])

lemma asking_bound:
  "asking c \<Longrightarrow> mState c \<in> {Requesting, Renewing, Rebinding} \<Longrightarrow> asking (setNextState Bound c)"
  by (auto simp: asking_def asked_def sent_calls_def broadcast_call_def setNextState_def Let_def)

lemma evaluate_asking:
  assumes "run_state (evaluate k) c = ((), c1)" "mState c = Bound \<Longrightarrow> asking c"
    and "mNextTimeout c1 \<noteq> 0 \<or> mState c1 = Bound"
  shows "asking c1"
proof (cases "mState c = Bound")
  case True
  with assms(1,3) have "mState c1 = Bound" "sent_calls c1 = sent_calls c" "mLastMsg c1 = mLastMsg c"
    "mInterface c1 = mInterface c" "mSocket c1 = mSocket c" "nextXid c1 = nextXid c"
    "mServerAddress c1 = mServerAddress c" "mRequestAddress c1 = mRequestAddress c"
    by (auto simp: evaluate_def expired_def remainingMillis_def now_def setNextState_def kNoTimeout_def
        sent_calls_def is_send_def split: if_splits)
  with assms(2) [OF True] True show ?thesis by (simp add: asking_def asked_def broadcast_call_def)
next
  case False
  with assms(1,3) show ?thesis
    by (auto simp: evaluate_def asking_def asked_def sent_calls_def broadcast_call_def run_sendDhcpRequest
        run_sendDhcpDiscover setNextState_def increaseTimeout_def kNoTimeout_def request_def discover_def
        Message_new_def INADDR_BROADCAST_def is_send_def Let_def split: client_state.splits if_splits prod.splits)
qed

lemma begin_wait_quiet:
  "run_state (begin_wait k) c = (p, c') \<Longrightarrow> sent_calls c' = sent_calls c"
  by (auto simp: begin_wait_def calculateTimeoutMillis_def sent_calls_def is_send_def Let_def
      split: if_splits)

lemma handle_asking:
  assumes "run_state (handle_message k msg) (c\<lparr>calls := t\<rparr>) = (True, c')" "asking c"
    and "sent_calls c' = sent_calls c" "mState c' = Bound"
  shows "asking c'"
proof -
  from handle_message_cases [OF assms(1)] assms(4) obtain c2
    where st: "mState c \<in> {Requesting, Renewing, Rebinding}"
    and 2: "run_state (configureDhcp k msg) (c\<lparr>calls := t\<rparr>) = (True, c2)" "c' = setNextState Bound c2"
    by (auto simp: setNextState_def)
  have "config_only c c2"
    using run_configureDhcp(1) [OF 2(1)] by (cases c; cases c2) (simp add: config_only_def)
  moreover have "sent_calls c2 = sent_calls c" using assms(3) by (simp add: 2 sent_calls_def setNextState_def)
  ultimately have "asking c2" "mState c2 = mState c"
    using asking_kept assms(2) config_only_fields(1) by blast+
  with st show ?thesis by (simp add: 2 asking_bound)
qed

lemma client_inv_step:
  assumes "client_inv (p, c)" "run_state (client_step k p) c = (p', c')"
  shows "client_inv (p', c')"
proof (cases p)
  case Evaluate
  from assms(2) [unfolded Evaluate] obtain c1 where e: "run_state (evaluate k) c = ((), c1)"
    and w: "run_state (begin_wait k) c1 = (p', c')"
    and c1: "c' = c1\<lparr>calls := calls c'\<rparr>" "p' = Evaluate \<longleftrightarrow> mNextTimeout c1 = 0"
    by (rule step_Evaluate)
  have s: "mState c' = mState c1" "mNextTimeout c' = mNextTimeout c1"
    "mFuzzNextTimeout c' = mFuzzNextTimeout c1" by (subst c1(1), simp)+
  have "config_only c1 c'" by (subst c1(1)) (rule config_only_calls)
  then have "asking c' \<longleftrightarrow> asking c1" using begin_wait_quiet [OF w] by (rule asking_kept)
  moreover have "asking c1" if "p' \<noteq> Evaluate \<or> mState c1 = Bound"
    using evaluate_asking [OF e] assms(1) that c1(2) by (auto simp: client_inv_def)
  moreover have "mState c1 \<noteq> Init" if "mNextTimeout c1 \<noteq> 0"
    using evaluate_cases(1) [OF e] that by auto
  ultimately show ?thesis
    using evaluate_cases(1) [OF e] assms(1) next_timeout_closed [of "mNextTimeout c"] c1(2) s
    by (auto simp: client_inv_def)
next
  case (Polling timeout)
  then have turn: "run_state (poll_turn k timeout) c = (p', c')" using assms(2) by simp
  from poll_turn_cases [OF this] consider "config_only c c'"
    | msg t where "accepted k c p msg" "p' = Evaluate"
      "run_state (handle_message k msg) (c\<lparr>calls := t\<rparr>) = (True, c')"
    using Polling by blast
  then show ?thesis
  proof cases
    case 1
    then show ?thesis
      using assms(1) Polling asking_kept [OF 1 poll_sends [OF turn]]
      by (auto simp: client_inv_def config_only_fields [OF 1])
  next
    case 2
    have "asking c" using assms(1) Polling by (simp add: client_inv_def)
    then show ?thesis
      using handle_moved [OF 2(3,1)] handle_asking [OF 2(3) _ poll_sends [OF turn]] 2(2)
      by (simp add: client_inv_def)
  qed
qed

interpretation client: machine "client_next k" client_inv for k
proof
  fix s s' assume "client_inv s" "client_next k s s'"
  then show "client_inv s'"
    using client_inv_step [of "fst s" "snd s" k "fst s'" "snd s'"] by (simp add: client_next_def)
qed

text \<open>The client \<open>main\<close> starts.\<close>

lemma client_init_fields:
  assumes "run_state (client_init k n) c = (res, c')"
  shows "mState c' = mState c" "mNextTimeout c' = mNextTimeout c" "mFuzzNextTimeout c' = mFuzzNextTimeout c"
    "nextXid c' = nextXid c"
  using assms by (auto simp: client_init_def split: prod.splits if_splits)

lemma client_main_fields:
  assumes "client_main k argv g = Inr c"
  shows "mState c = Init" "mNextTimeout c = 4000" "mFuzzNextTimeout c" "nextXid c = nextXid g"
proof -
  obtain name opts res c1 t where c1: "run_state (client_init k name) (DhcpClient_new opts g) = (res, c1)"
    and c: "c = c1\<lparr>calls := t\<rparr>"
    using assms by (auto simp: client_main_def client_run_start_def split: prod.splits if_splits option.splits)
  show "mState c = Init" "mNextTimeout c = 4000" "mFuzzNextTimeout c" "nextXid c = nextXid g"
    using client_init_fields [OF c1] by (simp_all add: c DhcpClient_new_def client_consts)
qed

lemma client_main_inv: "client_main k argv g = Inr c \<Longrightarrow> client_inv (Evaluate, c)"
  by (simp add: client_inv_def client_main_fields)

section \<open>Silence\<close>

text \<open>A kernel whose \<open>ppoll\<close> always times out: no datagram ever arrives.\<close>

definition silent :: "kernel \<Rightarrow> bool" where
  "silent k \<longleftrightarrow> (\<forall>t fd timeout. ret (k (t @ [Ppoll fd timeout])) = 0)"

definition sends :: "client \<Rightarrow> nat" where
  "sends c = length (filter is_send (calls c))"

declare client_run.simps [simp del]

lemma client_run_1: "client_run k (Suc 0) s = run_state (client_step k (fst s)) (snd s)"
  by (simp add: client_run.simps)

lemma client_run_add: "client_run k (n + m) s = client_run k m (client_run k n s)"
  by (induction n arbitrary: s) (simp_all add: client_run.simps)

lemma silent_poll:
  assumes "silent k"
  shows "run_state (client_step k (Polling timeout)) c =
    (Evaluate, c\<lparr>calls := calls c @ [ClockGettime, Ppoll (mSocketFd (mSocket c)) timeout]\<rparr>)"
  using assms by (simp add: poll_turn_def silent_def now_def)

lemma begin_wait_sends:
  assumes "run_state (begin_wait k) c = (p, c')" "mNextTimeout c \<noteq> 0"
  shows "(\<exists>t. p = Polling t) \<and> sends c' = sends c"
  using assms
  by (auto simp: begin_wait_def calculateTimeoutMillis_def sends_def is_send_def kNoTimeout_def Let_def
      split: if_splits prod.splits)

lemma silent_round:
  assumes "silent k" "mState c \<in> {Requesting, Rebinding}"
    and "mNextTimeout c < kMaxTimeout" "next_timeout (mNextTimeout c) \<noteq> 0"
  shows "\<exists>c'. client_run k 2 (Evaluate, c) = (Evaluate, c') \<and> mState c' = mState c \<and>
    mNextTimeout c' = next_timeout (mNextTimeout c) \<and> sends c' = sends c + 1"
proof -
  obtain c1 where e: "run_state (evaluate k) c = ((), c1)"
    by (cases "run_state (evaluate k) c") auto
  then have c1: "mState c1 = mState c" "mNextTimeout c1 = next_timeout (mNextTimeout c)"
    "sends c1 = sends c + 1"
    using assms(2,3)
    by (auto simp: evaluate_def run_sendDhcpRequest increaseTimeout_def sends_def is_send_def
        split: if_splits)
  obtain p c2 where w: "run_state (begin_wait k) c1 = (p, c2)" by force
  then obtain timeout where p: "p = Polling timeout" and s: "sends c2 = sends c1"
    using begin_wait_sends [OF w] c1(2) assms(4) by auto
  have c2: "mState c2 = mState c1" "mNextTimeout c2 = mNextTimeout c1"
    by (subst run_begin_wait(1) [OF w], simp)+
  show ?thesis
    using e w p s c1 c2 silent_poll [OF assms(1), of timeout c2]
    by (simp add: numeral_2_eq_2 client_run.simps sends_def is_send_def)
qed

lemma silent_rounds:
  assumes "silent k" "mState c \<in> {Requesting, Rebinding}"
    and "\<And>i. i < n \<Longrightarrow> (next_timeout ^^ i) (mNextTimeout c) < kMaxTimeout \<and>
      (next_timeout ^^ Suc i) (mNextTimeout c) \<noteq> 0"
  shows "\<exists>c'. client_run k (2 * n) (Evaluate, c) = (Evaluate, c') \<and> mState c' = mState c \<and>
    mNextTimeout c' = (next_timeout ^^ n) (mNextTimeout c) \<and> sends c' = sends c + n"
  using assms(3)
proof (induction n)
  case 0
  then show ?case by (simp add: client_run.simps)
next
  case (Suc n)
  then obtain c1 where c1: "client_run k (2 * n) (Evaluate, c) = (Evaluate, c1)"
    "mState c1 = mState c" "mNextTimeout c1 = (next_timeout ^^ n) (mNextTimeout c)"
    "sends c1 = sends c + n" by auto
  moreover have "mNextTimeout c1 < kMaxTimeout" "next_timeout (mNextTimeout c1) \<noteq> 0"
    using Suc.prems [of n] c1(3) by simp_all
  moreover have "client_run k (2 * Suc n) (Evaluate, c) = client_run k 2 (Evaluate, c1)"
    using c1(1) client_run_add [of k "2 * n" 2 "(Evaluate, c)"] by simp
  ultimately show ?case
    using silent_round [OF assms(1), of c1] assms(2) by auto
qed

lemma silent_gives_up:
  assumes "silent k" "mState c \<in> {Requesting, Rebinding}" "mNextTimeout c = 0"
  shows "\<exists>c'. client_run k 11 (Evaluate, c) = (Evaluate, c') \<and> mState c' = Init \<and>
    mNextTimeout c' = 0 \<and> sends c' = sends c + 5"
proof -
  have t: "(next_timeout ^^ i) 0 < kMaxTimeout \<and> (next_timeout ^^ Suc i) 0 \<noteq> 0" if "i < 5" for i
  proof -
    have "list_all (\<lambda>i. (next_timeout ^^ i) 0 < kMaxTimeout \<and> (next_timeout ^^ Suc i) 0 \<noteq> 0) [0..<5]"
      by code_simp
    then show ?thesis using that by (simp add: list_all_iff)
  qed
  then obtain c1 where c1: "client_run k 10 (Evaluate, c) = (Evaluate, c1)" "mState c1 = mState c"
    "mNextTimeout c1 = (next_timeout ^^ 5) 0" "sends c1 = sends c + 5"
    using silent_rounds [OF assms(1,2), of 5] assms(3) by auto
  have "(next_timeout ^^ 5) 0 = kMaxTimeout"
    by code_simp
  then have "client_run k 1 (Evaluate, c1) = (Evaluate, setNextState Init c1)"
    using c1 assms(2) by (auto simp: client_run_1 evaluate_def begin_wait_def setNextState_def)
  then show ?thesis
    using c1 client_run_add [of k 10 1 "(Evaluate, c)"]
    by (simp add: setNextState_def kNoTimeout_def sends_def)
qed

section \<open>Clock readings and renewal times\<close>

lemma poll_turn_continues:
  assumes "run_state (poll_turn k timeout) c = (Polling timeout', c')"
  shows "\<exists>t. calls c' = t @ [ClockGettime] \<and> millis k t < millis k (calls c) + ucast timeout \<and>
    timeout' = ucast (millis k (calls c) + ucast timeout - millis k t)"
  using assms
  by (auto simp: poll_turn_def run_now Let_def not_le split: if_splits prod.splits)

lemma t2_default:
  assumes "leaseTime info \<le> 613566756"
  shows "unat ((leaseTime info * 7) div 8) = 7 * unat (leaseTime info) div 8"
proof -
  have "unat (leaseTime info) \<le> 613566756"
    using assms by (simp add: word_le_nat_alt)
  then have "unat (leaseTime info * 7) = 7 * unat (leaseTime info)"
    by (simp add: unat_word_ariths)
  then show ?thesis by (simp add: unat_div_distrib)
qed

lemma unat_div2: "unat ((w :: u32) div 2) = unat w div 2"
  by (simp add: unat_div_distrib)

lemma ack_configures:
  assumes "length ds \<le> 63" "m = fst (ack src s a nm gw ds x)"
    and "run_state (configureDhcp k m) c = (ok, c')"
  shows "mDhcpInfo c' = zero_info\<lparr>leaseTime := 0x58020000, subnetMask := nm, gateway := gw,
      dns := take 4 (ds @ [0, 0, 0, 0]), info_serverId := s, offeredAddress := a\<rparr>"
    and "mT1 c' = millis k (calls c) + 738263040000"
    and "mT2 c' = millis k (calls c @ [ClockGettime]) + 218218496000"
proof -
  have m: "m = fst (lease_reply DHCPACK src s a nm gw ds x)" using assms(2) by (simp add: ack_def)
  note p = lease_reply_parsed [OF assms(1) m] lease_reply_facts(4) [OF assms(1) m]
  show "mDhcpInfo c' = zero_info\<lparr>leaseTime := 0x58020000, subnetMask := nm, gateway := gw,
      dns := take 4 (ds @ [0, 0, 0, 0]), info_serverId := s, offeredAddress := a\<rparr>"
    "mT1 c' = millis k (calls c) + 738263040000"
    "mT2 c' = millis k (calls c @ [ClockGettime]) + 218218496000"
    using assms(3) p
    by (auto simp: configureDhcp_def Let_def expireSeconds_def run_now t1_seconds_def t2_seconds_def
        zero_info_def split: if_splits prod.splits)
qed

declare client_step.simps [simp del]

text \<open>The documented contract of \<open>std::uniform_int_distribution\<close>.\<close>

definition random_in_range :: "kernel \<Rightarrow> bool" where
  "random_in_range k \<longleftrightarrow> (\<forall>t. \<bar>ret (k (t @ [RandomInt (-1000) 1000]))\<bar> \<le> 1000)"


lemma of_int_adjust:
  assumes "t \<in> {4000, 8000, 16000, 32000, 64000}" "-1000 \<le> a" "a \<le> 1000"
  shows "\<not> (a < 0 \<and> of_int (- a) > (t :: u32))"
    and "uint (t + of_int a) = uint t + a"
proof -
  have t: "4000 \<le> uint t" "uint t \<le> 64000" using assms(1) by auto
  have "uint (of_int (- a) :: u32) = - a" if "a < 0"
    using that assms(2) by (simp add: unsigned_of_int take_bit_int_eq_self del: of_int_minus)
  then show "\<not> (a < 0 \<and> of_int (- a) > t)"
    using t assms(2) by (auto simp: word_less_alt simp del: of_int_minus)
  have "uint (t + of_int a) = (uint t + a) mod 2 ^ 32"
    by (simp add: uint_word_ariths unsigned_of_int take_bit_eq_mod mod_simps)
  then show "uint (t + of_int a) = uint t + a"
    using t assms(2,3) by simp
qed

lemma polling_timeouts:
  assumes inv: "client_inv (Evaluate, c)" and r: "random_in_range k"
    and s: "run_state (client_step k Evaluate) c = (Polling timeout, c')"
  shows "if mFuzzNextTimeout c'
    then mNextTimeout c' \<in> {4000, 8000, 16000, 32000, 64000} \<and>
      \<bar>uint timeout - uint (mNextTimeout c')\<bar> \<le> 1000
    else mState c' = Bound \<and> timeout = mNextTimeout c'"
proof -
  from s obtain c1 where w: "run_state (begin_wait k) c1 = (Polling timeout, c')"
    and c1: "c' = c1\<lparr>calls := calls c'\<rparr>" by (rule step_Evaluate)
  have eq: "mNextTimeout c' = mNextTimeout c1" "mFuzzNextTimeout c' = mFuzzNextTimeout c1"
    by (subst c1, simp)+
  have inv': "client_inv (Polling timeout, c')"
    using client_inv_step [OF inv s] .
  show ?thesis
  proof (cases "mFuzzNextTimeout c'")
    case True
    then have t: "mNextTimeout c1 \<in> {4000, 8000, 16000, 32000, 64000}"
      using inv' eq by (auto simp: client_inv_def)
    define a where "a = ret (k (calls c1 @ [RandomInt (-1000) 1000]))"
    have a: "-1000 \<le> a" "a \<le> 1000"
      using r [unfolded random_in_range_def, rule_format, of "calls c1"] by (auto simp: a_def)
    have timeout: "timeout = (if a < 0 \<and> of_int (- a) > mNextTimeout c1 then 0
        else mNextTimeout c1 + of_int a)"
      using w True eq(2)
      by (auto simp: begin_wait_def calculateTimeoutMillis_def kTimeoutSpan_def Let_def a_def
          split: if_splits)
    note adj = of_int_adjust [OF t a]
    have "uint timeout = uint (mNextTimeout c1) + a"
      using adj timeout by auto
    then show ?thesis
      using True t eq a by simp
  next
    case False
    then show ?thesis
      using w eq inv' by (auto simp: begin_wait_def calculateTimeoutMillis_def client_inv_def split: if_splits)
  qed
qed


text \<open>The memory of a new client in the examples: a device with a MAC address, counter at 7.\<close>

definition demo_memory :: client where
  "demo_memory = \<lparr>mOptions = 0, mDhcpInfo = zero_info, mRouter = Router_new,
     mInterface = Interface_new 2 [2, 0, 0, 0, 0, 1], mLastMsg = Message_empty, mT1 = 0, mT2 = 0,
     mSocket = Socket_new, mState = Init, mNextTimeout = 0, mFuzzNextTimeout = False,
     mRequestAddress = 0, mServerAddress = 0, nextXid = 7, calls = []\<rparr>"

text \<open>A system that acknowledges the address of the new client and is silent then; its first two steps.\<close>

definition demo_system :: kernel where
  "demo_system t = (case last t of Recv fd \<Rightarrow> idle_answer\<lparr>data := replicate 16 0\<rparr> | _ \<Rightarrow> idle_answer)"

lemma demo_client:
  obtains c where "client_main demo_system [''dhcpclient'', ''-i'', ''eth0''] g = Inr c"
proof -
  have "\<exists>c. client_main demo_system [''dhcpclient'', ''-i'', ''eth0''] g = Inr c"
    by (simp add: client_main_def client_run_start_def client_init_def Interface_init_def populateIndex_def
        populateMacAddress_def bringUp_def setInterfaceUp_def setAddress_def address_response_def Router_init_def
        Socket_open_def Socket_bindRaw_def Socket_bind_def on_success_def DhcpClient_new_def Interface_new_def
        Socket_new_def demo_system_def idle_answer_def le16_def NLMSG_HDRLEN_def NLMSG_ERROR_def Let_def
        split: prod.splits)
  then show thesis using that by blast
qed

lemma demo_steps:
  obtains c0 c1 c2 where "client_main demo_system [''dhcpclient'', ''-i'', ''eth0''] g = Inr c0"
    and "client_reaches demo_system c0 (Polling 4000) c2"
    and "mState c2 = Selecting" and "nextXid c2 = nextXid g + 1"
    and "client_reaches demo_system c0 Evaluate c1"
    and "run_state (client_step demo_system Evaluate) c1 = (Polling 4000, c2)"
proof -
  obtain c0 where c0: "client_main demo_system [''dhcpclient'', ''-i'', ''eth0''] g = Inr c0" by (rule demo_client)
  note f = client_main_fields [OF c0]
  obtain p1 c1 where 1: "run_state (client_step demo_system Evaluate) c0 = (p1, c1)" by force
  then have c1: "p1 = Evaluate" "c1 = setNextState Selecting c0"
    by (auto simp: client_step.simps evaluate_def begin_wait_def f setNextState_def)
  obtain p2 c2 where 2: "run_state (client_step demo_system Evaluate) c1 = (p2, c2)" by force
  then have c2: "p2 = Polling 4000" "mState c2 = Selecting" "nextXid c2 = nextXid g + 1"
    by (auto simp: client_step.simps c1 evaluate_def begin_wait_def run_sendDhcpDiscover setNextState_def
        increaseTimeout_def next_timeout_def client_consts calculateTimeoutMillis_def f
        demo_system_def idle_answer_def discover_def Message_new_def Let_def)
  have "client_next demo_system (Evaluate, c0) (Evaluate, c1)" "client_next demo_system (Evaluate, c1) (Polling 4000, c2)"
    using 1 2 c1(1) c2(1) by (simp_all add: client_next_def)
  then have "client_reaches demo_system c0 Evaluate c1" "client_reaches demo_system c0 (Polling 4000) c2"
    by (auto simp: client_reaches_def)
  then show thesis
    using that [of c0 c2 c1] c0 c2 2 by blast
qed

section \<open>Properties\<close>

text \<open>
  C3. A step of the client that changes its state moves along an edge of RFC 2131's diagram, leads
  to an immediate evaluation of the new state, and has its reason: Selecting follows the initial
  state; Requesting an accepted offer, whose server and address the client keeps; Bound an accepted
  acknowledgement with a lease time that was applied to the interface, the system having
  acknowledged the address; Renewing the expiry of T1 and Rebinding that of T2, by the clock at this
  step; Init a negative acknowledgement or the longest timeout while Requesting or Rebinding.  And
  an evaluation moves whenever there is its reason: a timer that has expired is never missed.
\<close>

theorem client_moves:
  assumes "run_state (client_step k p) c = (p', c')"
  shows "(mState c' \<noteq> mState c \<longrightarrow>
      edge (mState c) (mState c') \<and> p' = Evaluate \<and> mNextTimeout c' = 0 \<and> moved_by k p c c') \<and>
    (p = Evaluate \<longrightarrow> (mState c' \<noteq> mState c \<longleftrightarrow> due k c))"
  using client_moves_facts [OF assms] step_due assms by blast

text \<open>A bound client whose first timer has expired, and one whose timer has not.\<close>

theorem client_moves_witness:
  "\<exists>p' c1 q c2.
     run_state (client_step (\<lambda>t. idle_answer) Evaluate) (setNextState Bound (DhcpClient_new 0 demo_memory)) = (p', c1) \<and>
     mState c1 = Renewing \<and> p' = Evaluate \<and>
     run_state (client_step (\<lambda>t. idle_answer) Evaluate) ((setNextState Bound (DhcpClient_new 0 demo_memory))\<lparr>mT1 := 5\<rparr>) = (q, c2) \<and>
     mState c2 = Bound"
proof -
  let ?k = "\<lambda>t :: trace. idle_answer" and ?b = "setNextState Bound (DhcpClient_new 0 demo_memory)"
  obtain p' c1 where r1: "run_state (client_step ?k Evaluate) ?b = (p', c1)" by force
  obtain q c2 where r2: "run_state (client_step ?k Evaluate) (?b\<lparr>mT1 := 5\<rparr>) = (q, c2)" by force
  have "due ?k ?b" "\<not> due ?k (?b\<lparr>mT1 := 5\<rparr>)"
    by (simp_all add: due_def setNextState_def DhcpClient_new_def millis_def now_def idle_answer_def)
  moreover have "mState ?b = Bound" by (simp add: setNextState_def)
  ultimately have "mState c1 \<noteq> Bound" "mState c2 = Bound" "p' = Evaluate" "edge Bound (mState c1)"
    using client_moves [OF r1] client_moves [OF r2] by (simp_all add: setNextState_def)
  with r1 r2 show ?thesis by (intro exI [of _ p'] exI [of _ c1] exI [of _ q] exI [of _ c2]) simp
qed

text \<open>
  C18. Whatever arrives at a polling client, unless it is a valid reply with the transaction id of
  the last message the client sent, in a UDP datagram to its port, changes nothing but the trace
  of calls.
\<close>

theorem stray_datagrams_ignored:
  assumes "run_state (client_step k (Polling timeout)) c = (p', c')"
  shows "c' = c\<lparr>calls := calls c'\<rparr> \<or>
    (\<exists>msg. accepted k c (Polling timeout) msg \<and>
       isValidDhcpMessageXid msg OP_BOOTREPLY (xid (dhcp (mLastMsg c))))"
  using poll_turn_cases [of k timeout c p' c'] assms accepted_valid by (auto simp: client_step.simps)

theorem stray_datagrams_ignored_witness:
  "\<exists>p' c'. run_state (client_step (\<lambda>t. idle_answer) (Polling 4000)) (DhcpClient_new 0 demo_memory) = (p', c') \<and>
     c' = (DhcpClient_new 0 demo_memory)\<lparr>calls := calls c'\<rparr>"
proof -
  obtain p' c' where r: "run_state (client_step (\<lambda>t. idle_answer) (Polling 4000)) (DhcpClient_new 0 demo_memory) = (p', c')"
    by force
  have "\<not> accepted (\<lambda>t. idle_answer) (DhcpClient_new 0 demo_memory) (Polling 4000) msg" for msg
    by (simp add: accepted_def idle_answer_def)
  then show ?thesis using stray_datagrams_ignored [OF r] r by blast
qed

text \<open>
  C17. Whenever the client \<open>main\<close> starts polls it is not in the initial state, and the last message
  it sent is the question of its state: a discover while Selecting, a request for the address of the
  offer, to the server of the offer while Requesting and Renewing and to any server while Rebinding,
  one of these two requests when it is bound, with the transaction id before the counter's.  Sent
  means handed to \<open>sendmsg\<close>, as the last datagram of the trace, from port 68 of no address to port
  67 of the broadcast address through the client's interface.
\<close>

theorem polls_for_its_question:
  assumes "client_main k argv g = Inr c0" and "client_reaches k c0 (Polling timeout) c"
  shows "mState c \<noteq> Init \<and> mNextTimeout c \<noteq> 0 \<and> mLastMsg c \<in> asked c \<and>
    (\<exists>earlier. filter is_send (calls c) = earlier @
       [SendMsg (mSocketFd (mSocket c))
          (SockaddrLl (htons ETH_P_IP) (mIndex (mInterface c)) (replicate ETH_ALEN 0xFF)) 0
          (rawUdp_packet 0 68 0xFFFFFFFF 67 (mLastMsg c))])"
  using client.along [OF _ client_main_inv [OF assms(1)]] assms(2)
  unfolding client_reaches_def
  by (fastforce simp: client_inv_def asking_def sent_calls_def broadcast_call_def)

theorem polls_for_its_question_witness:
  "\<exists>c0 timeout c. client_main demo_system [''dhcpclient'', ''-i'', ''eth0''] demo_memory = Inr c0 \<and>
     client_reaches demo_system c0 (Polling timeout) c \<and>
     mLastMsg c = fst (discover (mMacAddress (mInterface c)) (nextXid demo_memory)) \<and>
     filter is_send (calls c) \<noteq> []"
proof -
  obtain c0 c where c0: "client_main demo_system [''dhcpclient'', ''-i'', ''eth0''] demo_memory = Inr c0"
    and r: "client_reaches demo_system c0 (Polling 4000) c" "mState c = Selecting" "nextXid c = nextXid demo_memory + 1"
    by (rule demo_steps)
  from polls_for_its_question [OF c0 r(1)] show ?thesis
    using c0 r by (intro exI [of _ c0] exI [of _ 4000] exI [of _ c]) (auto simp: asked_def Let_def)
qed

text \<open>
  C16. The timeouts of the client \<open>main\<close> starts: a fuzzed one has a base of 4, 8, 16, 32 or 64 seconds (RFC
  2131, 4.1) and what it polls for differs from the base by at most a second, so the sum in
  \<open>calculateTimeoutMillis\<close> never wraps around; only a bound client waits without fuzz.
\<close>

theorem poll_timeouts:
  assumes "client_main k argv g = Inr c0" and "client_reaches k c0 Evaluate c" and "random_in_range k"
    and "run_state (client_step k Evaluate) c = (Polling timeout, c')"
  shows "if mFuzzNextTimeout c'
    then mNextTimeout c' \<in> {4000, 8000, 16000, 32000, 64000} \<and>
      \<bar>uint timeout - uint (mNextTimeout c')\<bar> \<le> 1000
    else mState c' = Bound \<and> timeout = mNextTimeout c'"
  by (rule polling_timeouts [OF client.along [OF assms(2) [unfolded client_reaches_def] client_main_inv [OF assms(1)]]
        assms(3,4)])

theorem poll_timeouts_witness:
  "\<exists>timeout c c'. run_state (client_step demo_system Evaluate) c = (Polling timeout, c') \<and>
     mState c' = Selecting \<and> \<bar>uint timeout - uint (mNextTimeout c')\<bar> \<le> 1000"
proof -
  obtain c0 c c' where c0: "client_main demo_system [''dhcpclient'', ''-i'', ''eth0''] demo_memory = Inr c0"
    and r: "client_reaches demo_system c0 Evaluate c"
    "run_state (client_step demo_system Evaluate) c = (Polling 4000, c')"
    "mState c' = Selecting" by (rule demo_steps)
  have "random_in_range demo_system"
    by (simp add: random_in_range_def demo_system_def idle_answer_def)
  from poll_timeouts [OF c0 r(1) this r(2)] show ?thesis
    using r by (intro exI [of _ 4000] exI [of _ c] exI [of _ c']) (auto split: if_splits)
qed

text \<open>
  C11. A client whose requests nobody answers sends exactly five of them (with timeouts of 4, 8, 16,
  32 and 64 seconds) and is back in the initial state, to be evaluated at once: Requesting and
  Rebinding end.
\<close>

theorem silent_server_ends_requesting:
  assumes "silent k" and "mState c \<in> {Requesting, Rebinding}" and "mNextTimeout c = 0"
  shows "\<exists>c'. client_run k 11 (Evaluate, c) = (Evaluate, c') \<and> mState c' = Init \<and>
    mNextTimeout c' = 0 \<and> sends c' = sends c + 5"
  by (rule silent_gives_up [OF assms])

theorem silent_server_ends_requesting_witness:
  "\<exists>c'. client_run (\<lambda>t. idle_answer) 11
     (Evaluate, setNextState Requesting (DhcpClient_new 0 demo_memory)\<lparr>calls := []\<rparr>) = (Evaluate, c') \<and>
     mState c' = Init \<and> sends c' = 5"
  using silent_server_ends_requesting [of "\<lambda>t. idle_answer"
      "setNextState Requesting (DhcpClient_new 0 demo_memory)\<lparr>calls := []\<rparr>"]
  by (auto simp: silent_def idle_answer_def setNextState_def kNoTimeout_def sends_def)

text \<open>
  However often a wait is interrupted (a stray message, a failed poll), its deadline stays the
  same: a turn of the loop that goes on has as much time left as the deadline is away, on a clock
  that does not run backwards.
\<close>

theorem poll_deadline_fixed:
  assumes "run_state (client_step k (Polling timeout)) c = (Polling timeout', c')"
    and "start = millis k (calls c)" and "current = millis k (butlast (calls c'))"
    and "start \<le> current" and "unat start + unat timeout < 2 ^ 64"
  shows "unat current + unat timeout' = unat start + unat timeout \<and> timeout' \<le> timeout"
proof -
  have cur: "current < start + ucast timeout" "timeout' = ucast (start + ucast timeout - current)"
    using poll_turn_continues [of k timeout c timeout' c'] assms(1-3) by (auto simp: client_step.simps)
  have u: "unat (start + ucast timeout) = unat start + unat timeout"
    using assms(5) by (simp add: unat_word_ariths unsigned_ucast_eq take_bit_nat_eq_self)
  have "unat current < unat start + unat timeout" "unat start \<le> unat current"
    using cur(1) assms(4) u by (simp_all add: word_less_nat_alt word_le_nat_alt)
  moreover have "unat (start + ucast timeout - current) = unat start + unat timeout - unat current"
    using cur(1) u by (simp add: unat_sub less_imp_le)
  moreover have "unat timeout < 2 ^ 32" using unsigned_less [of timeout] by simp
  ultimately show ?thesis
    by (simp add: cur(2) unsigned_ucast_eq take_bit_nat_eq_self word_le_nat_alt)
qed

theorem poll_deadline_fixed_witness:
  "\<exists>timeout' c'. run_state (client_step (\<lambda>t. idle_answer\<lparr>ret := -1\<rparr>) (Polling 4000)) demo_memory =
     (Polling timeout', c') \<and> timeout' \<le> 4000"
proof -
  have "\<exists>c'. run_state (client_step (\<lambda>t. idle_answer\<lparr>ret := -1\<rparr>) (Polling 4000)) demo_memory = (Polling 4000, c')"
    by (simp add: client_step.simps poll_turn_def now_def idle_answer_def Let_def)
  then obtain c' where r: "run_state (client_step (\<lambda>t. idle_answer\<lparr>ret := -1\<rparr>) (Polling 4000)) demo_memory =
      (Polling 4000, c')" by blast
  have "millis (\<lambda>t. idle_answer\<lparr>ret := -1\<rparr>) t = 0" for t
    by (simp add: millis_def now_def idle_answer_def)
  then show ?thesis using poll_deadline_fixed [OF r refl refl] r by auto
qed

text \<open>
  The renewal times of a lease without T1 and T2 are a half and seven eighths of it, and in
  order, for every lease of up to 613566756 seconds (19 years).
\<close>

theorem default_renewal_times:
  assumes "t1 info = 0" and "t2 info = 0" and "leaseTime info \<le> 613566756"
  shows "unat (t1_seconds info) = unat (leaseTime info) div 2 \<and>
    unat (t2_seconds info) = 7 * unat (leaseTime info) div 8 \<and>
    t1_seconds info \<le> t2_seconds info \<and> t2_seconds info \<le> leaseTime info"
proof -
  have "unat (t1_seconds info) = unat (leaseTime info) div 2"
    "unat (t2_seconds info) = 7 * unat (leaseTime info) div 8"
    using assms t2_default [OF assms(3)]
    by (simp_all add: t1_seconds_def t2_seconds_def unat_div2)
  moreover have "n div 2 \<le> 7 * n div 8 \<and> 7 * n div 8 \<le> n" for n :: nat
    by linarith
  ultimately show ?thesis by (simp only: word_le_nat_alt)
qed

theorem default_renewal_times_witness:
  "unat (t2_seconds (zero_info\<lparr>leaseTime := 600\<rparr>)) = 525"
  using default_renewal_times [of "zero_info\<lparr>leaseTime := 600\<rparr>"]
  by (simp add: zero_info_def)

text \<open>
  C19. What the client makes of an acknowledgement of this repository's server: exactly the address,
  netmask, gateway, server and (up to four) name servers it was built from, applied to the
  interface when it succeeds; but a lease of 0x58020000 seconds instead of 600, and so a T1 of 738263040
  seconds and a T2 of 218218496, the product in 32 bits having overflowed.
\<close>

theorem ack_configures_client:
  assumes "length ds \<le> 63" and "run_state (configureDhcp k (fst (ack src s a nm gw ds x))) c = (ok, c')"
  shows "mDhcpInfo c' = zero_info\<lparr>leaseTime := 0x58020000, subnetMask := nm, gateway := gw,
      dns := take 4 (ds @ [0, 0, 0, 0]), info_serverId := s, offeredAddress := a\<rparr> \<and>
    mT1 c' = millis k (calls c) + 738263040 * 1000 \<and>
    mT2 c' = millis k (calls c @ [ClockGettime]) + 218218496 * 1000 \<and>
    (\<not> ok \<or> configured_with k c' (calls c'))"
  using ack_configures [OF assms(1) refl assms(2)] configureDhcp_ok(1) assms(2) by (cases ok) auto

theorem ack_configures_client_witness:
  "\<exists>ok c'. run_state (configureDhcp (\<lambda>t. idle_answer) (fst (ack Message_empty 1 2 3 4 [5] 6))) demo_memory = (ok, c') \<and>
     gateway (mDhcpInfo c') = 4 \<and> dns (mDhcpInfo c') = [5, 0, 0, 0] \<and>
     leaseTime (mDhcpInfo c') = 0x58020000"
proof -
  obtain ok c' where r: "run_state (configureDhcp (\<lambda>t. idle_answer) (fst (ack Message_empty 1 2 3 4 [5] 6))) demo_memory =
      (ok, c')" by force
  then show ?thesis
    using ack_configures_client [OF _ r] by (simp add: zero_info_def)
qed

text \<open>
  When T2 is not after T1 (as with the lease of the repository's own server) a bound client
  whose T1 has passed goes through Renewing to Rebinding without sending a single request to
  its server.
\<close>

theorem late_t1_skips_renewing:
  assumes "mState c = Bound" and "mT2 c \<le> mT1 c"
    and "mT1 c \<le> millis k (calls c)" and "millis k (calls c) \<le> millis k (calls c @ [ClockGettime])"
  shows "\<exists>c'. client_run k 2 (Evaluate, c) = (Evaluate, c') \<and> mState c' = Rebinding \<and>
    sends c' = sends c"
proof -
  have "mT2 c \<le> millis k (calls c @ [ClockGettime])"
    using assms(2-4) by (meson order_trans)
  then show ?thesis
    using assms
    by (simp add: numeral_2_eq_2 client_run.simps client_step.simps evaluate_def begin_wait_def
        expired_def run_now setNextState_def kNoTimeout_def sends_def is_send_def)
qed

theorem late_t1_skips_renewing_witness:
  "\<exists>c'. client_run (\<lambda>t. idle_answer) 2 (Evaluate, setNextState Bound (DhcpClient_new 0 demo_memory)) =
     (Evaluate, c') \<and> mState c' = Rebinding"
  using late_t1_skips_renewing [of "setNextState Bound (DhcpClient_new 0 demo_memory)" "\<lambda>t. idle_answer"]
  by (auto simp: setNextState_def DhcpClient_new_def millis_def now_def idle_answer_def)

end
