(* ===== verification/HashTable.thy ===== *)
theory HashTable
  imports Prelude
begin

text \<open>
  The hash tables of the standard library (\<open>std::unordered_map\<close> and \<open>std::unordered_set\<close>) as lists of
  buckets, with the hash and the equality the code gives them.  They are maps, whatever the hash and
  the number of buckets, under the law of the locale \<open>hashed\<close>; the components that use such a
  container interpret it with their own functions and then use maps and sets.
\<close>

type_synonym ('k, 'v) table = "('k \<times> 'v) list list"

fun chain_find :: "('k \<Rightarrow> 'k \<Rightarrow> bool) \<Rightarrow> 'k \<Rightarrow> ('k \<times> 'v) list \<Rightarrow> 'v option" where
  "chain_find eq k [] = None"
| "chain_find eq k ((k', v) # c) = (if eq k' k then Some v else chain_find eq k c)"

fun chain_put :: "('k \<Rightarrow> 'k \<Rightarrow> bool) \<Rightarrow> 'k \<Rightarrow> 'v \<Rightarrow> ('k \<times> 'v) list \<Rightarrow> ('k \<times> 'v) list" where
  "chain_put eq k v [] = [(k, v)]"
| "chain_put eq k v ((k', w) # c) = (if eq k' k then (k', v) # c else (k', w) # chain_put eq k v c)"

definition bucket :: "('k \<Rightarrow> int) \<Rightarrow> ('k, 'v) table \<Rightarrow> 'k \<Rightarrow> nat" where
  "bucket hash t k = nat (hash k mod int (length t))"

definition table_find :: "('k \<Rightarrow> 'k \<Rightarrow> bool) \<Rightarrow> ('k \<Rightarrow> int) \<Rightarrow> ('k, 'v) table \<Rightarrow> 'k \<Rightarrow> 'v option" where
  "table_find eq hash t k = chain_find eq k (t ! bucket hash t k)"

definition table_put :: "('k \<Rightarrow> 'k \<Rightarrow> bool) \<Rightarrow> ('k \<Rightarrow> int) \<Rightarrow> 'k \<Rightarrow> 'v \<Rightarrow> ('k, 'v) table \<Rightarrow> ('k, 'v) table" where
  "table_put eq hash k v t = t[bucket hash t k := chain_put eq k v (t ! bucket hash t k)]"

lemma bucket_less: "t \<noteq> [] \<Longrightarrow> bucket hash t k < length t"
  by (simp add: bucket_def nat_less_iff)

lemma bucket_put [simp]: "bucket hash (table_put eq hash' k v t) = bucket hash t"
  by (simp add: fun_eq_iff bucket_def table_put_def)

locale hashed =
  fixes eq :: "'k \<Rightarrow> 'k \<Rightarrow> bool"
    and hash :: "'k \<Rightarrow> int"
  assumes eq_refl: "eq x x"
    and eq_sym: "eq x y \<Longrightarrow> eq y x"
    and eq_trans: "eq x y \<Longrightarrow> eq y z \<Longrightarrow> eq x z"
    and eq_hash: "eq x y \<Longrightarrow> hash x = hash y"
begin

lemma eq_cong: "eq k k' \<Longrightarrow> eq x k = eq x k'" "eq k k' \<Longrightarrow> eq k x = eq k' x"
  using eq_sym eq_trans by blast+

lemma chain_find_put: "chain_find eq k' (chain_put eq k v c) = (if eq k k' then Some v else chain_find eq k' c)"
  by (induction c) (auto dest: eq_cong eq_sym)

lemma find_put:
  assumes "t \<noteq> []"
  shows "table_find eq hash (table_put eq hash k v t) k' = (if eq k k' then Some v else table_find eq hash t k')"
proof (cases "bucket hash t k = bucket hash t k'")
  case True
  with assms show ?thesis
    by (simp add: table_find_def bucket_less chain_find_put) (simp add: table_put_def bucket_less chain_find_put)
next
  case False
  then have "\<not> eq k k'" using eq_hash [of k k'] by (auto simp: bucket_def)
  with False show ?thesis by (simp add: table_find_def) (simp add: table_put_def)
qed

lemma find_equal: "eq k k' \<Longrightarrow> table_find eq hash t k = table_find eq hash t k'"
proof -
  assume e: "eq k k'"
  have "chain_find eq k c = chain_find eq k' c" for c :: "('k \<times> 'v) list"
    by (induction c) (use eq_cong(1) [OF e] in auto)
  with eq_hash [OF e] show "table_find eq hash t k = table_find eq hash t k'" by (simp add: table_find_def bucket_def)
qed

end

text \<open>An empty table, of any number of buckets, finds nothing.\<close>

lemma find_empty: "0 < n \<Longrightarrow> table_find eq hash (replicate n []) k = None"
  by (simp add: table_find_def bucket_def nat_less_iff)

end
