(* ===== verification/Server.thy ===== *)
theory Server
  imports DhcpSocket Interface HashTable
begin

text \<open>
  The DHCP server (\<open>wifi/dhcp/server/dhcpserver.cpp\<close>, \<open>lease.h\<close>, \<open>main.cpp\<close>).  The
  server is a machine whose step is one turn of the loop in \<open>run\<close>.  The allocation of addresses,
  the part of \<open>getOfferAddress\<close> behind the two queries of the interface, is a function of the
  two maps it keeps.
\<close>

section \<open>Addresses\<close>

text \<open>All three addresses in host byte order.\<close>

definition isValidHost :: "u32 \<Rightarrow> u32 \<Rightarrow> u32 \<Rightarrow> bool" where
  "isValidHost address interfaceAddress netmask =
     (let isNetworkAddress = (address AND NOT netmask = 0);
          isBroadcastAddress = (address AND NOT netmask = NOT netmask);
          isInterfaceAddress = (address = interfaceAddress)
      in \<not> isNetworkAddress \<and> \<not> isBroadcastAddress \<and> \<not> isInterfaceAddress)"

definition addressInRange :: "u32 \<Rightarrow> u32 \<Rightarrow> u32 \<Rightarrow> bool" where
  "addressInRange address interfaceAddress netmask =
     (if address \<le> interfaceAddress AND netmask then False
      else if address \<ge> interfaceAddress OR NOT netmask then False
      else True)"

text \<open>The loop that skips addresses no host can have; the address and the offset go together.\<close>

function next_host :: "u32 \<Rightarrow> u32 \<Rightarrow> u32 \<Rightarrow> u32 \<Rightarrow> u32 \<times> u32" where
  "next_host interfaceAddress nmask nextAddress offset =
     (if \<not> isValidHost nextAddress interfaceAddress nmask \<and>
         addressInRange nextAddress interfaceAddress nmask
      then next_host interfaceAddress nmask (nextAddress + 1) (offset + 1)
      else (nextAddress, offset))"
  by pat_completeness auto
termination
proof (relation "measure (\<lambda>(a, m, n, ofs). unat (a OR NOT m) - unat n)")
  fix a m n ofs :: u32
  assume "\<not> isValidHost n a m \<and> addressInRange n a m"
  then have n: "n < a OR NOT m"
    by (auto simp: addressInRange_def not_le split: if_splits)
  then have "unat (n + 1) = unat n + 1"
    using unsigned_less [of "a OR NOT m", where 'a = nat]
    by (simp add: unat_word_ariths word_less_nat_alt)
  with n show "((a, m, n + 1, ofs + 1), a, m, n, ofs)
      \<in> measure (\<lambda>(a, m, n, ofs). unat (a OR NOT m) - unat n)"
    by (simp add: word_less_nat_alt)
qed simp

declare next_host.simps [simp del]

section \<open>Leases\<close>

text \<open>
  \<open>struct Lease\<close> is the key of the map: an interface and a hardware address, compared by
  value.  \<open>operator[]\<close> of the maps creates a zero entry.
\<close>

type_synonym lease_key = "u32 \<times> bytes"
type_synonym leases = "lease_key \<rightharpoonup> u32"
type_synonym offsets = "u32 \<rightharpoonup> u32"

definition Lease :: "u32 \<Rightarrow> bytes \<Rightarrow> lease_key" where
  "Lease interfaceIndex macAddress = (interfaceIndex, take ETH_ALEN macAddress)"

text \<open>
  The map is an \<open>std::unordered_map\<close> with the hash and the equality of \<open>lease.h\<close>; \<open>h32\<close> and \<open>h16\<close> are
  the hashes of the standard library for the integers, \<open>size_t\<close> has 64 bits.
\<close>

definition hash_combine :: "('a \<Rightarrow> u64) \<Rightarrow> u64 \<Rightarrow> 'a \<Rightarrow> u64" where
  "hash_combine hasher seed value = seed XOR (hasher value + 0x9e3779b9 + push_bit 6 seed + drop_bit 2 seed)"

definition Lease_hash :: "(u32 \<Rightarrow> u64) \<Rightarrow> (u16 \<Rightarrow> u64) \<Rightarrow> lease_key \<Rightarrow> u64" where
  "Lease_hash h32 h16 lease =
     (let (interfaceIndex, mac) = lease;
          seed = hash_combine h32 0 interfaceIndex;
          seed = hash_combine h32 seed (le32 (mac ! 0) (mac ! 1) (mac ! 2) (mac ! 3))
      in hash_combine h16 seed (le16 (mac ! 4) (mac ! 5)))"

definition Lease_equal :: "lease_key \<Rightarrow> lease_key \<Rightarrow> bool" where
  "Lease_equal left right \<longleftrightarrow> fst left = fst right \<and> take ETH_ALEN (snd left) = take ETH_ALEN (snd right)"

lemma equal_leases_hash:
  assumes "Lease_equal x y"
  shows "Lease_hash h32 h16 x = Lease_hash h32 h16 y"
proof -
  have "snd x ! i = snd y ! i" if "i < 6" for i
    using assms that nth_take [of i 6] by (metis ETH_ALEN_def Lease_equal_def)
  with assms show ?thesis by (simp add: Lease_hash_def Lease_equal_def split_beta)
qed

interpretation lease: hashed Lease_equal "\<lambda>x. uint (Lease_hash h32 h16 x)" for h32 h16
  by unfold_locales (auto simp: Lease_equal_def intro!: arg_cong [of _ _ uint] equal_leases_hash)

text \<open>So the table of leases is a map whose keys are the interface and the six bytes of the address.\<close>

lemma lease_table_is_map:
  assumes "t \<noteq> []"
  shows "table_find Lease_equal (\<lambda>x. uint (Lease_hash h32 h16 x))
      (table_put Lease_equal (\<lambda>x. uint (Lease_hash h32 h16 x)) (Lease i mac) v t) (Lease j mac') =
    (if Lease i mac = Lease j mac' then Some v
     else table_find Lease_equal (\<lambda>x. uint (Lease_hash h32 h16 x)) t (Lease j mac'))"
  using lease.find_put [OF assms] by (simp add: Lease_equal_def Lease_def)

definition at_zero :: "('k \<rightharpoonup> u32) \<Rightarrow> 'k \<Rightarrow> u32" where
  "at_zero m x = (case m x of None \<Rightarrow> 0 | Some v \<Rightarrow> v)"

text \<open>
  \<open>getOfferAddress\<close> from the look up of the lease on, with the interface's address and mask in
  network byte order: the address (\<open>None\<close>: out of addresses) and the maps.
\<close>

definition lease_address ::
  "u32 \<Rightarrow> u32 \<Rightarrow> u32 \<Rightarrow> bytes \<Rightarrow> leases \<times> offsets \<Rightarrow> u32 option \<times> (leases \<times> offsets)" where
  "lease_address interfaceIndex interfaceAddress nmask macAddress maps =
     (let (mLeases, mNextAddressOffsets) = maps;
          key = Lease interfaceIndex macAddress;
          value = at_zero mLeases key;
          mLeases = mLeases(key \<mapsto> value)
      in if value = 0
         then
           let interfaceAddress = ntohl interfaceAddress;
               nmask = ntohl nmask;
               offset = at_zero mNextAddressOffsets interfaceIndex;
               offset = (if offset = 0 then offset + 1 else offset);
               nextAddress = (interfaceAddress AND nmask) + offset;
               (nextAddress, offset) = next_host interfaceAddress nmask nextAddress offset
           in if addressInRange nextAddress interfaceAddress nmask
              then (Some (htonl nextAddress),
                    (mLeases(key \<mapsto> htonl nextAddress),
                     mNextAddressOffsets(interfaceIndex \<mapsto> offset + 1)))
              else (None, (mLeases, mNextAddressOffsets(interfaceIndex \<mapsto> offset)))
         else (Some value, (mLeases, mNextAddressOffsets)))"

section \<open>The server\<close>

text \<open>
  \<open>serverXid\<close> is the static counter of the message class, \<open>rxMessage\<close> the local of
  \<open>run\<close> that every turn receives into, \<open>serverCalls\<close> the trace.
\<close>

record server =
  serverSocket :: socket
  mDnsServers :: "u32 list"
  mMaps :: "leases \<times> offsets"
  mExcludeInterface :: u32
  serverXid :: u32
  rxMessage :: message
  serverCalls :: trace

definition sio :: "(trace, 'a) state \<Rightarrow> (server, 'a) state" where
  "sio m = State (\<lambda>s. case run_state m (serverCalls s) of (x, t) \<Rightarrow> (x, s\<lparr>serverCalls := t\<rparr>))"

lemma run_sio [simp]:
  "run_state (sio m) s = (case run_state m (serverCalls s) of (x, t) \<Rightarrow> (x, s\<lparr>serverCalls := t\<rparr>))"
  by (simp add: sio_def)

definition smodify :: "(server \<Rightarrow> server) \<Rightarrow> (server, unit) state" where
  "smodify f = State (\<lambda>s. ((), f s))"

lemma run_smodify [simp]: "run_state (smodify f) s = ((), f s)"
  by (simp add: smodify_def)

definition DhcpServer_new :: "u32 \<Rightarrow> u32 \<Rightarrow> trace \<Rightarrow> server" where
  "DhcpServer_new excludeInterface nextXid t =
     \<lparr>serverSocket = Socket_new, mDnsServers = [], mMaps = (Map.empty, Map.empty),
      mExcludeInterface = excludeInterface, serverXid = nextXid, rxMessage = Message_empty,
      serverCalls = t\<rparr>"

definition AF_INET :: int where "AF_INET = 2"
definition SOCK_DGRAM_server :: int where "SOCK_DGRAM_server = 2"
definition SOL_SOCKET :: int where "SOL_SOCKET = 1"
definition SO_BROADCAST :: int where "SO_BROADCAST = 6"
definition SIOCGIFADDR :: int where "SIOCGIFADDR = 0x8915"
definition SIOCGIFNETMASK :: int where "SIOCGIFNETMASK = 0x891B"
definition kMaxDnsServers :: nat where "kMaxDnsServers = 4"
definition BROADCAST :: u32 where "BROADCAST = 0xFFFFFFFF"

definition server_init :: "kernel \<Rightarrow> (server, result) state" where
  "server_init k = do {
     s \<leftarrow> State_Monad.get;
     (res, sock) \<leftarrow> sio (Socket_open k AF_INET SOCK_DGRAM_server (uint IPPROTO_UDP) (serverSocket s));
     smodify (\<lambda>s. s\<lparr>serverSocket := sock\<rparr>);
     sio (on_success (State_Monad.return res)
         (on_success (Socket_enableOption k SOL_IP IP_PKTINFO sock)
           (on_success (Socket_enableOption k SOL_SOCKET SO_BROADCAST sock)
             (Socket_bindIp k 0 PORT_BOOTP_SERVER sock))))
   }"

subsection \<open>Name servers\<close>

text \<open>\<open>inet_pton\<close> for \<open>AF_INET\<close>: four decimal numbers below 256 without leading zeros.\<close>

fun split_dots :: "string \<Rightarrow> string \<Rightarrow> string list" where
  "split_dots [] acc = [rev acc]"
| "split_dots (c # cs) acc =
     (if c = CHR ''.'' then rev acc # split_dots cs [] else split_dots cs (c # acc))"

definition octet :: "string \<Rightarrow> nat option" where
  "octet s =
     (let digit = (\<lambda>c. of_char c - 48 :: nat);
          n = foldl (\<lambda>n c. 10 * n + digit c) 0 s
      in if s \<noteq> [] \<and> length s \<le> 3 \<and> list_all (\<lambda>c. 48 \<le> (of_char c :: nat) \<and> of_char c \<le> (57 :: nat)) s \<and>
            (length s = 1 \<or> hd s \<noteq> CHR ''0'') \<and> n < 256
         then Some n else None)"

definition inet_pton :: "string \<Rightarrow> u32 option" where
  "inet_pton s =
     (case map octet (split_dots s []) of
        [Some a, Some b, Some c, Some d] \<Rightarrow> Some (le32 (of_nat a) (of_nat b) (of_nat c) (of_nat d))
      | _ \<Rightarrow> None)"

definition dns_key :: "nat \<Rightarrow> string" where
  "dns_key i = ''net.eth0.dns'' @ [char_of (48 + i)]"

fun get_dns_servers :: "kernel \<Rightarrow> nat list \<Rightarrow> (trace, u32 list) state" where
  "get_dns_servers k [] = State_Monad.return []"
| "get_dns_servers k (i # is) = do {
     a \<leftarrow> sys k (PropertyGet (dns_key i));
     rest \<leftarrow> get_dns_servers k is;
     State_Monad.return
       (if ret a > 0
        then case inet_pton (text_data a) of Some address \<Rightarrow> address # rest | None \<Rightarrow> rest
        else rest)
   }"

definition updateDnsServers :: "kernel \<Rightarrow> (server, unit) state" where
  "updateDnsServers k = do {
     ds \<leftarrow> sio (get_dns_servers k [1..<kMaxDnsServers + 1]);
     smodify (\<lambda>s. s\<lparr>mDnsServers := ds\<rparr>)
   }"

subsection \<open>The interface's data\<close>

text \<open>A null pointer from \<open>if_indextoname\<close> is the return value 0.\<close>

definition getInterfaceData ::
  "kernel \<Rightarrow> u32 \<Rightarrow> int \<Rightarrow> socket \<Rightarrow> (trace, result + bytes) state" where
  "getInterfaceData k interfaceIndex type s = do {
     a \<leftarrow> sys k (IfIndexToName interfaceIndex);
     if ret a = 0
     then State_Monad.return (Inl (Error ''Failed to get interface name'' (Some (err a))))
     else do {
       let name = take (IFNAMSIZ - 1) (cstr (text_data a));
       let request = name @ replicate (IFNAMSIZ - length name) 0 @ bytes16 2 @
             replicate (sizeof_ifreq - IFNAMSIZ - 2) 0;
       r \<leftarrow> sys k (Ioctl (mSocketFd s) type request);
       State_Monad.return
         (if ret r = -1 then Inl (Error ''Failed to get data for interface'' (Some (err r)))
          else Inr (overlay (data r) request))
     }
   }"

text \<open>The address of a \<open>sockaddr_in\<close> lies at byte 4 of it, byte 20 of the \<open>ifreq\<close>.\<close>

definition interface_word :: "kernel \<Rightarrow> int \<Rightarrow> u32 \<Rightarrow> socket \<Rightarrow> (trace, result + u32) state" where
  "interface_word k type interfaceIndex s = do {
     res \<leftarrow> getInterfaceData k interfaceIndex type s;
     State_Monad.return
       (case res of
          Inl e \<Rightarrow> Inl e
        | Inr response \<Rightarrow>
            Inr (le32 (response ! 20) (response ! 21) (response ! 22) (response ! 23)))
   }"

definition getInterfaceAddress :: "kernel \<Rightarrow> u32 \<Rightarrow> socket \<Rightarrow> (trace, result + u32) state" where
  "getInterfaceAddress k = interface_word k SIOCGIFADDR"

definition getInterfaceNetmask :: "kernel \<Rightarrow> u32 \<Rightarrow> socket \<Rightarrow> (trace, result + u32) state" where
  "getInterfaceNetmask k = interface_word k SIOCGIFNETMASK"

subsection \<open>Offers\<close>

text \<open>The three output parameters of \<open>getOfferAddress\<close>: address, netmask, gateway.\<close>

definition getOfferAddress ::
  "kernel \<Rightarrow> u32 \<Rightarrow> bytes \<Rightarrow> (server, result + u32 \<times> u32 \<times> u32) state" where
  "getOfferAddress k interfaceIndex macAddress = do {
     s \<leftarrow> State_Monad.get;
     res \<leftarrow> sio (getInterfaceAddress k interfaceIndex (serverSocket s));
     (case res of
        Inl e \<Rightarrow> State_Monad.return (Inl e)
      | Inr interfaceAddress \<Rightarrow> do {
          res \<leftarrow> sio (getInterfaceNetmask k interfaceIndex (serverSocket s));
          (case res of
             Inl e \<Rightarrow> State_Monad.return (Inl e)
           | Inr nmask \<Rightarrow> do {
               let (address, maps) =
                 lease_address interfaceIndex interfaceAddress nmask macAddress (mMaps s);
               smodify (\<lambda>s. s\<lparr>mMaps := maps\<rparr>);
               State_Monad.return
                 (case address of
                    None \<Rightarrow> Inl (Error ''DHCP server is out of addresses'' None)
                  | Some address \<Rightarrow> Inr (address, nmask, interfaceAddress))
             })
        })
   }"

definition server_sendMessage :: "kernel \<Rightarrow> u32 \<Rightarrow> message \<Rightarrow> (server, result) state" where
  "server_sendMessage k interfaceIndex message = do {
     s \<leftarrow> State_Monad.get;
     sio (sendOnInterface k interfaceIndex BROADCAST PORT_BOOTP_CLIENT message (serverSocket s))
   }"

text \<open>
  \<open>sendDhcpOffer\<close> and \<open>sendAck\<close> are the same but for the message they build.
\<close>

definition send_lease ::
  "(message \<Rightarrow> u32 \<Rightarrow> u32 \<Rightarrow> u32 \<Rightarrow> u32 \<Rightarrow> u32 list \<Rightarrow> u32 \<Rightarrow> message \<times> u32) \<Rightarrow>
   kernel \<Rightarrow> message \<Rightarrow> u32 \<Rightarrow> (server, unit) state" where
  "send_lease build k message interfaceIndex = do {
     updateDnsServers k;
     res \<leftarrow> getOfferAddress k interfaceIndex (chaddr (dhcp message));
     (case res of
        Inl e \<Rightarrow> State_Monad.return ()
      | Inr (offerAddress, netmask, gateway) \<Rightarrow> do {
          s \<leftarrow> State_Monad.get;
          res \<leftarrow> sio (getInterfaceAddress k interfaceIndex (serverSocket s));
          (case res of
             Inl e \<Rightarrow> State_Monad.return ()
           | Inr serverAddress \<Rightarrow> do {
               let (reply, xid') = build message serverAddress offerAddress netmask gateway
                     (mDnsServers s) (serverXid s);
               smodify (\<lambda>s. s\<lparr>serverXid := xid'\<rparr>);
               _ \<leftarrow> server_sendMessage k interfaceIndex reply;
               State_Monad.return ()
             })
        })
   }"

definition sendDhcpOffer :: "kernel \<Rightarrow> message \<Rightarrow> u32 \<Rightarrow> (server, unit) state" where
  "sendDhcpOffer = send_lease offer"

definition sendAck :: "kernel \<Rightarrow> message \<Rightarrow> u32 \<Rightarrow> (server, unit) state" where
  "sendAck = send_lease ack"

definition sendNack :: "kernel \<Rightarrow> message \<Rightarrow> u32 \<Rightarrow> (server, unit) state" where
  "sendNack k message interfaceIndex = do {
     s \<leftarrow> State_Monad.get;
     res \<leftarrow> sio (getInterfaceAddress k interfaceIndex (serverSocket s));
     (case res of
        Inl e \<Rightarrow> State_Monad.return ()
      | Inr serverAddress \<Rightarrow> do {
          let (reply, xid') = nack message serverAddress (serverXid s);
          smodify (\<lambda>s. s\<lparr>serverXid := xid'\<rparr>);
          _ \<leftarrow> server_sendMessage k interfaceIndex reply;
          State_Monad.return ()
        })
   }"

definition isValidDhcpRequest :: "kernel \<Rightarrow> message \<Rightarrow> u32 \<Rightarrow> (server, bool) state" where
  "isValidDhcpRequest k message interfaceIndex = do {
     res \<leftarrow> getOfferAddress k interfaceIndex (chaddr (dhcp message));
     State_Monad.return
       (case res of
          Inl e \<Rightarrow> False
        | Inr (offerAddress, netmask, gateway) \<Rightarrow> requestedIp message = offerAddress)
   }"

section \<open>The loop\<close>

definition server_dispatch :: "kernel \<Rightarrow> message \<Rightarrow> u32 \<Rightarrow> (server, unit) state" where
  "server_dispatch k message interfaceIndex =
     (if message_type message = DHCPDISCOVER then sendDhcpOffer k message interfaceIndex
      else if message_type message = DHCPREQUEST
      then do {
        valid \<leftarrow> isValidDhcpRequest k message interfaceIndex;
        if valid then sendAck k message interfaceIndex else sendNack k message interfaceIndex
      }
      else State_Monad.return ())"

text \<open>One turn; the result is what \<open>run\<close> returns when it does.\<close>

definition server_turn :: "kernel \<Rightarrow> (server, result option) state" where
  "server_turn k = do {
     s \<leftarrow> State_Monad.get;
     status \<leftarrow> sio (sys k (PpollForever (mSocketFd (serverSocket s))));
     if ret status < 0 then State_Monad.return (Some (Error ''Polling failed: '' (Some (err status))))
     else if ret status = 0 then State_Monad.return None
     else do {
       (res, message, interfaceIndex) \<leftarrow>
         sio (receiveFromInterface k (rxMessage s) 0 (serverSocket s));
       smodify (\<lambda>s. s\<lparr>rxMessage := message\<rparr>);
       if \<not> isSuccess res then State_Monad.return None
       else if interfaceIndex = 0 \<or> mExcludeInterface s = interfaceIndex
       then State_Monad.return None
       else if \<not> isValidDhcpMessage message OP_BOOTREQUEST then State_Monad.return None
       else do {
         server_dispatch k message interfaceIndex;
         State_Monad.return None
       }
     }
   }"

definition server_next :: "kernel \<Rightarrow> server \<Rightarrow> server \<Rightarrow> bool" where
  "server_next k s s' \<longleftrightarrow> run_state (server_turn k) s = (None, s')"

text \<open>The argument loop of \<open>main\<close>: the excluded interface, \<open>None\<close> for exit status 1.\<close>

fun server_args :: "kernel \<Rightarrow> string list \<Rightarrow> u32 \<Rightarrow> (trace, u32 option) state" where
  "server_args k [] excludeInterfaceIndex = State_Monad.return (Some excludeInterfaceIndex)"
| "server_args k (arg # args) excludeInterfaceIndex =
     (if arg = ''--exclude-interface''
      then case args of
             [] \<Rightarrow> State_Monad.return None
           | name # _ \<Rightarrow> do {
               a \<leftarrow> sys k (IfNameToIndex name);
               if (of_int (ret a) :: u32) = 0 then State_Monad.return None
               else server_args k args (of_int (ret a))
             }
      else server_args k args excludeInterfaceIndex)"

text \<open>What \<open>run\<close> does before its loop, and \<open>main\<close> up to the loop.\<close>

definition server_run_start :: "kernel \<Rightarrow> (server, result) state" where
  "server_run_start k = do {
     status \<leftarrow> sio (sys k SigSetMask);
     State_Monad.return
       (if ret status \<noteq> 0 then Error ''Unable to set signal mask: '' (Some (err status)) else Success)
   }"

definition server_main :: "kernel \<Rightarrow> string list \<Rightarrow> u32 \<Rightarrow> trace \<Rightarrow> int + server" where
  "server_main k argv nextXid t =
     (case run_state (server_args k (tl argv) 0) t of
        (None, t) \<Rightarrow> Inl 1
      | (Some excludeInterface, t) \<Rightarrow>
          (case run_state (server_init k) (DhcpServer_new excludeInterface nextXid t) of
             (res, s) \<Rightarrow>
               if \<not> isSuccess res then Inl 1
               else (case run_state (server_run_start k) s of
                       (res, s) \<Rightarrow> if isSuccess res then Inr s else Inl 1)))"

end
