(* ===== verification/Allocation.thy ===== *)
theory Allocation
  imports Server
begin

text \<open>
  The address allocation of the DHCP server: \<open>address_pool\<close> states what the server needs of
  whoever hands out addresses, and the two maps of the server with \<open>getOfferAddress\<close>'s
  search implement it for every interface whose address and mask do not change.
\<close>

section \<open>The search for the next host\<close>

lemma in_range_iff:
  "addressInRange x a m \<longleftrightarrow> unat (a AND m) < unat x \<and> unat x < unat (a OR NOT m)"
  by (auto simp: addressInRange_def word_less_nat_alt word_le_nat_alt)

lemma unat_succ: "unat (n :: u32) < unat (b :: u32) \<Longrightarrow> unat (n + 1) = unat n + 1"
  using unsigned_less [of b, where 'a = nat] by (simp add: unat_word_ariths)

text \<open>
  What the loop returns: it has advanced the address and the offset by the same number, over
  addresses no host can have, and stopped at a valid host address or outside the range.
\<close>

lemma next_host_spec:
  assumes "next_host a m n ofs = (n', ofs')"
  shows "\<exists>d. unat n' = unat n + d \<and> ofs' = ofs + of_nat d \<and>
    (\<forall>x. unat n \<le> unat x \<and> unat x < unat n' \<longrightarrow> \<not> isValidHost x a m) \<and>
    (addressInRange n' a m \<longrightarrow> isValidHost n' a m) \<and>
    (d = 0 \<or> unat n' \<le> unat (a OR NOT m))"
  using assms
proof (induction a m n ofs rule: next_host.induct)
  case (1 a m n ofs)
  show ?case
  proof (cases "\<not> isValidHost n a m \<and> addressInRange n a m")
    case False
    then show ?thesis using "1.prems" by (subst (asm) next_host.simps) (auto intro!: exI [of _ 0])
  next
    case True
    then have s: "unat (n + 1) = unat n + 1" and b: "unat n < unat (a OR NOT m)"
      using unat_succ by (auto simp: in_range_iff)
    from True "1.IH" [OF True] "1.prems" obtain d where d: "unat n' = unat (n + 1) + d"
      "ofs' = (ofs + 1) + of_nat d"
      "\<forall>x. unat (n + 1) \<le> unat x \<and> unat x < unat n' \<longrightarrow> \<not> isValidHost x a m"
      "addressInRange n' a m \<longrightarrow> isValidHost n' a m" "d = 0 \<or> unat n' \<le> unat (a OR NOT m)"
      by (subst (asm) next_host.simps) auto
    have "\<not> isValidHost x a m" if "unat n \<le> unat x" "unat x < unat n'" for x
    proof (cases "x = n")
      case False
      then have "unat n + 1 \<le> unat x" using that(1) by (simp add: word_unat_eq_iff)
      then show ?thesis using d(3) that(2) s by simp
    qed (use True in simp)
    then show ?thesis
      using d s b by (intro exI [of _ "Suc d"]) (auto simp: algebra_simps)
  qed
qed

section \<open>The interface of an address pool\<close>

text \<open>
  What a DHCP server needs from whoever hands out addresses: clients keep the address they have,
  no two hold the same one, an address is good when it is handed out, and there is an end only when
  every good address is held.
\<close>

locale address_pool =
  fixes alloc :: "'c \<Rightarrow> 's \<Rightarrow> 'v option \<times> 's"
    and key :: "'c \<Rightarrow> 'k"
    and held :: "'s \<Rightarrow> 'k \<Rightarrow> 'v option"
    and ok :: "'s \<Rightarrow> bool"
    and good :: "'v \<Rightarrow> bool"
  assumes ok_alloc: "ok s \<Longrightarrow> ok (snd (alloc c s))"
    and alloc_held: "ok s \<Longrightarrow> held (snd (alloc c s)) (key c) = fst (alloc c s)"
    and alloc_stable: "held s (key c) = Some v \<Longrightarrow> fst (alloc c s) = Some v"
    and alloc_frame: "held s (key c) \<noteq> None \<or> key c \<noteq> x \<Longrightarrow> held (snd (alloc c s)) x = held s x"
    and held_inj: "ok s \<Longrightarrow> held s x = Some v \<Longrightarrow> held s y = Some v \<Longrightarrow> x = y"
    and held_good: "ok s \<Longrightarrow> held s x = Some v \<Longrightarrow> good v"
    and exhausted: "ok s \<Longrightarrow> fst (alloc c s) = None \<Longrightarrow> good v \<Longrightarrow> \<exists>x. held s x = Some v"
begin

fun alloc_all :: "'c list \<Rightarrow> 's \<Rightarrow> 's" where
  "alloc_all [] s = s"
| "alloc_all (c # cs) s = alloc_all cs (snd (alloc c s))"

lemma ok_alloc_all: "ok s \<Longrightarrow> ok (alloc_all cs s)"
  by (induction cs arbitrary: s) (auto intro: ok_alloc)

lemma held_alloc: "held s x = Some v \<Longrightarrow> held (snd (alloc c s)) x = Some v"
  using alloc_frame [of s c x] by (cases "key c = x") auto

lemma held_alloc_all: "held s x = Some v \<Longrightarrow> held (alloc_all cs s) x = Some v"
  by (induction cs arbitrary: s) (auto intro: held_alloc)

text \<open>A client that got an address gets the same one whatever was allocated in between.\<close>

lemma alloc_again:
  assumes "ok s" "fst (alloc c s) = Some v"
  shows "fst (alloc c (alloc_all cs (snd (alloc c s)))) = Some v"
proof -
  have "held (snd (alloc c s)) (key c) = Some v"
    using assms by (simp add: alloc_held)
  from alloc_stable [OF held_alloc_all [OF this]] show ?thesis .
qed

text \<open>Two clients never get the same address.\<close>

lemma alloc_distinct:
  assumes "ok s" "fst (alloc c s) = Some v"
    and "fst (alloc c' (alloc_all cs (snd (alloc c s)))) = Some v'" and "key c \<noteq> key c'"
  shows "v \<noteq> v'"
proof
  let ?s1 = "snd (alloc c s)" let ?s2 = "alloc_all cs ?s1"
  assume "v = v'"
  have ok2: "ok ?s2" using assms(1) by (intro ok_alloc_all ok_alloc)
  then have "held (snd (alloc c' ?s2)) (key c') = Some v'"
    using assms(3) by (simp add: alloc_held)
  moreover have "held ?s1 (key c) = Some v"
    using assms(1,2) by (simp add: alloc_held)
  then have "held (snd (alloc c' ?s2)) (key c) = Some v"
    by (rule held_alloc [OF held_alloc_all])
  ultimately show False
    using held_inj [OF ok_alloc [OF ok2, of c']] assms(4) \<open>v = v'\<close> by metis
qed

end

section \<open>The server's maps are an address pool\<close>

text \<open>For one interface, with its address and mask in host byte order.\<close>

definition good_host :: "u32 \<Rightarrow> u32 \<Rightarrow> u32 \<Rightarrow> bool" where
  "good_host a m x \<longleftrightarrow> addressInRange x a m \<and> isValidHost x a m"

definition base_of :: "u32 \<Rightarrow> u32 \<Rightarrow> nat" where
  "base_of a m = unat (a AND m)"

definition top_of :: "u32 \<Rightarrow> u32 \<Rightarrow> nat" where
  "top_of a m = unat (a OR NOT m)"

lemma and_le_or: "base_of a m \<le> top_of a m"
proof -
  have "a AND m \<le> a" "a \<le> a OR NOT m"
    by (simp_all add: word_and_le2 le_word_or2)
  then show ?thesis by (simp add: base_of_def top_of_def word_le_nat_alt)
qed

definition first_free :: "u32 \<Rightarrow> u32 \<Rightarrow> u32 \<Rightarrow> u32 \<times> u32" where
  "first_free a m ofs =
     (let ofs = (if ofs = 0 then ofs + 1 else ofs) in next_host a m ((a AND m) + ofs) ofs)"

lemma in_range_nat: "addressInRange x a m \<longleftrightarrow> base_of a m < unat x \<and> unat x < top_of a m"
  by (simp add: in_range_iff base_of_def top_of_def)

lemma first_free_spec:
  assumes bound: "base_of a m + unat ofs \<le> max (base_of a m + 1) (top_of a m)"
    and ff: "first_free a m ofs = (n, ofs')"
  shows "addressInRange n a m \<Longrightarrow> good_host a m n \<and> unat n = base_of a m + unat ofs' \<and>
      unat (ofs' + 1) = unat ofs' + 1 \<and> base_of a m + unat ofs' < top_of a m"
    and "\<not> addressInRange n a m \<Longrightarrow> base_of a m + unat ofs' \<le> max (base_of a m + 1) (top_of a m)"
    and "unat ofs \<le> unat ofs'"
    and "good_host a m x \<Longrightarrow> unat x < base_of a m + unat ofs \<or>
      addressInRange n a m \<and> unat n \<le> unat x"
proof -
  define o1 where "o1 = (if ofs = 0 then 1 else ofs)"
  have uo1: "unat o1 = max 1 (unat ofs)"
    by (auto simp: o1_def max_def unat_eq_0 not_le dest: gr0_implies_Suc) 
  let ?n0 = "(a AND m) + o1"
  have nh: "next_host a m ?n0 o1 = (n, ofs')"
    using ff by (simp add: first_free_def o1_def Let_def split: if_splits)
  have lt: "base_of a m < 2 ^ 32" "top_of a m < 2 ^ 32"
    using unsigned_less [of "a AND m", where 'a = nat] unsigned_less [of "a OR NOT m", where 'a = nat]
    by (simp_all add: base_of_def top_of_def)
  from next_host_spec [OF nh] obtain d where d: "unat n = unat ?n0 + d" "ofs' = o1 + of_nat d"
    "\<And>x. unat ?n0 \<le> unat x \<Longrightarrow> unat x < unat n \<Longrightarrow> \<not> isValidHost x a m"
    "addressInRange n a m \<Longrightarrow> isValidHost n a m" "d = 0 \<or> unat n \<le> top_of a m"
    by (auto simp: top_of_def)
  have "(addressInRange n a m \<longrightarrow> good_host a m n \<and> unat n = base_of a m + unat ofs' \<and>
      unat (ofs' + 1) = unat ofs' + 1 \<and> base_of a m + unat ofs' < top_of a m) \<and>
    (\<not> addressInRange n a m \<longrightarrow> base_of a m + unat ofs' \<le> max (base_of a m + 1) (top_of a m)) \<and>
    unat ofs \<le> unat ofs' \<and>
    (good_host a m x \<longrightarrow> unat x < base_of a m + unat ofs \<or> addressInRange n a m \<and> unat n \<le> unat x)"
  proof (cases "base_of a m + unat o1 < 2 ^ 32")
    case True
    then have n0: "unat ?n0 = base_of a m + unat o1"
      by (simp add: base_of_def unat_word_ariths)
    have "base_of a m + unat o1 + d < 2 ^ 32"
      using d(1) n0 unsigned_less [of n, where 'a = nat] by simp
    then have o': "unat ofs' = unat o1 + d"
      by (simp add: d(2) unat_word_ariths unsigned_of_nat take_bit_nat_eq_self)
    have n: "unat n = base_of a m + unat ofs'" using d(1) n0 o' by simp
    have "unat (ofs' + 1) = unat ofs' + 1" if "base_of a m + unat ofs' < top_of a m"
      using that lt(2) by (simp add: unat_word_ariths)
    moreover have "unat x < base_of a m + unat ofs \<or> addressInRange n a m \<and> unat n \<le> unat x"
      if x: "good_host a m x"
    proof -
      have xr: "base_of a m < unat x" "unat x < top_of a m" and xv: "isValidHost x a m"
        using x by (auto simp: good_host_def in_range_nat)
      consider "unat x < unat ?n0" | "unat ?n0 \<le> unat x" "unat x < unat n" | "unat n \<le> unat x"
        by linarith
      then show ?thesis
      proof cases
        case 1
        then show ?thesis using xr(1) n0 uo1 by (cases "unat ofs = 0") auto
      next
        case 2
        then show ?thesis using d(3) xv by blast
      next
        case 3
        then show ?thesis using xr n uo1 o' by (auto simp: in_range_nat)
      qed
    qed
    ultimately show ?thesis
      using d(4,5) n o' uo1 bound by (auto simp: good_host_def in_range_nat max_def)
  next
    case False
    then have b: "base_of a m + 1 = 2 ^ 32" "unat o1 = 1"
      using bound lt uo1 by (auto simp: max_def split: if_splits)
    then have n0: "?n0 = 0"
      by (simp add: base_of_def word_unat_eq_iff unat_word_ariths)
    have none: "\<not> addressInRange y a m" for y
      using b(1) lt(2) by (auto simp: in_range_nat)
    then have "n = 0" "ofs' = o1"
      using nh n0 by (subst (asm) next_host.simps, simp)+
    then show ?thesis
      using none b uo1 by (auto simp: good_host_def)
  qed
  then show "addressInRange n a m \<Longrightarrow> good_host a m n \<and> unat n = base_of a m + unat ofs' \<and>
      unat (ofs' + 1) = unat ofs' + 1 \<and> base_of a m + unat ofs' < top_of a m"
    and "\<not> addressInRange n a m \<Longrightarrow> base_of a m + unat ofs' \<le> max (base_of a m + 1) (top_of a m)"
    and "unat ofs \<le> unat ofs'"
    and "good_host a m x \<Longrightarrow> unat x < base_of a m + unat ofs \<or>
      addressInRange n a m \<and> unat n \<le> unat x"
    by blast+
qed

text \<open>
  The lease of a hardware address on an interface, a zero entry being none; and the invariant of
  the maps for an interface with its address and mask in network byte order: the next offset is
  within the range, every address that was handed out is one a host can have and lies below it, no
  two clients hold the same one, and every such address below it is held.
\<close>

definition pool_held :: "u32 \<Rightarrow> leases \<times> offsets \<Rightarrow> bytes \<Rightarrow> u32 option" where
  "pool_held i maps mac =
     (let v = at_zero (fst maps) (i, mac) in if v = 0 then None else Some v)"

definition pool_ok :: "u32 \<Rightarrow> u32 \<Rightarrow> u32 \<Rightarrow> leases \<times> offsets \<Rightarrow> bool" where
  "pool_ok i addr nmask maps \<longleftrightarrow>
     (let a = ntohl addr; m = ntohl nmask; reach = base_of a m + unat (at_zero (snd maps) i)
      in reach \<le> max (base_of a m + 1) (top_of a m) \<and>
         (\<forall>mac v. pool_held i maps mac = Some v \<longrightarrow> good_host a m (ntohl v) \<and> unat (ntohl v) < reach) \<and>
         (\<forall>mac mac' v. pool_held i maps mac = Some v \<and> pool_held i maps mac' = Some v \<longrightarrow> mac = mac') \<and>
         (\<forall>x. good_host a m x \<and> unat x < reach \<longrightarrow> (\<exists>mac. pool_held i maps mac = Some (htonl x))))"

definition pool_good :: "u32 \<Rightarrow> u32 \<Rightarrow> u32 \<Rightarrow> bool" where
  "pool_good addr nmask v \<longleftrightarrow> good_host (ntohl addr) (ntohl nmask) (ntohl v)"

lemma at_zero_upd [simp]: "at_zero (m(x \<mapsto> v)) y = (if x = y then v else at_zero m y)"
  by (simp add: at_zero_def)

lemma lease_address_cases:
  obtains (held) v where "pool_held i maps (take ETH_ALEN mac) = Some v"
      "fst (lease_address i addr nmask mac maps) = Some v"
      "\<And>x. pool_held i (snd (lease_address i addr nmask mac maps)) x = pool_held i maps x"
      "\<And>j. at_zero (snd (snd (lease_address i addr nmask mac maps))) j = at_zero (snd maps) j"
  | (new) n ofs' where "pool_held i maps (take ETH_ALEN mac) = None"
      "first_free (ntohl addr) (ntohl nmask) (at_zero (snd maps) i) = (n, ofs')"
      "addressInRange n (ntohl addr) (ntohl nmask)"
      "fst (lease_address i addr nmask mac maps) = Some (htonl n)"
      "\<And>x. pool_held i (snd (lease_address i addr nmask mac maps)) x =
        (if x = take ETH_ALEN mac then (if n = 0 then None else Some (htonl n)) else pool_held i maps x)"
      "at_zero (snd (snd (lease_address i addr nmask mac maps))) i = ofs' + 1"
  | (full) n ofs' where "pool_held i maps (take ETH_ALEN mac) = None"
      "first_free (ntohl addr) (ntohl nmask) (at_zero (snd maps) i) = (n, ofs')"
      "\<not> addressInRange n (ntohl addr) (ntohl nmask)"
      "fst (lease_address i addr nmask mac maps) = None"
      "\<And>x. pool_held i (snd (lease_address i addr nmask mac maps)) x = pool_held i maps x"
      "at_zero (snd (snd (lease_address i addr nmask mac maps))) i = ofs'"
proof -
  obtain n ofs' where ff: "first_free (ntohl addr) (ntohl nmask) (at_zero (snd maps) i) = (n, ofs')"
    by force
  note nh = ff [unfolded first_free_def Let_def]
  show thesis
  proof (cases "at_zero (fst maps) (i, take ETH_ALEN mac) = 0")
    case False
    then show thesis
      by (intro held [of "at_zero (fst maps) (i, take ETH_ALEN mac)"])
        (auto simp: lease_address_def pool_held_def Lease_def Let_def split_beta)
  next
    case True
    then have none: "pool_held i maps (take ETH_ALEN mac) = None" by (simp add: pool_held_def)
    show thesis
    proof (cases "addressInRange n (ntohl addr) (ntohl nmask)")
      case r: True
      show thesis
        by (rule new [OF none ff r])
          (use True r nh in \<open>auto simp: lease_address_def pool_held_def Lease_def
             Let_def split_beta split: if_splits\<close>)
    next
      case r: False
      show thesis
        by (rule full [OF none ff r])
          (use True r nh in \<open>auto simp: lease_address_def pool_held_def Lease_def
             Let_def split_beta split: if_splits\<close>)
    qed
  qed
qed

lemma in_range_nonzero: "addressInRange n a m \<Longrightarrow> n \<noteq> 0"
  by (auto simp: in_range_nat)

lemma pool_ok_alloc:
  assumes "pool_ok i addr nmask maps"
  shows "pool_ok i addr nmask (snd (lease_address i addr nmask mac maps))"
  using lease_address_cases [of i maps mac addr nmask]
proof cases
  case (held v)
  with assms show ?thesis by (simp add: pool_ok_def Let_def)
next
  case (new n ofs')
  let ?a = "ntohl addr" let ?m = "ntohl nmask"
  note ok = assms [unfolded pool_ok_def Let_def]
  have bound: "base_of ?a ?m + unat (at_zero (snd maps) i) \<le> max (base_of ?a ?m + 1) (top_of ?a ?m)"
    using ok by blast
  note f = first_free_spec [OF bound new(2)]
  have n: "good_host ?a ?m n" "unat n = base_of ?a ?m + unat ofs'" "unat (ofs' + 1) = unat ofs' + 1"
    "base_of ?a ?m + unat ofs' < top_of ?a ?m" using f(1) new(3) by blast+
  have nz: "n \<noteq> 0" using in_range_nonzero new(3) by blast
  have fresh: "pool_held i maps x \<noteq> Some (htonl n)" for x
    using ok f(3) n(2) by fastforce
  have "\<exists>mac'. pool_held i (snd (lease_address i addr nmask mac maps)) mac' = Some (htonl x)"
    if x: "good_host ?a ?m x" "unat x < base_of ?a ?m + unat (ofs' + 1)" for x
  proof (cases "unat x < base_of ?a ?m + unat (at_zero (snd maps) i)")
    case True
    then obtain mac' where "pool_held i maps mac' = Some (htonl x)" using ok x(1) by blast
    then show ?thesis using new(1,5) by (metis option.distinct(1))
  next
    case False
    then have "unat n \<le> unat x" using f(4) [OF x(1)] by blast
    then have "x = n" using x(2) n by (simp add: word_unat_eq_iff)
    then show ?thesis using new(5) nz by auto
  qed
  moreover have "good_host ?a ?m (ntohl v) \<and> unat (ntohl v) < base_of ?a ?m + unat (ofs' + 1)"
    if "pool_held i (snd (lease_address i addr nmask mac maps)) mac' = Some v" for mac' v
    using that ok n f(3) nz unfolding new(5) by (fastforce split: if_splits)
  moreover have "mac1 = mac2"
    if "pool_held i (snd (lease_address i addr nmask mac maps)) mac1 = Some v"
      "pool_held i (snd (lease_address i addr nmask mac maps)) mac2 = Some v" for mac1 mac2 v
    using that ok fresh nz unfolding new(5) by (auto split: if_splits)
  ultimately show ?thesis
    using n unfolding pool_ok_def Let_def new(6) by auto
next
  case (full n ofs')
  note ok = assms [unfolded pool_ok_def Let_def]
  have bound: "base_of (ntohl addr) (ntohl nmask) + unat (at_zero (snd maps) i) \<le>
      max (base_of (ntohl addr) (ntohl nmask) + 1) (top_of (ntohl addr) (ntohl nmask))"
    using ok by blast
  note f = first_free_spec [OF bound full(2)]
  have "\<exists>mac. pool_held i maps mac = Some (htonl x)" if "good_host (ntohl addr) (ntohl nmask) x" for x
    using f(4) [OF that] full(3) ok that by blast
  then show ?thesis
    using ok f(2) [OF full(3)] f(3) unfolding pool_ok_def Let_def full(5,6) by fastforce
qed


interpretation pool: address_pool
    "lease_address i addr nmask" "take ETH_ALEN" "pool_held i" "pool_ok i addr nmask"
    "pool_good addr nmask"
  for i addr nmask
proof
  fix s c v x y
  show "pool_ok i addr nmask s \<Longrightarrow> pool_ok i addr nmask (snd (lease_address i addr nmask c s))"
    by (rule pool_ok_alloc)
  show "pool_ok i addr nmask s \<Longrightarrow> pool_held i s x = Some v \<Longrightarrow> pool_held i s y = Some v \<Longrightarrow> x = y"
    unfolding pool_ok_def Let_def by blast
  show "pool_ok i addr nmask s \<Longrightarrow> pool_held i s x = Some v \<Longrightarrow> pool_good addr nmask v"
    unfolding pool_ok_def pool_good_def Let_def by blast
  show "pool_ok i addr nmask s \<Longrightarrow>
      pool_held i (snd (lease_address i addr nmask c s)) (take ETH_ALEN c) = fst (lease_address i addr nmask c s)"
    using lease_address_cases [of i s c addr nmask] in_range_nonzero by cases auto
  show "pool_held i s (take ETH_ALEN c) = Some v \<Longrightarrow> fst (lease_address i addr nmask c s) = Some v"
    using lease_address_cases [of i s c addr nmask] by cases auto
  show "pool_held i s (take ETH_ALEN c) \<noteq> None \<or> take ETH_ALEN c \<noteq> x \<Longrightarrow>
      pool_held i (snd (lease_address i addr nmask c s)) x = pool_held i s x"
    using lease_address_cases [of i s c addr nmask] by cases auto
  assume ok: "pool_ok i addr nmask s" and none: "fst (lease_address i addr nmask c s) = None"
    and v: "pool_good addr nmask v"
  from lease_address_cases [of i s c addr nmask] show "\<exists>x. pool_held i s x = Some v"
  proof cases
    case (full n ofs')
    have bound: "base_of (ntohl addr) (ntohl nmask) + unat (at_zero (snd s) i) \<le>
        max (base_of (ntohl addr) (ntohl nmask) + 1) (top_of (ntohl addr) (ntohl nmask))"
      using ok unfolding pool_ok_def Let_def by blast
    have "unat (ntohl v) < base_of (ntohl addr) (ntohl nmask) + unat (at_zero (snd s) i)"
      using first_free_spec(4) [OF bound full(2) v [unfolded pool_good_def]] full(3) by blast
    then obtain mac where "pool_held i s mac = Some (htonl (ntohl v))"
      using ok v unfolding pool_ok_def pool_good_def Let_def by blast
    then show ?thesis by auto
  qed (use none in simp_all)
qed

lemma pool_ok_empty: "pool_ok i addr nmask (Map.empty, Map.empty)"
  by (simp add: pool_ok_def pool_held_def at_zero_def good_host_def in_range_nat Let_def)

end
