(* ===== verification/ServerProps.thy ===== *)
theory ServerProps
  imports Allocation
begin

text \<open>
  The properties of the DHCP server: the leases of the running server, what it answers to each
  message, and what it drops.
\<close>

section \<open>What the server's queries do\<close>

lemma quiet_getInterfaceAddress [issues_intros]: "quiet (getInterfaceAddress k i s)"
  unfolding getInterfaceAddress_def interface_word_def getInterfaceData_def
  by (intro issues_intros) (simp_all add: is_send_def)

lemma quiet_getInterfaceNetmask [issues_intros]: "quiet (getInterfaceNetmask k i s)"
  unfolding getInterfaceNetmask_def interface_word_def getInterfaceData_def
  by (intro issues_intros) (simp_all add: is_send_def)

lemma quiet_get_dns_servers [issues_intros]: "quiet (get_dns_servers k is)"
proof (induction "is")
  case Nil
  then show ?case by (simp add: issues_return)
next
  case (Cons i "is")
  then show ?case
    unfolding get_dns_servers.simps by (intro issues_intros) (simp_all add: is_send_def)
qed

lemma length_get_dns_servers:
  "run_state (get_dns_servers k is) t = (ds, t') \<Longrightarrow> length ds \<le> length is"
  by (induction "is" arbitrary: t ds t')
    (auto simp: le_Suc_eq split: prod.splits if_splits option.splits, fastforce+)

text \<open>
  \<open>stable_config k cfg\<close>: whenever the kernel reports an interface's address or mask it
  reports the same one; \<open>serves k i\<close>: it reports them for this interface.
\<close>

definition stable_config :: "kernel \<Rightarrow> (u32 \<Rightarrow> u32 \<times> u32) \<Rightarrow> bool" where
  "stable_config k cfg \<longleftrightarrow>
     (\<forall>i s t a. (fst (run_state (getInterfaceAddress k i s) t) = Inr a \<longrightarrow> a = fst (cfg i)) \<and>
                (fst (run_state (getInterfaceNetmask k i s) t) = Inr a \<longrightarrow> a = snd (cfg i)))"

definition serves :: "kernel \<Rightarrow> u32 \<Rightarrow> u32 \<Rightarrow> u32 \<Rightarrow> bool" where
  "serves k i addr nmask \<longleftrightarrow>
     (\<forall>s t. fst (run_state (getInterfaceAddress k i s) t) = Inr addr \<and>
            fst (run_state (getInterfaceNetmask k i s) t) = Inr nmask)"

lemma getOfferAddress_cases:
  assumes "run_state (getOfferAddress k i mac) s = (r, s')"
  obtains (fail) e t where "r = Inl e" "s' = s\<lparr>serverCalls := t\<rparr>" "sent t = sent (serverCalls s)"
  | (query) addr nmask t1 t2 t where
      "run_state (getInterfaceAddress k i (serverSocket s)) (serverCalls s) = (Inr addr, t1)"
      "run_state (getInterfaceNetmask k i (serverSocket s)) t1 = (Inr nmask, t)"
      "s' = s\<lparr>mMaps := snd (lease_address i addr nmask mac (mMaps s)), serverCalls := t\<rparr>"
      "sent t = sent (serverCalls s)"
      "r = (case fst (lease_address i addr nmask mac (mMaps s)) of
              None \<Rightarrow> Inl (Error ''DHCP server is out of addresses'' None)
            | Some a \<Rightarrow> Inr (a, nmask, addr))"
proof -
  obtain r1 t1 where 1: "run_state (getInterfaceAddress k i (serverSocket s)) (serverCalls s) = (r1, t1)"
    by force
  obtain r2 t2 where 2: "run_state (getInterfaceNetmask k i (serverSocket s)) t1 = (r2, t2)"
    by force
  have q: "sent t1 = sent (serverCalls s)" "sent t2 = sent (serverCalls s)"
    using quiet_sent [OF quiet_getInterfaceAddress 1] quiet_sent [OF quiet_getInterfaceNetmask 2]
    by simp_all
  show thesis
  proof (cases r1)
    case (Inl e)
    then show thesis using assms 1 q by (intro fail [of e t1]) (auto simp: getOfferAddress_def)
  next
    case a: (Inr addr)
    show thesis
    proof (cases r2)
      case (Inl e)
      then show thesis using assms 1 2 a q by (intro fail [of e t2]) (auto simp: getOfferAddress_def)
    next
      case (Inr nmask)
      show thesis
        by (rule query [OF 1 [unfolded a] 2 [unfolded Inr] _ q(2)])
          (use assms 1 2 a Inr in \<open>auto simp: getOfferAddress_def split_beta split: option.splits\<close>)
    qed
  qed
qed


lemma run_updateDnsServers:
  "\<exists>ds t. run_state (updateDnsServers k) s = ((), s\<lparr>mDnsServers := ds, serverCalls := t\<rparr>) \<and>
     length ds \<le> 4 \<and> sent t = sent (serverCalls s)"
proof -
  obtain ds t where r: "run_state (get_dns_servers k [1..<kMaxDnsServers + 1]) (serverCalls s) = (ds, t)"
    by force
  then show ?thesis
    using length_get_dns_servers [OF r] quiet_sent [OF quiet_get_dns_servers r]
    by (intro exI [of _ ds] exI [of _ t]) (simp add: updateDnsServers_def kMaxDnsServers_def)
qed

text \<open>The maps change by allocations for the interface at hand, or not at all.\<close>

definition alloc_step :: "u32 \<Rightarrow> kernel \<Rightarrow> leases \<times> offsets \<Rightarrow> leases \<times> offsets \<Rightarrow> bool" where
  "alloc_step i k maps maps' \<longleftrightarrow>
     maps' = maps \<or>
     (\<exists>s t t' addr nmask mac. fst (run_state (getInterfaceAddress k i s) t) = Inr addr \<and>
        fst (run_state (getInterfaceNetmask k i s) t') = Inr nmask \<and>
        maps' = snd (lease_address i addr nmask mac maps))"

lemma getOfferAddress_step:
  assumes "run_state (getOfferAddress k i mac) s = (r, s')"
  shows "alloc_step i k (mMaps s) (mMaps s')"
  using assms
  by (cases rule: getOfferAddress_cases) (auto simp: alloc_step_def, metis fst_conv)

lemma lease_address_other:
  assumes "i \<noteq> j"
  shows "pool_held j (snd (lease_address i addr nmask mac maps)) x = pool_held j maps x"
    and "at_zero (snd (snd (lease_address i addr nmask mac maps))) j = at_zero (snd maps) j"
  using assms by (auto simp: lease_address_def pool_held_def Lease_def Let_def split_beta)

text \<open>The invariant of the running server, for interfaces whose configuration is stable.\<close>

definition server_inv :: "(u32 \<Rightarrow> u32 \<times> u32) \<Rightarrow> server \<Rightarrow> bool" where
  "server_inv cfg s \<longleftrightarrow> (\<forall>i. pool_ok i (fst (cfg i)) (snd (cfg i)) (mMaps s))"

lemma alloc_step_inv:
  assumes "stable_config k cfg" "alloc_step i k maps maps'"
    and "\<forall>i. pool_ok i (fst (cfg i)) (snd (cfg i)) maps"
  shows "\<forall>i. pool_ok i (fst (cfg i)) (snd (cfg i)) maps'"
proof (cases "maps' = maps")
  case False
  then obtain addr nmask mac where m: "maps' = snd (lease_address i addr nmask mac maps)"
    and a: "addr = fst (cfg i)" "nmask = snd (cfg i)"
    using assms(1,2) unfolding alloc_step_def stable_config_def by metis
  show ?thesis
  proof
    fix j
    show "pool_ok j (fst (cfg j)) (snd (cfg j)) maps'"
    proof (cases "j = i")
      case True
      then show ?thesis using assms(3) a m by (simp add: pool_ok_alloc)
    next
      case False
      then have "i \<noteq> j" by simp
      from lease_address_other [OF this, of addr nmask mac maps] show ?thesis
        using assms(3) by (simp add: pool_ok_def m Let_def)
    qed
  qed
qed (use assms in simp)


definition alloc_steps :: "u32 \<Rightarrow> kernel \<Rightarrow> leases \<times> offsets \<Rightarrow> leases \<times> offsets \<Rightarrow> bool" where
  "alloc_steps i k = (alloc_step i k)\<^sup>*\<^sup>*"

lemma alloc_steps_refl [simp]: "alloc_steps i k m m"
  by (simp add: alloc_steps_def)

lemma alloc_steps_inv:
  assumes "alloc_steps i k maps maps'" "stable_config k cfg"
    and "\<forall>i. pool_ok i (fst (cfg i)) (snd (cfg i)) maps"
  shows "\<forall>i. pool_ok i (fst (cfg i)) (snd (cfg i)) maps'"
  using assms unfolding alloc_steps_def
  by (induction rule: rtranclp_induct) (auto dest: alloc_step_inv)

lemma server_sendMessage_maps [simp]:
  "mMaps (snd (run_state (server_sendMessage k i m) s)) = mMaps s"
  by (auto simp: server_sendMessage_def split: prod.splits)

lemma send_lease_steps:
  assumes "run_state (send_lease build k m i) s = (r, s')"
  shows "alloc_steps i k (mMaps s) (mMaps s')"
proof -
  obtain ds t where u: "run_state (updateDnsServers k) s = ((), s\<lparr>mDnsServers := ds, serverCalls := t\<rparr>)"
    using run_updateDnsServers by blast
  obtain res s1 where g: "run_state (getOfferAddress k i (chaddr (dhcp m)))
      (s\<lparr>mDnsServers := ds, serverCalls := t\<rparr>) = (res, s1)" by force
  have "mMaps s' = mMaps s1"
    using assms u g
    by (auto simp: send_lease_def split_beta Let_def simp flip: Dhcp_at_sel split: sum.splits)
  then show ?thesis
    using getOfferAddress_step [OF g] by (simp add: alloc_steps_def r_into_rtranclp)
qed

lemma sendNack_maps: "run_state (sendNack k m i) s = (r, s') \<Longrightarrow> mMaps s' = mMaps s"
  by (auto simp: sendNack_def split_beta Let_def
      split: sum.splits)

lemma server_dispatch_steps:
  assumes "run_state (server_dispatch k m i) s = (r, s')"
  shows "alloc_steps i k (mMaps s) (mMaps s')"
proof -
  consider (discover) "message_type m = DHCPDISCOVER"
    | (request) "message_type m = DHCPREQUEST" | (other) "message_type m \<notin> {DHCPDISCOVER, DHCPREQUEST}"
    by blast
  then show ?thesis
  proof cases
    case discover
    then show ?thesis
      using assms send_lease_steps by (simp add: server_dispatch_def sendDhcpOffer_def)
  next
    case request
    obtain res s1 where g: "run_state (getOfferAddress k i (chaddr (dhcp m))) s = (res, s1)" by force
    have "alloc_step i k (mMaps s) (mMaps s1)" by (rule getOfferAddress_step [OF g])
    moreover have "alloc_steps i k (mMaps s1) (mMaps s')"
      using assms request g
      by (auto simp: server_dispatch_def isValidDhcpRequest_def sendAck_def DHCPREQUEST_def
          DHCPDISCOVER_def dest: send_lease_steps sendNack_maps split: if_splits simp flip: Dhcp_at_sel)
    ultimately show ?thesis
      unfolding alloc_steps_def by (rule converse_rtranclp_into_rtranclp)
  next
    case other
    then show ?thesis using assms by (simp add: server_dispatch_def)
  qed
qed

lemma server_turn_steps:
  assumes "run_state (server_turn k) s = (r, s')"
  shows "\<exists>i. alloc_steps i k (mMaps s) (mMaps s')"
proof -
  let ?t = "serverCalls s @ [PpollForever (mSocketFd (serverSocket s))]"
  obtain res m i t where r: "run_state (receiveFromInterface k (rxMessage s) 0 (serverSocket s)) ?t =
      ((res, m, i), t)" by (metis prod.exhaust)
  then show ?thesis
    using assms server_dispatch_steps [of k m i "s\<lparr>serverCalls := t, rxMessage := m\<rparr>"]
    by (auto simp: server_turn_def split: if_splits prod.splits)
qed

interpretation server: machine "\<lambda>s s'. stable_config k cfg \<and> server_next k s s'" "server_inv cfg"
  for k cfg
proof
  fix s s' assume "server_inv cfg s" "stable_config k cfg \<and> server_next k s s'"
  then show "server_inv cfg s'"
    using server_turn_steps [of k s None s'] alloc_steps_inv
    unfolding server_next_def server_inv_def by blast
qed

text \<open>The server \<open>main\<close> starts.\<close>

lemma server_main_fields:
  assumes "server_main k argv x t = Inr s"
  shows "mMaps s = (Map.empty, Map.empty)" "rxMessage s = Message_empty" "serverXid s = x"
  using assms
  by (auto simp: server_main_def server_init_def server_run_start_def DhcpServer_new_def on_success_def
      split: prod.splits option.splits if_splits)

lemma server_main_inv: "server_main k argv x t = Inr s \<Longrightarrow> server_inv cfg s"
  by (simp add: server_inv_def server_main_fields pool_ok_empty)

section \<open>Answers\<close>

definition to_clients :: "u32 \<Rightarrow> bytes \<Rightarrow> sockaddr \<times> u32 \<times> bytes" where
  "to_clients i p = (SockaddrIn (htons PORT_BOOTP_CLIENT) BROADCAST, i, p)"

lemma serves_run:
  assumes "serves k i addr nmask"
  obtains t where "run_state (getInterfaceAddress k i s) t0 = (Inr addr, t)" "sent t = sent t0"
proof -
  obtain r t where r: "run_state (getInterfaceAddress k i s) t0 = (r, t)" by force
  moreover have "r = Inr addr" using assms r unfolding serves_def by (metis fst_conv)
  ultimately show thesis using that quiet_sent [OF quiet_getInterfaceAddress r] by blast
qed

lemma getOfferAddress_serves:
  assumes "serves k i addr nmask"
  obtains t where "run_state (getOfferAddress k i mac) s =
      (case fst (lease_address i addr nmask mac (mMaps s)) of
              None \<Rightarrow> Inl (Error ''DHCP server is out of addresses'' None)
            | Some a \<Rightarrow> Inr (a, nmask, addr),
       s\<lparr>mMaps := snd (lease_address i addr nmask mac (mMaps s)), serverCalls := t\<rparr>)"
    and "sent t = sent (serverCalls s)"
proof -
  obtain r s' where g: "run_state (getOfferAddress k i mac) s = (r, s')" by force
  obtain t1 where 1: "run_state (getInterfaceAddress k i (serverSocket s)) (serverCalls s) = (Inr addr, t1)"
    using serves_run [OF assms] by metis
  obtain r2 t where 2: "run_state (getInterfaceNetmask k i (serverSocket s)) t1 = (r2, t)" by force
  then have r2: "r2 = Inr nmask" using assms unfolding serves_def by (metis fst_conv)
  have "run_state (getOfferAddress k i mac) s =
      (case fst (lease_address i addr nmask mac (mMaps s)) of
              None \<Rightarrow> Inl (Error ''DHCP server is out of addresses'' None)
            | Some a \<Rightarrow> Inr (a, nmask, addr),
       s\<lparr>mMaps := snd (lease_address i addr nmask mac (mMaps s)), serverCalls := t\<rparr>)"
    using 1 2 r2 by (simp add: getOfferAddress_def split_beta)
  moreover have "sent t = sent (serverCalls s)"
    using quiet_sent [OF quiet_getInterfaceAddress 1] quiet_sent [OF quiet_getInterfaceNetmask 2] by simp
  ultimately show thesis using that by blast
qed

lemma server_sendMessage_sent:
  assumes "mSocketFd (serverSocket s) \<noteq> -1"
  shows "sent (serverCalls (snd (run_state (server_sendMessage k i m) s))) =
    sent (serverCalls s) @ [to_clients i (payload m)]"
  using assms by (simp add: server_sendMessage_def sendOnInterface_def to_clients_def Let_def)

lemma send_lease_serves:
  assumes "serves k i addr nmask" "mSocketFd (serverSocket s) \<noteq> -1"
  shows "\<exists>ds. length ds \<le> 4 \<and>
    sent (serverCalls (snd (run_state (send_lease build k m i) s))) = sent (serverCalls s) @
      (case fst (lease_address i addr nmask (chaddr (dhcp m)) (mMaps s)) of
         None \<Rightarrow> []
       | Some a \<Rightarrow> [to_clients i (payload (fst (build m addr a nmask addr ds (serverXid s))))])"
proof -
  let ?L = "lease_address i addr nmask (chaddr (dhcp m)) (mMaps s)"
  obtain ds t where u: "run_state (updateDnsServers k) s = ((), s\<lparr>mDnsServers := ds, serverCalls := t\<rparr>)"
    and ds: "length ds \<le> 4" and t: "sent t = sent (serverCalls s)"
    using run_updateDnsServers by blast
  let ?s = "s\<lparr>mDnsServers := ds, serverCalls := t\<rparr>"
  obtain t1 where g: "run_state (getOfferAddress k i (chaddr (dhcp m))) ?s =
      (case fst ?L of None \<Rightarrow> Inl (Error ''DHCP server is out of addresses'' None)
        | Some a \<Rightarrow> Inr (a, nmask, addr), ?s\<lparr>mMaps := snd ?L, serverCalls := t1\<rparr>)"
    and t1: "sent t1 = sent t"
    using getOfferAddress_serves [OF assms(1), of "chaddr (dhcp m)" ?s] by auto
  obtain t2 where a: "run_state (getInterfaceAddress k i (serverSocket s)) t1 = (Inr addr, t2)"
    and t2: "sent t2 = sent t1" using serves_run [OF assms(1)] by metis
  show ?thesis
  proof (cases "fst ?L")
    case None
    then show ?thesis
      using u g t t1 by (intro exI [of _ "[]"]) (simp add: send_lease_def del: Dhcp_at_sel)
  next
    case (Some v)
    then show ?thesis
      using u g a t t1 t2 ds assms(2)
      by (intro exI [of _ ds])
        (simp add: send_lease_def split_beta server_sendMessage_sent del: Dhcp_at_sel)
  qed
qed

lemma sendNack_serves:
  assumes "serves k i addr nmask" "mSocketFd (serverSocket s) \<noteq> -1"
  shows "sent (serverCalls (snd (run_state (sendNack k m i) s))) = sent (serverCalls s) @
    [to_clients i (payload (fst (nack m addr (serverXid s))))]"
proof -
  obtain t where a: "run_state (getInterfaceAddress k i (serverSocket s)) (serverCalls s) = (Inr addr, t)"
    and t: "sent t = sent (serverCalls s)" using serves_run [OF assms(1)] by metis
  then show ?thesis
    using assms(2) by (simp add: sendNack_def split_beta server_sendMessage_sent)
qed

lemma lease_address_again:
  "fst (lease_address i addr nmask mac maps) = Some v \<Longrightarrow>
   fst (lease_address i addr nmask mac (snd (lease_address i addr nmask mac maps))) = Some v"
  using lease_address_cases [of i maps mac addr nmask]
    pool.alloc_stable [of i "snd (lease_address i addr nmask mac maps)" mac] in_range_nonzero
  by cases auto

text \<open>
  What the server says to a valid message, given the lease its client has or gets: offers, the
  acknowledgement of exactly that address, the denial of everything else.
\<close>

definition reply ::
  "u32 \<Rightarrow> u32 \<Rightarrow> u32 option \<Rightarrow> message \<Rightarrow> u32 list \<Rightarrow> u32 \<Rightarrow> message list" where
  "reply addr nmask lease m ds x =
     (if message_type m = DHCPDISCOVER then
        (case lease of None \<Rightarrow> [] | Some a \<Rightarrow> [fst (offer m addr a nmask addr ds x)])
      else if message_type m = DHCPREQUEST then
        (if lease = Some (requestedIp m)
         then [fst (ack m addr (requestedIp m) nmask addr ds x)]
         else [fst (nack m addr x)])
      else [])"

lemma dispatch_serves:
  assumes sv: "serves k i addr nmask" and fd: "mSocketFd (serverSocket s) \<noteq> -1"
  shows "\<exists>ds. length ds \<le> 4 \<and>
    sent (serverCalls (snd (run_state (server_dispatch k m i) s))) = sent (serverCalls s) @
      map (to_clients i \<circ> payload)
        (reply addr nmask (fst (lease_address i addr nmask (chaddr (dhcp m)) (mMaps s))) m ds (serverXid s))"
proof -
  let ?L = "lease_address i addr nmask (chaddr (dhcp m)) (mMaps s)"
  consider (discover) "message_type m = DHCPDISCOVER"
    | (request) "message_type m = DHCPREQUEST" | (other) "message_type m \<notin> {DHCPDISCOVER, DHCPREQUEST}"
    by blast
  then show ?thesis
  proof cases
    case discover
    then show ?thesis
      using send_lease_serves [OF assms, of offer m]
      by (auto simp: server_dispatch_def sendDhcpOffer_def reply_def simp del: Dhcp_at_sel
          split: option.splits)
  next
    case request
    obtain t where g: "run_state (getOfferAddress k i (chaddr (dhcp m))) s =
      (case fst ?L of None \<Rightarrow> Inl (Error ''DHCP server is out of addresses'' None)
        | Some a \<Rightarrow> Inr (a, nmask, addr), s\<lparr>mMaps := snd ?L, serverCalls := t\<rparr>)"
      and t: "sent t = sent (serverCalls s)"
      using getOfferAddress_serves [OF sv, of "chaddr (dhcp m)" s] by auto
    let ?s = "s\<lparr>mMaps := snd ?L, serverCalls := t\<rparr>"
    have nd: "DHCPREQUEST \<noteq> DHCPDISCOVER" by (simp add: DHCPREQUEST_def DHCPDISCOVER_def)
    have fd': "mSocketFd (serverSocket ?s) \<noteq> -1" using fd by simp
    show ?thesis
    proof (cases "fst ?L = Some (requestedIp m)")
      case True
      then show ?thesis
        using send_lease_serves [OF sv fd', of ack m] lease_address_again [OF True] request g t nd
        by (simp add: server_dispatch_def isValidDhcpRequest_def sendAck_def reply_def del: Dhcp_at_sel)
    next
      case False
      then show ?thesis
        using sendNack_serves [OF sv fd', of m] request g t nd
        by (intro exI [of _ "[]"])
          (auto simp: server_dispatch_def isValidDhcpRequest_def reply_def simp del: Dhcp_at_sel
            split: option.splits)
    qed
  next
    case other
    then show ?thesis by (intro exI [of _ "[]"]) (simp add: server_dispatch_def reply_def)
  qed
qed

section \<open>A concrete system\<close>

text \<open>
  A kernel with one interface, and one datagram that arrives there again and again: for the
  instances of the properties.
\<close>

definition demo_kernel :: "u32 \<Rightarrow> u32 \<Rightarrow> u32 \<Rightarrow> bytes \<Rightarrow> kernel" where
  "demo_kernel i addr nmask p t =
     (case last t of
        RecvMsg fd \<Rightarrow>
          idle_answer\<lparr>data := p,
            cmsgs := [\<lparr>cmsg_level = SOL_IP, cmsg_type = IP_PKTINFO, ipi_ifindex = i\<rparr>]\<rparr>
      | Ioctl fd r req \<Rightarrow>
          idle_answer\<lparr>data := replicate 20 0 @ bytes32 (if r = SIOCGIFADDR then addr else nmask)\<rparr>
      | SigSetMask \<Rightarrow> idle_answer
      | Bind fd a \<Rightarrow> idle_answer
      | _ \<Rightarrow> idle_answer\<lparr>ret := 1\<rparr>)"

lemma demo_serves: "serves (demo_kernel i addr nmask p) j addr nmask"
  by (simp add: serves_def getInterfaceAddress_def getInterfaceNetmask_def interface_word_def
      getInterfaceData_def demo_kernel_def idle_answer_def cstr_def overlay_def Let_def
      sizeof_ifreq_def IFNAMSIZ_def SIOCGIFADDR_def SIOCGIFNETMASK_def nth_append bytes32_def)

lemma serves_stable:
  "(\<And>i. serves k i addr nmask) \<Longrightarrow> stable_config k (\<lambda>i. (addr, nmask))"
  by (auto simp: serves_def stable_config_def)

lemma send_lease_maps:
  assumes "serves k i addr nmask"
  shows "mMaps (snd (run_state (send_lease build k m i) s)) =
    snd (lease_address i addr nmask (chaddr (dhcp m)) (mMaps s))"
proof -
  let ?L = "lease_address i addr nmask (chaddr (dhcp m)) (mMaps s)"
  obtain ds t where u: "run_state (updateDnsServers k) s = ((), s\<lparr>mDnsServers := ds, serverCalls := t\<rparr>)"
    using run_updateDnsServers by blast
  let ?s = "s\<lparr>mDnsServers := ds, serverCalls := t\<rparr>"
  obtain t1 where g: "run_state (getOfferAddress k i (chaddr (dhcp m))) ?s =
      (case fst ?L of None \<Rightarrow> Inl (Error ''DHCP server is out of addresses'' None)
        | Some a \<Rightarrow> Inr (a, nmask, addr), ?s\<lparr>mMaps := snd ?L, serverCalls := t1\<rparr>)"
    using getOfferAddress_serves [OF assms, of "chaddr (dhcp m)" ?s] by auto
  obtain t2 where a: "run_state (getInterfaceAddress k i (serverSocket s)) t1 = (Inr addr, t2)"
    using serves_run [OF assms] by metis
  show ?thesis
    using u g a by (cases "fst ?L") (simp_all add: send_lease_def split_beta del: Dhcp_at_sel)
qed

lemma receive_datagram:
  assumes "ret (k (t @ [RecvMsg (mSocketFd s)])) \<ge> 0"
    and "cmsgs (k (t @ [RecvMsg (mSocketFd s)])) =
      [\<lparr>cmsg_level = SOL_IP, cmsg_type = IP_PKTINFO, ipi_ifindex = i\<rparr>]"
    and "length (data (k (t @ [RecvMsg (mSocketFd s)]))) \<le> capacity m0"
  shows "run_state (receiveFromInterface k m0 0 s) t =
    ((Success, \<lparr>dhcpData = store (dhcpData m0) 0 (data (k (t @ [RecvMsg (mSocketFd s)]))),
       mSize = length (data (k (t @ [RecvMsg (mSocketFd s)])))\<rparr>, i), t @ [RecvMsg (mSocketFd s)])"
  using assms by (simp add: receiveFromInterface_def Let_def setSize_def)


lemma store_payload:
  assumes "\<And>i. mSize m \<le> i \<Longrightarrow> dhcpData m i = 0"
  shows "\<lparr>dhcpData = store (dhcpData Message_empty) 0 (payload m), mSize = mSize m\<rparr> = m"
  using assms
  by (cases m) (auto simp: Message_empty_def payload_def store_def fun_eq_iff not_less)

lemma turn_dispatches:
  assumes "ret (k (serverCalls s @ [PpollForever (mSocketFd (serverSocket s))])) > 0"
    and "run_state (receiveFromInterface k (rxMessage s) 0 (serverSocket s))
      (serverCalls s @ [PpollForever (mSocketFd (serverSocket s))]) = ((Success, m, i), t)"
  shows "run_state (server_turn k) s =
    (None, if i = 0 \<or> mExcludeInterface s = i \<or> \<not> isValidDhcpMessage m OP_BOOTREQUEST
           then s\<lparr>serverCalls := t, rxMessage := m\<rparr>
           else snd (run_state (server_dispatch k m i) (s\<lparr>serverCalls := t, rxMessage := m\<rparr>)))"
  using assms by (simp add: server_turn_def split_beta)

text \<open>The first turn of a server that a client discovers.\<close>

lemma demo_server:
  obtains s where "server_main (demo_kernel i addr nmask p) [''dhcpserver''] x [] = Inr s" "mExcludeInterface s = 0"
proof -
  let ?k = "demo_kernel i addr nmask p" and ?s = "DhcpServer_new 0 x []"
  have "\<exists>s. server_main ?k [''dhcpserver''] x [] = Inr s \<and> mExcludeInterface s = 0"
    by (simp add: server_main_def server_init_def server_run_start_def DhcpServer_new_def on_success_def Socket_open_def
        Socket_enableOption_def Socket_bindIp_def Socket_bind_def demo_kernel_def idle_answer_def Socket_new_def Let_def)
  then show thesis using that by blast
qed

lemma demo_turn:
  assumes "length mac = ETH_ALEN" and k: "k = demo_kernel i addr nmask (payload (fst (discover mac x)))"
    and "i \<noteq> 0" and main: "server_main k argv y t = Inr s0" and ex: "mExcludeInterface s0 = 0"
  obtains s where "server_next k s0 s"
    and "mMaps s = snd (lease_address i addr nmask (chaddr (dhcp (fst (discover mac x)))) (Map.empty, Map.empty))"
proof -
  let ?m = "fst (discover mac x)" let ?s = s0
  note f = discover_facts [OF assms(1) refl, of x]
  note rx = server_main_fields(2) [OF main]
  have sz: "length (payload ?m) \<le> capacity (rxMessage ?s)"
    using f(4) by (simp add: capacity_def sizeof_dhcpData_def)
  let ?t = "serverCalls ?s @ [PpollForever (mSocketFd (serverSocket ?s))]"
  have "run_state (receiveFromInterface k (rxMessage ?s) 0 (serverSocket ?s)) ?t =
      ((Success, \<lparr>dhcpData = store (dhcpData (rxMessage ?s)) 0 (payload ?m),
         mSize = length (payload ?m)\<rparr>, i), ?t @ [RecvMsg (mSocketFd (serverSocket ?s))])"
    using receive_datagram [of k ?t "serverSocket ?s" i "rxMessage ?s"] sz
    by (simp add: k demo_kernel_def idle_answer_def)
  then have r: "run_state (receiveFromInterface k (rxMessage ?s) 0 (serverSocket ?s)) ?t =
      ((Success, ?m, i), ?t @ [RecvMsg (mSocketFd (serverSocket ?s))])"
    using store_payload [of ?m] f(5) by (simp add: rx)
  have p: "ret (k ?t) > 0" by (simp add: k demo_kernel_def idle_answer_def)
  have "isValidDhcpMessage ?m OP_BOOTREQUEST" using f(1) by (simp add: isValidDhcpMessageXid_iff)
  moreover have "mExcludeInterface ?s \<noteq> i" using assms(3) ex by simp
  moreover define s1 where "s1 = snd (run_state (server_dispatch k ?m i)
      (?s\<lparr>serverCalls := ?t @ [RecvMsg (mSocketFd (serverSocket ?s))], rxMessage := ?m\<rparr>))"
  ultimately have "server_next k ?s s1"
    using turn_dispatches [OF p r] assms(3) by (simp add: server_next_def)
  moreover have "mMaps s1 = snd (lease_address i addr nmask (chaddr (dhcp ?m)) (Map.empty, Map.empty))"
    using send_lease_maps [OF demo_serves [of i addr nmask "payload ?m" i, folded k]] f(2)
    by (simp add: s1_def server_dispatch_def sendDhcpOffer_def server_main_fields(1) [OF main] del: Dhcp_at_sel)
  ultimately show thesis using that by blast
qed

lemma demo_turn_holds:
  assumes "length mac = ETH_ALEN" and "i \<noteq> 0"
    and "fst (lease_address i addr nmask mac (Map.empty, Map.empty)) = Some v"
  obtains s0 s where
    "server_main (demo_kernel i addr nmask (payload (fst (discover mac x)))) [''dhcpserver''] y [] = Inr s0"
    and "server_next (demo_kernel i addr nmask (payload (fst (discover mac x)))) s0 s"
    and "pool_held i (mMaps s) mac = Some v"
proof -
  let ?m = "fst (discover mac x)"
  obtain s0 where s0: "server_main (demo_kernel i addr nmask (payload ?m)) [''dhcpserver''] y [] = Inr s0"
      "mExcludeInterface s0 = 0" by (rule demo_server)
  obtain s where s: "server_next (demo_kernel i addr nmask (payload ?m)) s0 s"
    and maps: "mMaps s = snd (lease_address i addr nmask (chaddr (dhcp ?m)) (Map.empty, Map.empty))"
    using demo_turn [OF assms(1) refl assms(2) s0] .
  have ch: "take ETH_ALEN (chaddr (dhcp ?m)) = mac"
    by (rule discover_facts(3) [OF assms(1) refl])
  then have eq: "lease_address i addr nmask (chaddr (dhcp ?m)) = lease_address i addr nmask mac"
    using assms(1) by (simp add: lease_address_def Lease_def fun_eq_iff del: Dhcp_at_sel)
  have "pool_held i (mMaps s) (take ETH_ALEN mac) = Some v"
    using pool.alloc_held [OF pool_ok_empty, of i addr nmask mac] assms(3)
    by (simp add: maps eq del: Dhcp_at_sel)
  then show thesis using that s0(1) s assms(1) by simp
qed

text \<open>The first address of 10.0.2.1/24 that a host can have is 10.0.2.2.\<close>

lemma demo_lease:
  "fst (lease_address i 0x0102000A 0x00FFFFFF mac (Map.empty, Map.empty)) = Some 0x0202000A"
proof -
  have n: "ntohl 0x0102000A = 0x0A000201" "ntohl 0x00FFFFFF = 0xFFFFFF00" "htonl 0x0A000202 = 0x0202000A"
    by code_simp+
  have v: "next_host 0x0A000201 0xFFFFFF00 0x0A000201 1 = (0x0A000202, 2)"
    by (subst next_host.simps, simp add: isValidHost_def addressInRange_def,
        subst next_host.simps, simp add: isValidHost_def addressInRange_def)
  have "addressInRange 0x0A000202 0x0A000201 0xFFFFFF00"
    by (simp add: addressInRange_def)
  then show ?thesis
    using v by (simp add: lease_address_def at_zero_def Let_def n)
qed

section \<open>Properties\<close>

text \<open>
  C2. In every state of the server that \<open>main\<close> starts, as long as the kernel reports each interface's address
  and mask consistently: no two clients of an interface hold the same address, and every address
  held is one a host of the interface's network can have: within the range, no network and no
  broadcast address, and not the interface's own.
\<close>

theorem leases_unique_and_valid:
  assumes "stable_config k cfg" and "server_main k argv x t = Inr s0" and "(server_next k)\<^sup>*\<^sup>* s0 s"
    and "pool_held i (mMaps s) mac = Some v"
  shows "pool_good (fst (cfg i)) (snd (cfg i)) v \<and>
    (pool_held i (mMaps s) mac' = Some v \<longleftrightarrow> mac' = mac)"
proof -
  have "(\<lambda>s s'. stable_config k cfg \<and> server_next k s s')\<^sup>*\<^sup>* s0 s"
    using assms(1,3) by simp
  from server.along [OF this server_main_inv [OF assms(2)]] have "pool_ok i (fst (cfg i)) (snd (cfg i)) (mMaps s)"
    by (simp add: server_inv_def)
  then show ?thesis
    using pool.held_inj pool.held_good assms(4) by blast
qed

theorem leases_unique_and_valid_witness:
  "\<exists>s0 s v. server_main (demo_kernel 2 0x0102000A 0x00FFFFFF (payload (fst (discover [2, 0, 0, 0, 0, 1] 7))))
       [''dhcpserver''] 0 [] = Inr s0 \<and>
     (server_next (demo_kernel 2 0x0102000A 0x00FFFFFF (payload (fst (discover [2, 0, 0, 0, 0, 1] 7)))))\<^sup>*\<^sup>* s0 s \<and>
     pool_held 2 (mMaps s) [2, 0, 0, 0, 0, 1] = Some v \<and> pool_good 0x0102000A 0x00FFFFFF v"
proof -
  let ?k = "demo_kernel 2 0x0102000A 0x00FFFFFF (payload (fst (discover [2, 0, 0, 0, 0, 1] 7)))"
  obtain s0 s where s0: "server_main ?k [''dhcpserver''] 0 [] = Inr s0" and s: "server_next ?k s0 s"
    and h: "pool_held 2 (mMaps s) [2, 0, 0, 0, 0, 1] = Some 0x0202000A"
    by (rule demo_turn_holds [OF _ _ demo_lease]) (auto simp: ETH_ALEN_def)
  note r = r_into_rtranclp [of "server_next ?k", OF s]
  have "pool_good 0x0102000A 0x00FFFFFF 0x0202000A"
    using leases_unique_and_valid [OF serves_stable [OF demo_serves] s0 r h] by simp
  with s0 r h show ?thesis by blast
qed

lemma alloc_step_held:
  "alloc_step j k maps maps' \<Longrightarrow> pool_held i maps mac = Some v \<Longrightarrow> pool_held i maps' mac = Some v"
  unfolding alloc_step_def using pool.held_alloc lease_address_other(1) by metis

lemma alloc_steps_held:
  assumes "alloc_steps j k maps maps'" "pool_held i maps mac = Some v"
  shows "pool_held i maps' mac = Some v"
  using assms unfolding alloc_steps_def
  by (induction rule: rtranclp_induct) (auto intro: alloc_step_held)

lemma leases_kept:
  assumes "(server_next k)\<^sup>*\<^sup>* s s'" "pool_held i (mMaps s) mac = Some v"
  shows "pool_held i (mMaps s') mac = Some v"
  using assms
proof (induction rule: rtranclp_induct)
  case (step s1 s2)
  then show ?case
    using server_turn_steps [of k s1 None s2] alloc_steps_held unfolding server_next_def by blast
qed

text \<open>10.0.2.1/30 has room for one client.\<close>

lemma small_net_exhausted:
  assumes "take ETH_ALEN mac = [2, 0, 0, 0, 0, 1]"
  shows "fst (lease_address 2 0x0102000A 0xFCFFFFFF [2, 0, 0, 0, 0, 9]
    (snd (lease_address 2 0x0102000A 0xFCFFFFFF mac (Map.empty, Map.empty)))) = None"
proof -
  have n: "ntohl 0x0102000A = 0x0A000201" "ntohl 0xFCFFFFFF = 0xFFFFFFFC"
    by code_simp+
  have v: "next_host 0x0A000201 0xFFFFFFFC 0x0A000201 1 = (0x0A000202, 2)"
    by (subst next_host.simps, simp add: isValidHost_def addressInRange_def,
        subst next_host.simps, simp add: isValidHost_def addressInRange_def)
  have w: "next_host 0x0A000201 0xFFFFFFFC 0x0A000203 3 = (0x0A000203, 3)"
    by (subst next_host.simps, simp add: addressInRange_def)
  have "addressInRange 0x0A000202 0x0A000201 0xFFFFFFFC" "\<not> addressInRange 0x0A000203 0x0A000201 0xFFFFFFFC"
    by (simp_all add: addressInRange_def)
  then show ?thesis
    using v w assms by (simp add: lease_address_def at_zero_def Lease_def Let_def n ETH_ALEN_def)
qed

text \<open>
  C6. A client keeps its address: once the server has offered or given an address to a hardware
  address on an interface, it offers and gives it the same one for ever, whatever it does for
  other clients and on other interfaces in between and whatever the system reports.
\<close>

theorem lease_is_kept:
  assumes "fst (lease_address i addr nmask mac (mMaps s)) = Some v"
    and "s1 = s\<lparr>mMaps := snd (lease_address i addr nmask mac (mMaps s))\<rparr>"
    and "(server_next k)\<^sup>*\<^sup>* s1 s'"
  shows "fst (lease_address i addr' nmask' mac (mMaps s')) = Some v"
proof -
  have "pool_held i (mMaps s1) (take ETH_ALEN mac) = Some v"
    using lease_address_cases [of i "mMaps s" mac addr nmask] in_range_nonzero assms(1,2)
    by cases auto
  from pool.alloc_stable [OF leases_kept [OF assms(3) this]] show ?thesis .
qed

theorem lease_is_kept_witness:
  "let s = DhcpServer_new 0 0 [];
       s1 = s\<lparr>mMaps := snd (lease_address 2 0x0102000A 0x00FFFFFF [2, 0, 0, 0, 0, 1] (mMaps s))\<rparr>
   in fst (lease_address 2 0x0103000A 0x0000FFFF [2, 0, 0, 0, 0, 1] (mMaps s1)) = Some 0x0202000A"
  using lease_is_kept [OF _ refl rtranclp.rtrancl_refl, of 2 "0x0102000A" "0x00FFFFFF"
      "[2, 0, 0, 0, 0, 1]" "DhcpServer_new 0 0 []" "0x0202000A" "0x0103000A" "0x0000FFFF"] demo_lease
  by (simp add: DhcpServer_new_def)

text \<open>
  C10. The server runs out of addresses only when it has to: when it has none for a client, every
  address a host of the interface's network can have is held by some client.
\<close>

theorem out_of_addresses_only_when_all_held:
  assumes "stable_config k cfg" and "server_main k argv x t = Inr s0" and "(server_next k)\<^sup>*\<^sup>* s0 s"
    and "fst (lease_address i (fst (cfg i)) (snd (cfg i)) mac (mMaps s)) = None"
    and "pool_good (fst (cfg i)) (snd (cfg i)) v"
  shows "\<exists>mac'. pool_held i (mMaps s) mac' = Some v"
proof -
  have "(\<lambda>s s'. stable_config k cfg \<and> server_next k s s')\<^sup>*\<^sup>* s0 s"
    using assms(1,3) by simp
  from server.along [OF this server_main_inv [OF assms(2)]] have "pool_ok i (fst (cfg i)) (snd (cfg i)) (mMaps s)"
    by (simp add: server_inv_def)
  from pool.exhausted [OF this assms(4,5)] show ?thesis .
qed

theorem out_of_addresses_only_when_all_held_witness:
  "\<exists>k s0 s mac'. server_main k [''dhcpserver''] 0 [] = Inr s0 \<and> (server_next k)\<^sup>*\<^sup>* s0 s \<and>
     fst (lease_address 2 0x0102000A 0xFCFFFFFF [2, 0, 0, 0, 0, 9] (mMaps s)) = None \<and>
     pool_held 2 (mMaps s) mac' = Some 0x0202000A"
proof -
  let ?m = "fst (discover [2, 0, 0, 0, 0, 1] 7)"
  let ?k = "demo_kernel 2 0x0102000A 0xFCFFFFFF (payload ?m)"
  obtain s0 where s0: "server_main ?k [''dhcpserver''] 0 [] = Inr s0" "mExcludeInterface s0 = 0" by (rule demo_server)
  obtain s where s: "server_next ?k s0 s"
    and maps: "mMaps s = snd (lease_address 2 0x0102000A 0xFCFFFFFF (chaddr (dhcp ?m)) (Map.empty, Map.empty))"
    by (rule demo_turn [OF _ refl _ s0]) (auto simp: ETH_ALEN_def)
  have "take ETH_ALEN (chaddr (dhcp ?m)) = [2, 0, 0, 0, 0, 1]"
    by (rule discover_facts(3) [OF _ refl]) (simp add: ETH_ALEN_def)
  then have none: "fst (lease_address 2 0x0102000A 0xFCFFFFFF [2, 0, 0, 0, 0, 9] (mMaps s)) = None"
    unfolding maps by (rule small_net_exhausted)
  have "pool_good 0x0102000A 0xFCFFFFFF 0x0202000A"
    by code_simp
  from out_of_addresses_only_when_all_held [OF serves_stable [OF demo_serves] s0(1)
      r_into_rtranclp [of "server_next ?k", OF s], of 2 "[2, 0, 0, 0, 0, 9]" "0x0202000A"] this none s s0(1)
  show ?thesis by auto
qed

text \<open>
  C5. What the server answers to a valid message, on an interface whose address and mask the
  system reports: one datagram to the clients' port, broadcast on the interface the message came
  from, an offer of the client's lease for a discover, an acknowledgement for a request of exactly
  that lease, a denial for any other request; nothing for a discover when it is out of addresses,
  and nothing for other messages.
\<close>

theorem server_answers:
  assumes "serves k i addr nmask" and "mSocketFd (serverSocket s) \<noteq> -1"
  shows "\<exists>ds. length ds \<le> 4 \<and>
    sent (serverCalls (snd (run_state (server_dispatch k m i) s))) = sent (serverCalls s) @
      map (to_clients i \<circ> payload)
        (reply addr nmask (fst (lease_address i addr nmask (chaddr (dhcp m)) (mMaps s))) m ds (serverXid s))"
  by (rule dispatch_serves [OF assms])

theorem server_answers_witness:
  "sent (serverCalls (snd (run_state (server_dispatch (demo_kernel 2 0x0102000A 0x00FFFFFF [])
       (fst (request [2, 0, 0, 0, 0, 1] 5 6 7)) 2)
       ((DhcpServer_new 0 0 [])\<lparr>serverSocket := \<lparr>mSocketFd = 3\<rparr>\<rparr>)))) =
     [to_clients 2 (payload (fst (nack (fst (request [2, 0, 0, 0, 0, 1] 5 6 7)) 0x0102000A 0)))]"
proof -
  let ?m = "fst (request [2, 0, 0, 0, 0, 1] 5 6 7)"
  have m: "message_type ?m = DHCPREQUEST" "requestedIp ?m = 5"
    by (rule request_facts(2) [OF _ refl] request_facts(3) [OF _ refl], simp add: ETH_ALEN_def)+
  have r: "reply 0x0102000A 0x00FFFFFF (Some 0x0202000A) ?m ds 0 = [fst (nack ?m 0x0102000A 0)]" for ds
    by (simp add: reply_def m DHCPREQUEST_def DHCPDISCOVER_def)
  show ?thesis
    using server_answers [where m = ?m and i = 2 and s = "(DhcpServer_new 0 0 [])\<lparr>serverSocket := \<lparr>mSocketFd = 3\<rparr>\<rparr>",
        OF demo_serves [of 2 "0x0102000A" "0x00FFFFFF" "[]" 2]]
    by (simp add: DhcpServer_new_def demo_lease r del: Dhcp_at_sel)
qed

text \<open>
  What the server drops: a datagram on an unknown or the excluded interface or that is no valid
  BOOTP request, a poll without event and a failed receive leave its leases as they are and send
  nothing.
\<close>

theorem server_drops:
  assumes "run_state (receiveFromInterface k (rxMessage s) 0 (serverSocket s))
      (serverCalls s @ [PpollForever (mSocketFd (serverSocket s))]) = ((res, m, i), t)"
    and "res \<noteq> Success \<or> i = 0 \<or> i = mExcludeInterface s \<or> \<not> isValidDhcpMessage m OP_BOOTREQUEST"
    and "run_state (server_turn k) s = (r, s')"
  shows "mMaps s' = mMaps s \<and> sent (serverCalls s') = sent (serverCalls s)"
proof -
  have "quiet (receiveFromInterface k (rxMessage s) 0 (serverSocket s))"
    unfolding receiveFromInterface_def by (intro issues_intros) (simp add: is_send_def)
  from quiet_sent [OF this assms(1)] have "sent t = sent (serverCalls s)" by simp
  then show ?thesis
    using assms by (auto simp: server_turn_def split: if_splits prod.splits)
qed

theorem server_drops_witness:
  "\<exists>r s'. run_state (server_turn (demo_kernel 2 0x0102000A 0x00FFFFFF [])) (DhcpServer_new 2 0 []) = (r, s') \<and>
     sent (serverCalls s') = []"
proof -
  let ?k = "demo_kernel 2 0x0102000A 0x00FFFFFF []" let ?s = "DhcpServer_new 2 0 []"
  obtain r s' where t: "run_state (server_turn ?k) ?s = (r, s')" by force
  have "\<exists>m t. run_state (receiveFromInterface ?k (rxMessage ?s) 0 (serverSocket ?s))
      (serverCalls ?s @ [PpollForever (mSocketFd (serverSocket ?s))]) = ((Success, m, 2), t)"
    by (simp add: receive_datagram demo_kernel_def idle_answer_def)
  then obtain m t where "run_state (receiveFromInterface ?k (rxMessage ?s) 0 (serverSocket ?s))
      (serverCalls ?s @ [PpollForever (mSocketFd (serverSocket ?s))]) = ((Success, m, 2), t)" by blast
  from server_drops [OF this _ t] show ?thesis
    using t by (auto simp: DhcpServer_new_def)
qed

text \<open>
  A client that renews its lease the way RFC 2131 (4.3.2) prescribes, without the requested
  address option, is denied: the server answers every request without that option with a negative
  acknowledgement, whatever lease the client holds.
\<close>

theorem renewal_without_requested_address_denied:
  assumes "message_type m = DHCPREQUEST" and "getOption m OPT_REQUESTED_IP = None"
  shows "reply addr nmask (fst (lease_address i addr nmask (chaddr (dhcp m)) maps)) m ds x =
    [fst (nack m addr x)]"
proof -
  have "fst (lease_address i addr nmask (chaddr (dhcp m)) maps) \<noteq> Some 0"
    using lease_address_cases [of i maps "chaddr (dhcp m)" addr nmask] in_range_nonzero
    by cases (auto simp: pool_held_def Let_def split: if_splits)
  then show ?thesis
    using assms by (simp add: reply_def requestedIp_def DHCPREQUEST_def DHCPDISCOVER_def)
qed


theorem renewal_without_requested_address_denied_witness:
  "let m = endOptions (fst (Message_new OP_BOOTREQUEST [2, 0, 0, 0, 0, 1] DHCPREQUEST 7))
   in reply 0x0102000A 0x00FFFFFF
        (fst (lease_address 2 0x0102000A 0x00FFFFFF (chaddr (dhcp m)) (Map.empty, Map.empty))) m [] 0 =
      [fst (nack m 0x0102000A 0)]"
proof -
  let ?m = "endOptions (fst (Message_new OP_BOOTREQUEST [2, 0, 0, 0, 0, 1] DHCPREQUEST 7))"
  have b: "built ?m (fst (Message_new OP_BOOTREQUEST [2, 0, 0, 0, 0, 1] DHCPREQUEST 7))
      [(OPT_MESSAGE_TYPE, [DHCPREQUEST])]"
    by (intro built_endOptions carries_Message_new extends_refl) (simp add: ETH_ALEN_def)
  note ov = built_option_value [OF b]
  have "message_type ?m = DHCPREQUEST" by (rule typed_values) (simp add: ov)
  moreover have "getOption ?m OPT_REQUESTED_IP = None"
    using ov [of OPT_REQUESTED_IP] by (auto simp: option_value_def OPT_REQUESTED_IP_def OPT_MESSAGE_TYPE_def)
  ultimately show ?thesis
    using renewal_without_requested_address_denied [of ?m] by (simp add: Let_def)
qed

end
