(* ===== verification/ProxyPacket.thy ===== *)
theory ProxyPacket
  imports Prelude
begin

text \<open>
  The packets of the IPv6 proxy: the received message (\<open>network/ipv6proxy/message.h\<close>), its
  classification and the walk over its neighbor discovery options
  (\<open>network/ipv6proxy/packet.cpp\<close>), and the rewriting of link addresses
  (\<open>network/ipv6proxy/proxy.cpp\<close>).  Pointers into the message are offsets into its buffer.  The
  code's loop over the options need not end, so it is a partial function: \<open>None\<close> is a
  loop that never returns.
\<close>

section \<open>Messages\<close>

record message6 =
  msgData :: mem
  msgSize :: nat

definition capacity6 :: nat where "capacity6 = 8192"

section \<open>Packets\<close>

datatype packet_type =
  NeighborSolicitation | NeighborAdvertisement | RouterSolicitation | RouterAdvertisement | Other

definition sizeof_ip6_hdr :: nat where "sizeof_ip6_hdr = 40"
definition sizeof_icmp6_hdr :: nat where "sizeof_icmp6_hdr = 8"
definition sizeof_nd_router_solicit :: nat where "sizeof_nd_router_solicit = 8"
definition sizeof_nd_router_advert :: nat where "sizeof_nd_router_advert = 16"
definition sizeof_nd_neighbor_solicit :: nat where "sizeof_nd_neighbor_solicit = 24"
definition sizeof_nd_neighbor_advert :: nat where "sizeof_nd_neighbor_advert = 24"
definition sizeof_nd_opt_hdr :: nat where "sizeof_nd_opt_hdr = 2"
definition IPPROTO_ICMPV6 :: u8 where "IPPROTO_ICMPV6 = 58"
definition ND_ROUTER_SOLICIT :: u8 where "ND_ROUTER_SOLICIT = 133"
definition ND_ROUTER_ADVERT :: u8 where "ND_ROUTER_ADVERT = 134"
definition ND_NEIGHBOR_SOLICIT :: u8 where "ND_NEIGHBOR_SOLICIT = 135"
definition ND_NEIGHBOR_ADVERT :: u8 where "ND_NEIGHBOR_ADVERT = 136"

lemmas nd_consts =
  sizeof_ip6_hdr_def sizeof_icmp6_hdr_def sizeof_nd_router_solicit_def
  sizeof_nd_router_advert_def sizeof_nd_neighbor_solicit_def sizeof_nd_neighbor_advert_def
  sizeof_nd_opt_hdr_def IPPROTO_ICMPV6_def ND_ROUTER_SOLICIT_def ND_ROUTER_ADVERT_def
  ND_NEIGHBOR_SOLICIT_def ND_NEIGHBOR_ADVERT_def

text \<open>\<open>None\<close> is the null pointer.\<close>

record packet =
  mMessage :: message6
  mType :: packet_type
  mIp :: "nat option"
  mIcmp :: "nat option"
  mFirstOpt :: "nat option"

text \<open>The \<open>switch\<close> over the ICMPv6 type: the packet type and the size of its header.\<close>

definition nd_header :: "u8 \<Rightarrow> (packet_type \<times> nat) option" where
  "nd_header icmp6_type =
     (if icmp6_type = ND_ROUTER_SOLICIT then Some (RouterSolicitation, sizeof_nd_router_solicit)
      else if icmp6_type = ND_ROUTER_ADVERT then Some (RouterAdvertisement, sizeof_nd_router_advert)
      else if icmp6_type = ND_NEIGHBOR_SOLICIT
        then Some (NeighborSolicitation, sizeof_nd_neighbor_solicit)
      else if icmp6_type = ND_NEIGHBOR_ADVERT
        then Some (NeighborAdvertisement, sizeof_nd_neighbor_advert)
      else None)"

definition nd_opt_type :: "mem \<Rightarrow> nat \<Rightarrow> u8" where
  "nd_opt_type m opt = m opt"

definition nd_opt_len :: "mem \<Rightarrow> nat \<Rightarrow> u8" where
  "nd_opt_len m opt = m (opt + 1)"

definition Packet :: "message6 \<Rightarrow> packet" where
  "Packet message =
     (let m = msgData message;
          p = \<lparr>mMessage = message, mType = Other, mIp = None, mIcmp = None, mFirstOpt = None\<rparr>
      in if msgSize message < sizeof_ip6_hdr + sizeof_icmp6_hdr then p
         else
           let p = p\<lparr>mIp := Some 0\<rparr>
           in if drop_bit 4 (m 0 AND 0xF0) \<noteq> 6 \<or> m 6 \<noteq> IPPROTO_ICMPV6 then p
              else
                let size = msgSize message - sizeof_ip6_hdr;
                    dat = sizeof_ip6_hdr;
                    p = p\<lparr>mIcmp := Some dat\<rparr>
                in if m (dat + 1) \<noteq> 0 then p
                   else (case nd_header (m dat) of
                           None \<Rightarrow> p
                         | Some (type, headerSize) \<Rightarrow>
                             if size < headerSize then p
                             else
                               let p = p\<lparr>mType := type\<rparr>;
                                   opts = dat + headerSize
                               in if opts + sizeof_nd_opt_hdr < dat + size \<and>
                                     opts + unat (nd_opt_len m opts) * 8 \<le> dat + size
                                  then p\<lparr>mFirstOpt := Some opts\<rparr>
                                  else p))"

definition fullSize :: "packet \<Rightarrow> nat" where
  "fullSize p = msgSize (mMessage p)"

definition icmpSize :: "packet \<Rightarrow> nat" where
  "icmpSize p = msgSize (mMessage p) - sizeof_ip6_hdr"

definition firstOpt :: "packet \<Rightarrow> nat option" where
  "firstOpt p = mFirstOpt p"

definition nextOpt :: "packet \<Rightarrow> nat \<Rightarrow> nat option" where
  "nextOpt p current =
     (let m = msgData (mMessage p);
          last = msgSize (mMessage p)
      in if (case mFirstOpt p of None \<Rightarrow> False | Some first \<Rightarrow> current < first) \<or> current \<ge> last
         then None
         else
           let nxt = current + unat (nd_opt_len m current) * 8
           in if nxt \<ge> last then None
              else if nxt + unat (nd_opt_len m nxt) * 8 > last then None
              else Some nxt)"

section \<open>Rewriting link addresses\<close>

definition kLinkAddressSize :: nat where "kLinkAddressSize = 6"
definition ND_OPT_SOURCE_LINKADDR :: u8 where "ND_OPT_SOURCE_LINKADDR = 1"
definition ND_OPT_TARGET_LINKADDR :: u8 where "ND_OPT_TARGET_LINKADDR = 2"

text \<open>The body of the loop, and the loop from an option on.\<close>

definition rewrite_option :: "packet \<Rightarrow> bytes \<Rightarrow> u8 \<Rightarrow> nat \<Rightarrow> packet" where
  "rewrite_option packet sll_addr optionType opt =
     (let message = mMessage packet; m = msgData message
      in if nd_opt_type m opt = optionType
         then packet\<lparr>mMessage := message\<lparr>msgData :=
                store m (opt + sizeof_nd_opt_hdr) (take kLinkAddressSize sll_addr)\<rparr>\<rparr>
         else packet)"

partial_function (option) rewrite_from :: "bytes \<Rightarrow> u8 \<Rightarrow> nat option \<Rightarrow> packet \<Rightarrow> packet option" where
  "rewrite_from sll_addr optionType opt packet =
     (case opt of
        None \<Rightarrow> Some packet
      | Some opt \<Rightarrow>
          let packet = rewrite_option packet sll_addr optionType opt
          in rewrite_from sll_addr optionType (nextOpt packet opt) packet)"

definition rewriteLinkAddressOption :: "packet \<Rightarrow> bytes \<Rightarrow> u8 \<Rightarrow> packet option" where
  "rewriteLinkAddressOption packet sll_addr optionType =
     rewrite_from sll_addr optionType (firstOpt packet) packet"

section \<open>Walks over options\<close>

text \<open>
  \<open>visits nxt opt os\<close>: following \<open>nxt\<close> from \<open>opt\<close> on comes to an end, after the options
  \<open>os\<close>.
\<close>

inductive visits :: "(nat \<Rightarrow> nat option) \<Rightarrow> nat option \<Rightarrow> nat list \<Rightarrow> bool" for nxt where
  visits_None: "visits nxt None []"
| visits_Some: "visits nxt (nxt o1) os \<Longrightarrow> visits nxt (Some o1) (o1 # os)"

inductive_cases visits_SomeE: "visits nxt (Some o1) os"
inductive_simps visits_None_iff [simp]: "visits nxt None os"
inductive_simps visits_Some_iff: "visits nxt (Some o1) os"
inductive_simps visits_Nil_iff [simp]: "visits nxt opt []"
inductive_simps visits_Cons_iff: "visits nxt opt (o1 # os)"

lemma visits_loop: "visits nxt opt os \<Longrightarrow> opt = Some o1 \<Longrightarrow> nxt o1 = Some o1 \<Longrightarrow> False"
  by (induction rule: visits.induct) auto

text \<open>
  The interface of the loops \<open>for (opt = firstOpt(); opt; opt = nextOpt(opt))\<close>: the loop
  is the least solution of its equations, and its body changes no length of an option that is
  still to come, so it goes where it would have gone without the body.
\<close>

locale option_loop =
  fixes loop :: "nat option \<Rightarrow> 's \<Rightarrow> 's option"
    and body :: "nat \<Rightarrow> 's \<Rightarrow> 's"
    and step :: "'s \<Rightarrow> nat \<Rightarrow> nat option"
  assumes loop_None: "loop None s = Some s"
    and loop_Some: "loop (Some x) s = loop (step (body x s) x) (body x s)"
    and loop_least: "loop opt s = Some s' \<Longrightarrow> (\<And>s. P None s s) \<Longrightarrow>
      (\<And>x s s'. P (step (body x s) x) (body x s) s' \<Longrightarrow> P (Some x) s s') \<Longrightarrow> P opt s s'"
    and step_body: "y = x \<or> x + 8 \<le> y \<Longrightarrow> step (body x s) y = step s y"
    and step_far: "step s x = Some y \<Longrightarrow> y = x \<or> x + 8 \<le> y"
begin

lemma step_further: "x = z \<or> z + 8 \<le> x \<Longrightarrow> step s x = Some y \<Longrightarrow> y = z \<or> z + 8 \<le> y"
  using step_far [of s x y] by auto

lemma visits_body:
  "visits (step s) opt os \<Longrightarrow> \<forall>y. opt = Some y \<longrightarrow> y = x \<or> x + 8 \<le> y \<Longrightarrow>
   visits (step (body x s)) opt os"
  by (induction rule: visits.induct) (use step_further in \<open>force simp: visits_Some_iff step_body\<close>)+

lemma body_visits:
  "visits (step (body x s)) opt os \<Longrightarrow> \<forall>y. opt = Some y \<longrightarrow> y = x \<or> x + 8 \<le> y \<Longrightarrow>
   visits (step s) opt os"
  by (induction rule: visits.induct) (use step_further in \<open>force simp: visits_Some_iff step_body\<close>)+

lemma loop_ends: "visits (step s) opt os \<Longrightarrow> loop opt s = Some (fold body os s)"
proof (induction os arbitrary: s opt)
  case (Cons x os)
  then have opt: "opt = Some x" and v: "visits (step s) (step s x) os"
    by (auto simp: visits_Cons_iff)
  have "visits (step (body x s)) (step s x) os"
    using visits_body [OF v] step_far by blast
  then have "loop (step s x) (body x s) = Some (fold body os (body x s))" by (rule Cons.IH)
  then show ?case by (simp add: opt loop_Some step_body)
qed (simp add: loop_None)

lemma loop_visits: "loop opt s = Some s' \<Longrightarrow> \<exists>os. visits (step s) opt os \<and> s' = fold body os s"
proof (erule loop_least)
  fix x s s'
  assume "\<exists>os. visits (step (body x s)) (step (body x s) x) os \<and> s' = fold body os (body x s)"
  then obtain os where os: "visits (step (body x s)) (step s x) os" "s' = fold body os (body x s)"
    by (auto simp: step_body)
  have "visits (step s) (step s x) os"
    using body_visits [OF os(1)] step_far by blast
  then show "\<exists>os. visits (step s) (Some x) os \<and> s' = fold body os s"
    using os(2) by (intro exI [of _ "x # os"]) (simp add: visits_Some)
qed simp

lemma loop_iff: "loop opt s = Some s' \<longleftrightarrow> (\<exists>os. visits (step s) opt os \<and> s' = fold body os s)"
  using loop_ends loop_visits by metis

end

section \<open>The options of a packet\<close>

text \<open>
  The reference: the offsets of the options from one on, up to the end of the message or the
  first option without length.
\<close>

function nd_options :: "mem \<Rightarrow> nat \<Rightarrow> nat \<Rightarrow> nat list" where
  "nd_options m fin opt =
     (let nxt = opt + unat (nd_opt_len m opt) * 8
      in opt # (if nd_opt_len m opt = 0 \<or> nxt \<ge> fin \<or> nxt + unat (nd_opt_len m nxt) * 8 > fin
                then [] else nd_options m fin nxt))"
  by pat_completeness auto
termination
  by (relation "measure (\<lambda>(m, fin, opt). fin - opt)") (auto simp: unat_gt_0 intro!: diff_less_mono2)

declare nd_options.simps [simp del]

definition option_list :: "mem \<Rightarrow> nat \<Rightarrow> nat option \<Rightarrow> nat list" where
  "option_list m fin opt = (case opt of None \<Rightarrow> [] | Some x \<Rightarrow> nd_options m fin x)"

text \<open>An offset the loops may be at.\<close>

definition in_packet :: "packet \<Rightarrow> nat \<Rightarrow> bool" where
  "in_packet p x \<longleftrightarrow> (\<exists>f. mFirstOpt p = Some f \<and> f \<le> x) \<and> x < msgSize (mMessage p)"

lemma nextOpt_in_packet:
  assumes "in_packet p x"
  shows "nextOpt p x =
    (let m = msgData (mMessage p); fin = msgSize (mMessage p);
         nxt = x + unat (nd_opt_len m x) * 8
     in if nxt \<ge> fin \<or> nxt + unat (nd_opt_len m nxt) * 8 > fin then None else Some nxt)"
  using assms by (auto simp: nextOpt_def in_packet_def Let_def)

lemma visits_nextOpt:
  "in_packet p x \<Longrightarrow> m = msgData (mMessage p) \<Longrightarrow> fin = msgSize (mMessage p) \<Longrightarrow>
   visits (nextOpt p) (Some x) os \<longleftrightarrow>
     list_all (\<lambda>y. nd_opt_len m y \<noteq> 0) (nd_options m fin x) \<and> os = nd_options m fin x"
proof (induction m fin x arbitrary: os rule: nd_options.induct)
  case (1 m fin x)
  let ?n = "x + unat (nd_opt_len m x) * 8"
  let ?stop = "?n \<ge> fin \<or> ?n + unat (nd_opt_len m ?n) * 8 > fin"
  have nxt: "nextOpt p x = (if ?stop then None else Some ?n)"
    using 1 by (simp add: nextOpt_in_packet Let_def)
  consider (zero) "nd_opt_len m x = 0" | (stop) "nd_opt_len m x \<noteq> 0" ?stop
    | (more) "nd_opt_len m x \<noteq> 0" "\<not> ?stop" by blast
  then show ?case
  proof cases
    case zero
    then have "nextOpt p x = Some x" using 1 nxt by (auto simp: in_packet_def)
    then have "\<not> visits (nextOpt p) (Some x) os" using visits_loop by blast
    moreover have "nd_options m fin x = [x]"
      using zero by (subst nd_options.simps) (simp add: Let_def)
    ultimately show ?thesis using zero by simp
  next
    case stop
    then have "nd_options m fin x = [x]" by (subst nd_options.simps) (auto simp: Let_def)
    then show ?thesis using stop nxt by (auto simp: visits_Some_iff)
  next
    case more
    then have os: "nd_options m fin x = x # nd_options m fin ?n"
      by (subst nd_options.simps) (simp add: Let_def)
    have "in_packet p ?n" using 1 more by (auto simp: in_packet_def)
    then have "visits (nextOpt p) (Some ?n) os' \<longleftrightarrow>
        list_all (\<lambda>y. nd_opt_len m y \<noteq> 0) (nd_options m fin ?n) \<and> os' = nd_options m fin ?n" for os'
      using 1 more by (intro 1(1)) auto
    then show ?thesis using more os nxt by (auto simp: visits_Some_iff)
  qed
qed

section \<open>The rewriting loop\<close>

lemma nextOpt_rewrite:
  assumes "y = x \<or> x + 8 \<le> y"
  shows "nextOpt (rewrite_option p a t x) y = nextOpt p y"
proof -
  let ?m = "msgData (mMessage p)"
  have far: "store ?m (x + 2) (take 6 a) i = ?m i" if "i \<le> x + 1 \<or> x + 8 \<le> i" for i
    using that by (auto simp: store_def)
  have "y + unat l * 8 + 1 \<le> x + 1 \<or> x + 8 \<le> y + unat l * 8 + 1" for l :: u8
    using assms by (cases "unat l") auto
  then have "nd_opt_len (store ?m (x + 2) (take 6 a)) (y + unat l * 8) =
      nd_opt_len ?m (y + unat l * 8)" for l :: u8
    unfolding nd_opt_len_def by (intro far)
  moreover have "nd_opt_len (store ?m (x + 2) (take 6 a)) y = nd_opt_len ?m y"
    using assms unfolding nd_opt_len_def by (intro far) auto
  ultimately show ?thesis
    by (simp add: nextOpt_def rewrite_option_def Let_def kLinkAddressSize_def sizeof_nd_opt_hdr_def)
qed

lemma nextOpt_far: "nextOpt p x = Some y \<Longrightarrow> y = x \<or> x + 8 \<le> y"
  by (cases "unat (nd_opt_len (msgData (mMessage p)) x)")
    (auto simp: nextOpt_def Let_def split: if_splits)

lemma rewrite_from_least:
  assumes "rewrite_from a t opt p = Some p'" and "\<And>p. P None p p"
    and "\<And>x p p'. P (nextOpt (rewrite_option p a t x) x) (rewrite_option p a t x) p' \<Longrightarrow> P (Some x) p p'"
  shows "P opt p p'"
proof -
  have "a' = a \<and> t' = t \<longrightarrow> P opt p p'" if "rewrite_from a' t' opt p = Some p'" for a' t'
    using that
    by (rule rewrite_from.raw_induct [rotated])
      (auto simp: Let_def assms(2) split: option.splits intro!: assms(3))
  with assms(1) show ?thesis by blast
qed

interpretation rewrite: option_loop
    "rewrite_from a t" "\<lambda>x p. rewrite_option p a t x" nextOpt for a t
proof unfold_locales
  show "rewrite_from a t None p = Some p" for p
    by (simp add: rewrite_from.simps)
  show "rewrite_from a t (Some x) p =
      rewrite_from a t (nextOpt (rewrite_option p a t x) x) (rewrite_option p a t x)" for x p
    by (subst rewrite_from.simps) (simp add: Let_def)
qed (auto intro: nextOpt_rewrite rewrite_from_least dest: nextOpt_far)


lemma nd_options_in:
  assumes "x < fin" "x + unat (nd_opt_len m x) * 8 \<le> fin" "y \<in> set (nd_options m fin x)"
  shows "x \<le> y \<and> y < fin \<and> y + unat (nd_opt_len m y) * 8 \<le> fin"
  using assms
proof (induction m fin x rule: nd_options.induct)
  case (1 m fin x)
  let ?n = "x + unat (nd_opt_len m x) * 8"
  consider (here) "y = x"
    | (later) "nd_opt_len m x \<noteq> 0" "?n < fin" "?n + unat (nd_opt_len m ?n) * 8 \<le> fin"
        "y \<in> set (nd_options m fin ?n)"
    using "1.prems"(3) by (subst (asm) nd_options.simps) (auto simp: Let_def not_le split: if_splits)
  then show ?case
  proof cases
    case later
    then have "?n \<le> y \<and> y < fin \<and> y + unat (nd_opt_len m y) * 8 \<le> fin"
      by (intro "1.IH") (auto simp: not_le)
    then show ?thesis by simp
  qed (use "1.prems" in simp)
qed

lemma nd_options_apart: "sorted_wrt (\<lambda>x y. x + 8 \<le> y) (nd_options m fin x)"
proof (induction m fin x rule: nd_options.induct)
  case (1 m fin x)
  let ?n = "x + unat (nd_opt_len m x) * 8"
  show ?case
  proof (cases "nd_opt_len m x = 0 \<or> ?n \<ge> fin \<or> ?n + unat (nd_opt_len m ?n) * 8 > fin")
    case True
    then show ?thesis by (subst nd_options.simps) (simp add: Let_def)
  next
    case False
    then have "x + 8 \<le> ?n" by (cases "unat (nd_opt_len m x)") (auto simp: unat_eq_zero)
    moreover have "sorted_wrt (\<lambda>x y. x + 8 \<le> y) (nd_options m fin ?n)"
      using False "1.IH" by blast
    moreover have "\<forall>y \<in> set (nd_options m fin ?n). ?n \<le> y"
      using False nd_options_in [of ?n fin m] by auto
    ultimately show ?thesis
      using False by (subst nd_options.simps) (auto simp: Let_def dest: order_trans)
  qed
qed

lemma rewrite_from_option_list:
  assumes "\<And>x. opt = Some x \<Longrightarrow> in_packet p x"
    and "os = option_list (msgData (mMessage p)) (msgSize (mMessage p)) opt"
  shows "rewrite_from a t opt p =
    (if list_all (\<lambda>y. nd_opt_len (msgData (mMessage p)) y \<noteq> 0) os
     then Some (fold (\<lambda>x p. rewrite_option p a t x) os p) else None)"
proof (cases opt)
  case None
  then show ?thesis using assms(2) by (simp add: rewrite.loop_None option_list_def)
next
  case (Some y)
  then have "visits (nextOpt p) opt os' \<longleftrightarrow>
      list_all (\<lambda>y. nd_opt_len (msgData (mMessage p)) y \<noteq> 0) os \<and> os' = os" for os'
    using visits_nextOpt [of p y] assms by (auto simp: option_list_def)
  then show ?thesis
    using rewrite.loop_ends [of p opt os a t] rewrite.loop_visits [of a t opt p]
    by (cases "rewrite_from a t opt p") auto
qed

text \<open>What the loop leaves in the message.\<close>

lemma rewrite_option_fields [simp]:
  "mType (rewrite_option p a t x) = mType p" "mIp (rewrite_option p a t x) = mIp p"
  "mIcmp (rewrite_option p a t x) = mIcmp p" "mFirstOpt (rewrite_option p a t x) = mFirstOpt p"
  "msgSize (mMessage (rewrite_option p a t x)) = msgSize (mMessage p)"
  by (simp_all add: rewrite_option_def Let_def)

definition rewrite_bytes :: "bytes \<Rightarrow> u8 \<Rightarrow> nat list \<Rightarrow> mem \<Rightarrow> mem" where
  "rewrite_bytes a t os m = fold (\<lambda>x m. if m x = t then store m (x + 2) (take 6 a) else m) os m"

lemma rewrite_fold:
  "fold (\<lambda>x p. rewrite_option p a t x) os p =
     p\<lparr>mMessage := (mMessage p)\<lparr>msgData := rewrite_bytes a t os (msgData (mMessage p))\<rparr>\<rparr>"
  by (induction os arbitrary: p)
    (auto simp: rewrite_bytes_def rewrite_option_def Let_def nd_opt_type_def
      sizeof_nd_opt_hdr_def kLinkAddressSize_def)

lemma rewrite_bytes_Cons:
  "rewrite_bytes a t (x # os) m =
     rewrite_bytes a t os (if m x = t then store m (x + 2) (take 6 a) else m)"
  by (simp add: rewrite_bytes_def)

lemma rewrite_bytes_other:
  assumes "sorted_wrt (\<lambda>x y. x + 8 \<le> y) os" "6 \<le> length a"
    and "\<And>x. x \<in> set os \<Longrightarrow> m x = t \<Longrightarrow> i < x + 2 \<or> x + 8 \<le> i"
  shows "rewrite_bytes a t os m i = m i"
  using assms
proof (induction os arbitrary: m)
  case (Cons x os)
  let ?m = "if m x = t then store m (x + 2) (take 6 a) else m"
  have far: "x + 8 \<le> y" if "y \<in> set os" for y using that Cons.prems(1) by auto
  then have "?m y = m y" if "y \<in> set os" for y
    using that Cons.prems(2) by (fastforce simp: store_def)
  then have "rewrite_bytes a t os ?m i = ?m i"
    using Cons.prems by (intro Cons.IH) simp_all
  moreover have "?m i = m i"
    using Cons.prems(2) Cons.prems(3) [of x] by (auto simp: store_def)
  ultimately show ?case by (simp add: rewrite_bytes_Cons)
qed (simp add: rewrite_bytes_def)

lemma rewrite_bytes_option:
  assumes "sorted_wrt (\<lambda>x y. x + 8 \<le> y) os" "6 \<le> length a" "x \<in> set os" "m x = t"
  shows "load (rewrite_bytes a t os m) (x + 2) 6 = take 6 a"
  using assms
proof (induction os arbitrary: m)
  case (Cons y os)
  let ?m = "if m y = t then store m (y + 2) (take 6 a) else m"
  have far: "y + 8 \<le> z" if "z \<in> set os" for z using that Cons.prems(1) by auto
  show ?case
  proof (cases "x = y")
    case True
    have "rewrite_bytes a t os ?m i = ?m i" if "i < y + 8" for i
      using that Cons.prems far by (intro rewrite_bytes_other) fastforce+
    then have "load (rewrite_bytes a t os ?m) (x + 2) 6 = load ?m (x + 2) 6"
      using True by (intro load_cong) simp
    then show ?thesis using True Cons.prems by (simp add: rewrite_bytes_Cons mem_simps)
  next
    case False
    then have "x \<in> set os" using Cons.prems by simp
    moreover from this far have "?m x = t" using Cons.prems by (fastforce simp: store_def)
    ultimately show ?thesis
      unfolding rewrite_bytes_Cons using Cons.prems by (intro Cons.IH) simp_all
  qed
qed simp

section \<open>Properties\<close>

text \<open>
  RFC 4861, chapter 4: an IPv6 packet whose next header is ICMPv6, with code zero, the type given,
  and at least the fixed part of the message.
\<close>

definition is_nd_message :: "message6 \<Rightarrow> u8 \<Rightarrow> nat \<Rightarrow> bool" where
  "is_nd_message message icmp6_type headerSize \<longleftrightarrow>
     (let m = msgData message
      in 40 + headerSize \<le> msgSize message \<and> 48 \<le> msgSize message \<and>
         drop_bit 4 (m 0) = 6 \<and> m 6 = IPPROTO_ICMPV6 \<and> m 40 = icmp6_type \<and> m 41 = 0)"

lemma version_nibble [simp]: "drop_bit 4 (w :: u8) AND 15 = drop_bit 4 w"
proof -
  have mask: "(15 :: u8) = mask 4" by code_simp
  show ?thesis
    unfolding mask by (rule bit_word_eqI) (auto simp: bit_simps dest: bit_imp_le_length)
qed

lemma Packet_message [simp]: "mMessage (Packet message) = message"
  by (auto simp: Packet_def Let_def split: option.split)

lemma Packet_pointers:
  "mType (Packet message) \<noteq> Other \<Longrightarrow>
   mIp (Packet message) = Some 0 \<and> mIcmp (Packet message) = Some 40 \<and> 48 \<le> msgSize message"
  by (auto simp: Packet_def Let_def nd_consts split: option.splits if_splits)

lemma nd_header_bounds: "nd_header t = Some (ty, n) \<Longrightarrow> 8 \<le> n \<and> ty \<noteq> Other"
  by (auto simp: nd_header_def nd_consts split: if_splits)

lemma Packet_firstOpt:
  assumes "mFirstOpt (Packet message) = Some x"
  shows "48 \<le> x \<and> x + 2 < msgSize message \<and>
    x + unat (nd_opt_len (msgData message) x) * 8 \<le> msgSize message"
  using assms
  by (auto simp: Packet_def Let_def sizeof_ip6_hdr_def sizeof_icmp6_hdr_def sizeof_nd_opt_hdr_def
      split: option.splits if_splits dest!: nd_header_bounds)

lemma Packet_in_packet: "firstOpt (Packet message) = Some x \<Longrightarrow> in_packet (Packet message) x"
  using Packet_firstOpt [of message x] by (simp add: firstOpt_def in_packet_def)

lemma Packet_type_cases:
  "mType (Packet message) =
     (let m = msgData message
      in if msgSize message < 48 \<or> drop_bit 4 (m 0 AND 0xF0) \<noteq> 6 \<or> m 6 \<noteq> IPPROTO_ICMPV6 \<or> m 41 \<noteq> 0
         then Other
         else case nd_header (m 40) of
             None \<Rightarrow> Other
           | Some (type, n) \<Rightarrow> if msgSize message < 40 + n then Other else type)"
  by (auto simp: Packet_def Let_def sizeof_ip6_hdr_def sizeof_icmp6_hdr_def split: option.splits)

text \<open>The offsets of the options of a received message.\<close>

definition options_of :: "message6 \<Rightarrow> nat list" where
  "options_of message = option_list (msgData message) (msgSize message) (firstOpt (Packet message))"

lemma options_ofE:
  assumes "x \<in> set (options_of message)"
  obtains f where "mFirstOpt (Packet message) = Some f"
    and "x \<in> set (nd_options (msgData message) (msgSize message) f)"
  using assms by (cases "mFirstOpt (Packet message)") (auto simp: options_of_def option_list_def firstOpt_def)

lemma options_of_bounds:
  assumes "x \<in> set (options_of message)"
  shows "48 \<le> x \<and> x < msgSize message \<and>
    x + unat (nd_opt_len (msgData message) x) * 8 \<le> msgSize message"
  using assms
proof (rule options_ofE)
  fix f assume f: "mFirstOpt (Packet message) = Some f"
    "x \<in> set (nd_options (msgData message) (msgSize message) f)"
  from Packet_firstOpt [OF f(1)] nd_options_in [OF _ _ f(2)] show ?thesis by auto
qed

text \<open>
  A received message is exactly one of the four neighbor discovery messages the proxy cares
  about when it is an IPv6 packet with an ICMPv6 message of its type, code zero, and at least the
  message's fixed part; everything else is \<open>Other\<close>.
\<close>

theorem packet_classification:
  "mType (Packet message) =
    (if is_nd_message message ND_ROUTER_SOLICIT 8 then RouterSolicitation
     else if is_nd_message message ND_ROUTER_ADVERT 16 then RouterAdvertisement
     else if is_nd_message message ND_NEIGHBOR_SOLICIT 24 then NeighborSolicitation
     else if is_nd_message message ND_NEIGHBOR_ADVERT 24 then NeighborAdvertisement
     else Other)"
  by (simp add: Packet_type_cases nd_header_def is_nd_message_def Let_def nd_consts)

text \<open>
  Every option the loops of the proxy visit lies behind the headers, starts inside the message
  and ends inside it.
\<close>

theorem options_inside_message:
  assumes "x \<in> set (options_of message)"
  shows "48 \<le> x \<and> x < msgSize message \<and>
    x + unat (nd_opt_len (msgData message) x) * 8 \<le> msgSize message"
  using assms by (rule options_of_bounds)

text \<open>
  Rewriting the link addresses of a received message comes to an end if, and only if, none of
  its options has length zero: an option without length is visited again for ever.
\<close>

theorem rewriting_ends_iff_no_empty_option:
  "(\<exists>p. rewriteLinkAddressOption (Packet message) sll_addr optionType = Some p) \<longleftrightarrow>
   list_all (\<lambda>x. nd_opt_len (msgData message) x \<noteq> 0) (options_of message)"
  using rewrite_from_option_list [of "firstOpt (Packet message)" "Packet message"
      "options_of message" sll_addr optionType] Packet_in_packet [of message]
  by (auto simp: rewriteLinkAddressOption_def options_of_def)

lemma rewriteLinkAddressOption_Some:
  assumes "rewriteLinkAddressOption (Packet message) a t = Some p"
  shows "p = (Packet message)\<lparr>mMessage :=
      message\<lparr>msgData := rewrite_bytes a t (options_of message) (msgData message)\<rparr>\<rparr> \<and>
    list_all (\<lambda>x. nd_opt_len (msgData message) x \<noteq> 0) (options_of message)"
  using assms rewrite_from_option_list [of "firstOpt (Packet message)" "Packet message"
      "options_of message" a t] Packet_in_packet [of message]
  by (auto simp: rewriteLinkAddressOption_def options_of_def rewrite_fold split: if_splits)

lemma options_of_apart: "sorted_wrt (\<lambda>x y. x + 8 \<le> y) (options_of message)"
  by (simp add: options_of_def option_list_def nd_options_apart split: option.split)



theorem options_inside_message_witness:
  "48 < msgSize \<lparr>msgData = (\<lambda>_. 0)(0 := 0x60, 6 := 58, 40 := 133, 48 := 1, 49 := 1), msgSize = 56\<rparr>"
  using options_inside_message [of 48
      "\<lparr>msgData = (\<lambda>_. 0)(0 := 0x60, 6 := 58, 40 := 133, 48 := 1, 49 := 1), msgSize = 56\<rparr>"]
  by (simp add: options_of_def option_list_def firstOpt_def Packet_def Let_def nd_consts nd_header_def
      nd_opt_len_def nd_options.simps)


end
