(* ===== verification/ProxySocket.thy ===== *)
theory ProxySocket
  imports ProxyPacket Interface
begin

text \<open>
  What the IPv6 proxy uses of the system: its socket class (\<open>network/ipv6proxy/socket.cpp\<close>), the
  addresses (\<open>network/ipv6proxy/address.cpp\<close>), its interfaces
  (\<open>network/ipv6proxy/interface.cpp\<close>) and its router (\<open>network/ipv6proxy/router.cpp\<close>).  The
  routing requests are built with the same attribute writer as those of the DHCP client.
\<close>

section \<open>Sockets\<close>

datatype socket_state = SocketNew | SocketOpen | SocketBound | SocketMoved | SocketDestructed

record socket6 =
  sockState :: socket_state
  sockFd :: int

definition AF_INET6 :: int where "AF_INET6 = 10"
definition AF_INET_proxy :: int where "AF_INET_proxy = 2"
definition AF_PACKET :: int where "AF_PACKET = 17"
definition SOCK_DGRAM_proxy :: int where "SOCK_DGRAM_proxy = 2"
definition IPPROTO_IP :: int where "IPPROTO_IP = 0"
definition IPPROTO_IPV6 :: int where "IPPROTO_IPV6 = 41"
definition ETH_P_IPV6 :: u16 where "ETH_P_IPV6 = 0x86DD"
definition SOL_SOCKET :: int where "SOL_SOCKET = 1"
definition SO_BINDTODEVICE :: int where "SO_BINDTODEVICE = 25"
definition IPV6_UNICAST_HOPS :: int where "IPV6_UNICAST_HOPS = 16"
definition IPV6_MULTICAST_HOPS :: int where "IPV6_MULTICAST_HOPS = 18"
definition IPV6_TRANSPARENT :: int where "IPV6_TRANSPARENT = 75"

definition Socket6_new :: socket6 where
  "Socket6_new = \<lparr>sockState = SocketNew, sockFd = -1\<rparr>"

text \<open>The move constructor: the new socket and what is left of the other one.\<close>

definition Socket6_move :: "socket6 \<Rightarrow> socket6 \<times> socket6" where
  "Socket6_move other = (other, \<lparr>sockState = SocketMoved, sockFd = -1\<rparr>)"

definition Socket6_destroy :: "kernel \<Rightarrow> socket6 \<Rightarrow> (trace, socket6) state" where
  "Socket6_destroy k s = do {
     s \<leftarrow> (if sockFd s \<noteq> -1
          then do { _ \<leftarrow> sys k (Close (sockFd s)); State_Monad.return (s\<lparr>sockFd := -1\<rparr>) }
          else State_Monad.return s);
     State_Monad.return (s\<lparr>sockState := SocketDestructed\<rparr>)
   }"

definition Socket6_assign :: "kernel \<Rightarrow> socket6 \<Rightarrow> socket6 \<Rightarrow> (trace, socket6 \<times> socket6) state" where
  "Socket6_assign k s other = do {
     _ \<leftarrow> (if sockFd s \<noteq> -1 then do { _ \<leftarrow> sys k (Close (sockFd s)); State_Monad.return () }
          else State_Monad.return ());
     State_Monad.return
       (\<lparr>sockState = sockState other, sockFd = sockFd other\<rparr>, \<lparr>sockState = SocketMoved, sockFd = -1\<rparr>)
   }"

text \<open>\<open>Result::error(strerror(errno))\<close> when a call returned -1.\<close>

definition call_result :: "answer \<Rightarrow> result" where
  "call_result a = (if ret a = -1 then Error '''' (Some (err a)) else Success)"

definition Socket6_open ::
  "kernel \<Rightarrow> int \<Rightarrow> int \<Rightarrow> int \<Rightarrow> socket6 \<Rightarrow> (trace, result \<times> socket6) state" where
  "Socket6_open k domain type protocol s =
     (if sockState s \<noteq> SocketNew
      then State_Monad.return (Error ''open called on socket in invalid state'' None, s)
      else do {
        a \<leftarrow> sys k (SocketCreate domain (type + SOCK_CLOEXEC) protocol);
        let s = s\<lparr>sockFd := ret a\<rparr>;
        State_Monad.return
          (if sockFd s = -1 then (Error '''' (Some (err a)), s)
           else (Success, s\<lparr>sockState := SocketOpen\<rparr>))
      })"

definition set_option :: "kernel \<Rightarrow> int \<Rightarrow> int \<Rightarrow> bytes \<Rightarrow> socket6 \<Rightarrow> (trace, result) state" where
  "set_option k level option value s =
     (if sockState s \<noteq> SocketOpen
      then State_Monad.return (Error ''attempting to set option in invalid state'' None)
      else do {
        res \<leftarrow> sys k (SetSockOptVal (sockFd s) level option value);
        State_Monad.return (call_result res)
      })"

definition setInterface :: "kernel \<Rightarrow> string \<Rightarrow> socket6 \<Rightarrow> (trace, result) state" where
  "setInterface k interface s = set_option k SOL_SOCKET SO_BINDTODEVICE (map of_char interface) s"

definition setMulticastHopLimit :: "kernel \<Rightarrow> int \<Rightarrow> socket6 \<Rightarrow> (trace, result) state" where
  "setMulticastHopLimit k hopLimit s =
     set_option k IPPROTO_IPV6 IPV6_MULTICAST_HOPS (bytes32 (of_int hopLimit)) s"

definition setUnicastHopLimit :: "kernel \<Rightarrow> int \<Rightarrow> socket6 \<Rightarrow> (trace, result) state" where
  "setUnicastHopLimit k hopLimit s =
     set_option k IPPROTO_IPV6 IPV6_UNICAST_HOPS (bytes32 (of_int hopLimit)) s"

definition setTransparent :: "kernel \<Rightarrow> bool \<Rightarrow> socket6 \<Rightarrow> (trace, result) state" where
  "setTransparent k transparent s =
     set_option k IPPROTO_IPV6 IPV6_TRANSPARENT (bytes32 (if transparent then 1 else 0)) s"

definition Socket6_bind :: "kernel \<Rightarrow> bytes \<Rightarrow> socket6 \<Rightarrow> (trace, result \<times> socket6) state" where
  "Socket6_bind k address s =
     (if sockState s \<noteq> SocketOpen
      then State_Monad.return (Error ''bind called on socket in invalid state'' None, s)
      else do {
        res \<leftarrow> sys k (Bind (sockFd s) (SockaddrBytes address));
        State_Monad.return
          (if ret res = -1 then (Error '''' (Some (err res)), s)
           else (Success, s\<lparr>sockState := SocketBound\<rparr>))
      })"

text \<open>
  A received datagram, cut to the capacity of the message, lands at the start of its buffer; the
  bytes behind it stay as they were.
\<close>

definition received6 :: "answer \<Rightarrow> message6 \<Rightarrow> message6" where
  "received6 a message =
     (let rx = take capacity6 (data a)
      in message\<lparr>msgData := store (msgData message) 0 rx, msgSize := length rx\<rparr>)"

definition Socket6_receive ::
  "kernel \<Rightarrow> message6 \<Rightarrow> socket6 \<Rightarrow> (trace, result \<times> message6) state" where
  "Socket6_receive k message s =
     (if sockState s \<noteq> SocketBound
      then State_Monad.return (Error ''Attempt to receive on a socket that isn't bound'' None, message)
      else do {
        a \<leftarrow> sys k (Recv (sockFd s));
        State_Monad.return
          (if ret a < 0 then (Error '''' (Some (err a)), message) else (Success, received6 a message))
      })"

definition sizeof_sockaddr_storage :: nat where "sizeof_sockaddr_storage = 128"

text \<open>\<open>Address::reset\<close>: \<open>resize\<close> keeps what fits and fills up with zeros.\<close>

definition Address_reset :: "bytes \<Rightarrow> bytes" where
  "Address_reset storage =
     take sizeof_sockaddr_storage storage @ replicate (sizeof_sockaddr_storage - length storage) 0"

definition Socket6_receiveFrom ::
  "kernel \<Rightarrow> message6 \<Rightarrow> bytes \<Rightarrow> socket6 \<Rightarrow> (trace, result \<times> message6 \<times> bytes) state" where
  "Socket6_receiveFrom k message src s =
     (if sockState s \<noteq> SocketBound
      then State_Monad.return
             (Error ''Attempt to receive on a socket that isn't bound'' None, message, src)
      else do {
        let src = Address_reset src;
        a \<leftarrow> sys k (RecvFrom (sockFd s));
        State_Monad.return
          (if ret a < 0 then (Error '''' (Some (err a)), message, src)
           else (Success, received6 a message, overlay (addr_data a) src))
      })"

text \<open>The senders, on bound and merely open sockets alike.\<close>

definition sending :: "kernel \<Rightarrow> call \<Rightarrow> socket6 \<Rightarrow> (trace, result) state" where
  "sending k c s =
     (if sockState s \<noteq> SocketBound \<and> sockState s \<noteq> SocketOpen
      then State_Monad.return (Error ''Attempt to send on a socket in invalid state'' None)
      else do { res \<leftarrow> sys k c; State_Monad.return (call_result res) })"

definition Socket6_send :: "kernel \<Rightarrow> bytes \<Rightarrow> socket6 \<Rightarrow> (trace, result) state" where
  "Socket6_send k dat s = sending k (Send (sockFd s) dat) s"

definition Socket6_sendTo :: "kernel \<Rightarrow> sockaddr \<Rightarrow> bytes \<Rightarrow> socket6 \<Rightarrow> (trace, result) state" where
  "Socket6_sendTo k destination dat s = sending k (SendTo (sockFd s) destination dat) s"

definition sendTo6 :: "kernel \<Rightarrow> bytes \<Rightarrow> bytes \<Rightarrow> socket6 \<Rightarrow> (trace, result) state" where
  "sendTo6 k destination dat s = Socket6_sendTo k (SockaddrIn6 destination) dat s"

text \<open>\<open>sendFrom\<close> does not look at the state of the socket.\<close>

definition Socket6_sendFrom ::
  "kernel \<Rightarrow> bytes \<Rightarrow> sockaddr \<Rightarrow> bytes \<Rightarrow> socket6 \<Rightarrow> (trace, result) state" where
  "Socket6_sendFrom k fromAddress destination dat s = do {
     res \<leftarrow> sys k (SendMsgFrom (sockFd s) fromAddress destination dat);
     State_Monad.return (call_result res)
   }"

definition sendFrom6 ::
  "kernel \<Rightarrow> bytes \<Rightarrow> bytes \<Rightarrow> bytes \<Rightarrow> socket6 \<Rightarrow> (trace, result) state" where
  "sendFrom6 k fromAddress destination dat s =
     Socket6_sendFrom k fromAddress (SockaddrIn6 destination) dat s"

section \<open>Addresses\<close>

text \<open>\<open>mStorage\<close>, a vector of bytes; the four constructors.\<close>

definition Address_new :: bytes where "Address_new = []"

definition Address_of_sockaddr :: "bytes \<Rightarrow> bytes" where "Address_of_sockaddr address = address"

definition sizeof_sockaddr_in6 :: nat where "sizeof_sockaddr_in6 = 28"

definition Address_of_in6 :: "bytes \<Rightarrow> bytes" where
  "Address_of_in6 address =
     bytes16 (of_int AF_INET6) @ replicate 6 0 @ take 16 address @
     replicate (sizeof_sockaddr_in6 - 24) 0"

definition resolveInet :: "kernel \<Rightarrow> string \<Rightarrow> bytes \<Rightarrow> (trace, result \<times> bytes) state" where
  "resolveInet k address storage = do {
     res \<leftarrow> sys k (GetAddrInfo address);
     State_Monad.return
       (if ret res \<noteq> 0 then (Error '''' (Some (ret res)), storage) else (Success, data res))
   }"

text \<open>
  \<open>resolveEth\<close> fills in a \<open>sockaddr_ll\<close>: family, protocol, interface index, four bytes that
  stay zero (hardware type, packet type and length), and eight bytes for the link address.  The
  local socket is closed by its destructor on every return behind its \<open>open\<close>.
\<close>

definition ifreq_for :: "string \<Rightarrow> bytes" where
  "ifreq_for interface =
     (let name = take (IFNAMSIZ - 1) (cstr interface)
      in name @ replicate (sizeof_ifreq - length name) 0)"

definition ethAddress :: "u32 \<Rightarrow> bytes \<Rightarrow> bytes" where
  "ethAddress sll_ifindex sll_addr =
     bytes16 (of_int AF_PACKET) @ bytes16 (htons ETH_P_IPV6) @ bytes32 sll_ifindex @ [0, 0, 0, 0] @
     sll_addr @ replicate (8 - length sll_addr) 0"

definition resolveEth :: "kernel \<Rightarrow> string \<Rightarrow> (trace, result \<times> bytes) state" where
  "resolveEth k interfaceName = do {
     a \<leftarrow> sys k (IfNameToIndex interfaceName);
     let index = (of_int (ret a) :: u32);
     if index = 0 then State_Monad.return (Error '''' (Some (err a)), ethAddress 0 [])
     else do {
       let request = ifreq_for interfaceName;
       (res, socket) \<leftarrow> Socket6_open k AF_INET_proxy SOCK_DGRAM_proxy IPPROTO_IP Socket6_new;
       if \<not> isSuccess res
       then do { _ \<leftarrow> Socket6_destroy k socket; State_Monad.return (res, ethAddress index []) }
       else do {
         status \<leftarrow> sys k (Ioctl (sockFd socket) SIOCGIFHWADDR request);
         _ \<leftarrow> Socket6_destroy k socket;
         State_Monad.return
           (if ret status \<noteq> 0 then (Error '''' (Some (err status)), ethAddress index [])
            else (Success, ethAddress index (take 6 (drop 18 (overlay (data status) request)))))
       }
     }
   }"

section \<open>Interfaces\<close>

record interface6 =
  ifName :: string
  ifIndex :: u32
  ifIpSocket :: socket6
  ifIcmpSocket :: socket6
  ifLinkAddr :: bytes

text \<open>The index of a new interface is whatever \<open>g\<close> the memory held.\<close>

definition Interface6_new :: "u32 \<Rightarrow> string \<Rightarrow> interface6" where
  "Interface6_new g name = \<lparr>ifName = name, ifIndex = g, ifIpSocket = Socket6_new,
     ifIcmpSocket = Socket6_new, ifLinkAddr = Address_new\<rparr>"

text \<open>\<open>sll_addr\<close> of the link address, at offset 12 of the \<open>sockaddr_ll\<close>.\<close>

definition linkAddr :: "interface6 \<Rightarrow> bytes" where
  "linkAddr i = drop 12 (ifLinkAddr i)"

text \<open>\<open>IFF_ALLMULTI\<close>, 0x200, is in the second byte of the flags at offset 16.\<close>

definition setAllMulti :: "kernel \<Rightarrow> interface6 \<Rightarrow> (trace, bool) state" where
  "setAllMulti k i = do {
     let request = ifreq_for (ifName i);
     (res, socket) \<leftarrow> Socket6_open k AF_INET_proxy SOCK_DGRAM_proxy IPPROTO_IP Socket6_new;
     ok \<leftarrow> (if \<not> isSuccess res then State_Monad.return False
           else do {
             status \<leftarrow> sys k (Ioctl (sockFd socket) SIOCGIFFLAGS request);
             if ret status \<noteq> 0 then State_Monad.return False
             else do {
               let request = overlay (data status) request;
               if (request ! 17) AND 2 \<noteq> 0 then State_Monad.return True
               else do {
                 let request = request[17 := (request ! 17) OR 2];
                 status \<leftarrow> sys k (Ioctl (sockFd socket) SIOCSIFFLAGS request);
                 State_Monad.return (ret status = 0)
               }
             }
           });
     _ \<leftarrow> Socket6_destroy k socket;
     State_Monad.return ok
   }"

definition resolveAddresses :: "kernel \<Rightarrow> interface6 \<Rightarrow> (trace, bool \<times> interface6) state" where
  "resolveAddresses k i = do {
     (res, storage) \<leftarrow> resolveEth k (ifName i);
     let i = i\<lparr>ifLinkAddr := storage\<rparr>;
     if \<not> isSuccess res then State_Monad.return (False, i)
     else do {
       a \<leftarrow> sys k (IfNameToIndex (ifName i));
       let i = i\<lparr>ifIndex := of_int (ret a)\<rparr>;
       State_Monad.return (ifIndex i \<noteq> 0, i)
     }
   }"

definition configureIcmpSocket :: "kernel \<Rightarrow> interface6 \<Rightarrow> (trace, bool \<times> interface6) state" where
  "configureIcmpSocket k i = do {
     (res, s) \<leftarrow> Socket6_open k AF_INET6 SOCK_RAW (uint IPPROTO_ICMPV6) (ifIcmpSocket i);
     let i = i\<lparr>ifIcmpSocket := s\<rparr>;
     if \<not> isSuccess res then State_Monad.return (False, i)
     else do {
       res \<leftarrow> on_success (setMulticastHopLimit k 255 s)
               (on_success (setUnicastHopLimit k 255 s)
               (on_success (setInterface k (ifName i) s)
               (setTransparent k True s)));
       State_Monad.return (isSuccess res, i)
     }
   }"

text \<open>The protocol of the packet socket is passed to \<open>socket\<close> in host byte order.\<close>

definition configureIpSocket :: "kernel \<Rightarrow> interface6 \<Rightarrow> (trace, bool \<times> interface6) state" where
  "configureIpSocket k i = do {
     (res, s) \<leftarrow> Socket6_open k AF_PACKET SOCK_DGRAM_proxy (uint ETH_P_IPV6) (ifIpSocket i);
     let i = i\<lparr>ifIpSocket := s\<rparr>;
     if \<not> isSuccess res then State_Monad.return (False, i)
     else do {
       (res, s) \<leftarrow> Socket6_bind k (ifLinkAddr i) s;
       State_Monad.return (isSuccess res, i\<lparr>ifIpSocket := s\<rparr>)
     }
   }"

text \<open>\<open>a && b\<close> of operations on an interface.\<close>

definition and_then ::
  "(trace, bool \<times> 'a) state \<Rightarrow> ('a \<Rightarrow> (trace, bool \<times> 'a) state) \<Rightarrow> (trace, bool \<times> 'a) state" where
  "and_then m f = do { (ok, i) \<leftarrow> m; if ok then f i else State_Monad.return (False, i) }"

definition Interface6_init :: "kernel \<Rightarrow> interface6 \<Rightarrow> (trace, bool \<times> interface6) state" where
  "Interface6_init k i =
     and_then (do { ok \<leftarrow> setAllMulti k i; State_Monad.return (ok, i) })
       (\<lambda>i. and_then (resolveAddresses k i)
       (\<lambda>i. and_then (configureIpSocket k i) (configureIcmpSocket k)))"

section \<open>The router\<close>

definition RTM_NEWNEIGH :: u16 where "RTM_NEWNEIGH = 28"
definition NUD_PERMANENT :: u16 where "NUD_PERMANENT = 0x80"
definition NTF_PROXY :: u8 where "NTF_PROXY = 8"
definition NDA_DST :: u16 where "NDA_DST = 1"
definition RTA_DST :: u16 where "RTA_DST = 1"
definition RTA_SRC :: u16 where "RTA_SRC = 2"
definition RTPROT_RA :: u8 where "RTPROT_RA = 9"

definition Router6_init :: "kernel \<Rightarrow> socket6 \<Rightarrow> (trace, bool \<times> socket6) state" where
  "Router6_init k s = do {
     (res, s) \<leftarrow> Socket6_open k AF_NETLINK SOCK_RAW NETLINK_ROUTE s;
     State_Monad.return (isSuccess res, s)
   }"

definition sendNetlinkMessage6 :: "kernel \<Rightarrow> bytes \<Rightarrow> socket6 \<Rightarrow> (trace, bool) state" where
  "sendNetlinkMessage6 k dat s = do {
     res \<leftarrow> Socket6_sendTo k SockaddrNl dat s;
     State_Monad.return (isSuccess res)
   }"

text \<open>The 12 bytes of \<open>ndmsg\<close>: family, padding, interface index, state, flags, type.\<close>

definition neighbor_request :: "bytes \<Rightarrow> u32 \<Rightarrow> mem" where
  "neighbor_request address interfaceIndex =
     (let r = store (\<lambda>_. 0) 0
            (bytes32 28 @ bytes16 RTM_NEWNEIGH @ bytes16 (NLM_F_REQUEST OR NLM_F_CREATE) @
             replicate 8 0 @
             [of_int AF_INET6, 0, 0, 0] @ bytes32 interfaceIndex @ bytes16 NUD_PERMANENT @
             [NTF_PROXY, 0])
      in addRouterAttribute r NDA_DST address)"

definition addNeighbor :: "kernel \<Rightarrow> bytes \<Rightarrow> u32 \<Rightarrow> socket6 \<Rightarrow> (trace, bool) state" where
  "addNeighbor k address interfaceIndex s =
     sendNetlinkMessage6 k (request_bytes (neighbor_request address interfaceIndex)) s"

definition route_request0 :: "u8 \<Rightarrow> mem" where
  "route_request0 rtm_dst_len =
     store (\<lambda>_. 0) 0
       (bytes32 28 @ bytes16 RTM_NEWROUTE @ bytes16 (NLM_F_REQUEST OR NLM_F_CREATE) @
        replicate 8 0 @
        [of_int AF_INET6, rtm_dst_len, 0, 0, RT_TABLE_MAIN, RTPROT_RA, RT_SCOPE_UNIVERSE, RTN_UNICAST] @
        bytes32 0)"

definition addRoute_request :: "bytes \<Rightarrow> u8 \<Rightarrow> u32 \<Rightarrow> mem" where
  "addRoute_request address bits ifaceIndex =
     (let r = route_request0 bits;
          r = addRouterAttribute r RTA_DST address
      in addRouterAttribute r RTA_OIF (bytes32 ifaceIndex))"

definition addRoute :: "kernel \<Rightarrow> bytes \<Rightarrow> u8 \<Rightarrow> u32 \<Rightarrow> socket6 \<Rightarrow> (trace, bool) state" where
  "addRoute k address bits ifaceIndex s =
     sendNetlinkMessage6 k (request_bytes (addRoute_request address bits ifaceIndex)) s"

definition gateway6_request :: "bytes \<Rightarrow> u32 \<Rightarrow> mem" where
  "gateway6_request address ifaceIndex =
     (let r = route_request0 0;
          anyAddress = replicate 16 0;
          r = addRouterAttribute r RTA_GATEWAY address;
          r = addRouterAttribute r RTA_OIF (bytes32 ifaceIndex)
      in addRouterAttribute r RTA_SRC anyAddress)"

definition setDefaultGateway6 :: "kernel \<Rightarrow> bytes \<Rightarrow> u32 \<Rightarrow> socket6 \<Rightarrow> (trace, bool) state" where
  "setDefaultGateway6 k address ifaceIndex s =
     sendNetlinkMessage6 k (request_bytes (gateway6_request address ifaceIndex)) s"

section \<open>What the kernel reads from the routing requests\<close>

lemma route_request_reads:
  assumes "request_holds 28 r0 []" "list_all wf_attr ats" "attrs_size ats \<le> 256"
    and "r = route_request.add_all r0 ats"
  shows "parse_attrs (drop 28 (request_bytes r)) = ats"
    and "length (request_bytes r) = 28 + attrs_size ats"
    and "unat (nlmsg_len r) = 28 + attrs_size ats"
    and "4 \<le> i \<Longrightarrow> i < 28 \<or> 28 + attrs_size ats \<le> i \<Longrightarrow> r i = r0 i"
proof -
  have h: "request_holds 28 r ats"
    using route_request.add_all_holds [OF assms(1,2)] assms(3,4) by simp
  have "drop 28 (request_bytes r) = concat (map encode_attr ats)"
    by (simp add: request_bytes_split(1) [OF h])
  then show "parse_attrs (drop 28 (request_bytes r)) = ats"
    using parse_encode_attrs [OF assms(2)] by simp
  show "length (request_bytes r) = 28 + attrs_size ats" by (rule request_bytes_split(2) [OF h])
  show "unat (nlmsg_len r) = 28 + attrs_size ats"
    using h by (simp add: request_holds_def attrs_size_def)
  show "r i = r0 i" if "4 \<le> i" "i < 28 \<or> 28 + attrs_size ats \<le> i"
    using that route_request.add_all_frame [OF assms(1,2), of i] assms(3,4) by simp
qed

lemma route_request0_holds: "request_holds 28 (route_request0 b) []"
  unfolding route_request0_def using request0_holds [where base = 28] by simp

text \<open>
  The route request for an address is a well formed netlink request: the kernel reads from it
  an IPv6 route of the given prefix length, with the address as destination and the interface as
  the way out, as long as its header says and with nothing written behind it.
\<close>

theorem add_route_request:
  assumes "length address = 16" and "r = addRoute_request address bits ix"
  shows "parse_attrs (drop 28 (request_bytes r)) = [(RTA_DST, address), (RTA_OIF, bytes32 ix)] \<and>
    unat (nlmsg_len r) = 56 \<and> length (request_bytes r) = 56 \<and>
    load r 4 2 = bytes16 RTM_NEWROUTE \<and> r 16 = of_int AF_INET6 \<and> r 17 = bits \<and>
    r 20 = RT_TABLE_MAIN \<and> (\<forall>i\<ge>56. r i = 0)"
proof -
  let ?ats = "[(RTA_DST, address), (RTA_OIF, bytes32 ix)]"
  have ats: "list_all wf_attr ?ats" "attrs_size ?ats \<le> 256" "attrs_size ?ats = 28"
    using assms(1) by (simp_all add: wf_attr_def)
  have "r = route_request.add_all (route_request0 bits) ?ats"
    by (simp add: assms(2) addRoute_request_def)
  note reads = route_request_reads [OF route_request0_holds ats(1,2) this]
  have r0: "route_request0 bits 4 = 24" "route_request0 bits 5 = 0" "route_request0 bits 16 = 10"
    "route_request0 bits 17 = bits" "route_request0 bits 20 = RT_TABLE_MAIN"
    by (simp_all add: route_request0_def store_def nth_append nth_Cons' bytes16_def bytes32_def
        AF_INET6_def RTM_NEWROUTE_def)
  have "r i = 0" if "56 \<le> i" for i
    using that reads(4) [of i] ats(3) by (simp add: route_request0_def store_def)
  then show ?thesis
    using reads(1-3) reads(4) [of 4] reads(4) [of 5] reads(4) [of 16] reads(4) [of 17]
      reads(4) [of 20] r0 ats(3)
    by (simp add: load_2 bytes16_def RTM_NEWROUTE_def AF_INET6_def)
qed

theorem add_route_request_witness:
  "parse_attrs (drop 28 (request_bytes (addRoute_request (replicate 16 7) 128 3))) =
     [(RTA_DST, replicate 16 7), (RTA_OIF, bytes32 3)]"
  using add_route_request [of "replicate 16 7" _ 128 3] by simp

text \<open>
  The default gateway request names the router as gateway, the interface as the way out and
  the unspecified address as source, and is well formed.
\<close>

theorem gateway6_request_reads:
  assumes "length address = 16" and "r = gateway6_request address ix"
  shows "parse_attrs (drop 28 (request_bytes r)) =
      [(RTA_GATEWAY, address), (RTA_OIF, bytes32 ix), (RTA_SRC, replicate 16 0)] \<and>
    unat (nlmsg_len r) = 76 \<and> length (request_bytes r) = 76 \<and>
    r 16 = of_int AF_INET6 \<and> r 17 = 0 \<and> (\<forall>i\<ge>76. r i = 0)"
proof -
  let ?ats = "[(RTA_GATEWAY, address), (RTA_OIF, bytes32 ix), (RTA_SRC, replicate 16 0)]"
  have ats: "list_all wf_attr ?ats" "attrs_size ?ats \<le> 256" "attrs_size ?ats = 48"
    using assms(1) by (simp_all add: wf_attr_def)
  have "r = route_request.add_all (route_request0 0) ?ats"
    by (simp add: assms(2) gateway6_request_def Let_def)
  note reads = route_request_reads [OF route_request0_holds ats(1,2) this]
  have r0: "route_request0 0 16 = 10" "route_request0 0 17 = 0"
    by (simp_all add: route_request0_def store_def nth_append nth_Cons' bytes16_def AF_INET6_def)
  have "r i = 0" if "76 \<le> i" for i
    using that reads(4) [of i] ats(3) by (simp add: route_request0_def store_def)
  then show ?thesis
    using reads(1-3) reads(4) [of 16] reads(4) [of 17] r0 ats(3)
    by (simp add: AF_INET6_def)
qed

theorem gateway6_request_reads_witness:
  "length (request_bytes (gateway6_request (replicate 16 7) 3)) = 76"
  using gateway6_request_reads [of "replicate 16 7" _ 3] by simp

section \<open>A started interface\<close>

definition ready_if :: "interface6 \<Rightarrow> bool" where
  "ready_if i \<longleftrightarrow> sockState (ifIpSocket i) = SocketBound \<and> sockFd (ifIpSocket i) \<noteq> -1 \<and>
     sockState (ifIcmpSocket i) = SocketOpen \<and> sockFd (ifIcmpSocket i) \<noteq> -1 \<and>
     ifIndex i \<noteq> 0 \<and> length (ifLinkAddr i) = 20"

lemma length_ethAddress:
  "length (ethAddress ix []) = 20" "length (ethAddress ix (take 6 mac)) = 20"
  by (simp_all add: ethAddress_def)

lemma resolveEth_length: "run_state (resolveEth k n) t = ((res, a), t') \<Longrightarrow> length a = 20"
  by (auto simp: resolveEth_def length_ethAddress Let_def
      split: if_splits prod.splits)

lemma Socket6_open_Success:
  "run_state (Socket6_open k d ty pr s) t = ((Success, s'), t') \<Longrightarrow>
   sockState s' = SocketOpen \<and> sockFd s' \<noteq> -1"
  by (auto simp: Socket6_open_def Let_def split: if_splits)

lemma Socket6_bind_Success:
  "run_state (Socket6_bind k a s) t = ((Success, s'), t') \<Longrightarrow>
   sockState s' = SocketBound \<and> sockFd s' = sockFd s"
  by (auto simp: Socket6_bind_def split: if_splits)

lemma run_and_then [simp]:
  "run_state (and_then m f) t =
     (case run_state m t of ((ok, i), t') \<Rightarrow> if ok then run_state (f i) t' else ((False, i), t'))"
  by (simp add: and_then_def split: prod.split)

lemma resolveAddresses_True:
  "run_state (resolveAddresses k i) t = ((True, i'), t') \<Longrightarrow>
   ifIndex i' \<noteq> 0 \<and> length (ifLinkAddr i') = 20 \<and> ifName i' = ifName i"
  by (auto simp: resolveAddresses_def Let_def split: if_splits prod.splits dest: resolveEth_length)

lemma configureIpSocket_True:
  "run_state (configureIpSocket k i) t = ((True, i'), t') \<Longrightarrow>
   sockState (ifIpSocket i') = SocketBound \<and> sockFd (ifIpSocket i') \<noteq> -1 \<and>
   ifIndex i' = ifIndex i \<and> ifLinkAddr i' = ifLinkAddr i \<and> ifName i' = ifName i"
  by (auto simp: configureIpSocket_def Let_def split: if_splits prod.splits
      dest!: Socket6_open_Success Socket6_bind_Success)

lemma configureIcmpSocket_True:
  "run_state (configureIcmpSocket k i) t = ((True, i'), t') \<Longrightarrow>
   sockState (ifIcmpSocket i') = SocketOpen \<and> sockFd (ifIcmpSocket i') \<noteq> -1 \<and>
   ifIpSocket i' = ifIpSocket i \<and> ifIndex i' = ifIndex i \<and> ifLinkAddr i' = ifLinkAddr i \<and>
   ifName i' = ifName i"
  by (auto simp: configureIcmpSocket_def Let_def split: if_splits prod.splits
      dest!: Socket6_open_Success)

lemma Interface6_init_ready:
  "run_state (Interface6_init k i) t = ((True, i'), t') \<Longrightarrow> ready_if i' \<and> ifName i' = ifName i"
  by (auto simp: Interface6_init_def ready_if_def split: if_splits prod.splits
      dest!: resolveAddresses_True configureIpSocket_True configureIcmpSocket_True)

end
