(* ===== verification/Proxy.thy ===== *)
theory Proxy
  imports ProxySocket Text
begin

text \<open>
  The IPv6 proxy (\<open>network/ipv6proxy/proxy.cpp\<close>, \<open>network/ipv6proxy/main.cpp\<close>,
  \<open>network/ipv6proxy/namespace.cpp\<close>): its handlers, its start and the turns of its loop.  A handler is
  a function from the trace to the trace and its result; \<open>None\<close> is a handler that never returns,
  because it is caught in one of the loops over the options of a message.
\<close>

section \<open>Recursive name servers\<close>

definition kRecursiveDnsOptHeaderSize :: nat where "kRecursiveDnsOptHeaderSize = 8"
definition ND_OPT_RDNSS :: u8 where "ND_OPT_RDNSS = 25"

text \<open>\<open>snprintf\<close> into the 32 bytes of \<open>propName\<close>.\<close>

definition ipv6dns_prop :: "nat \<Rightarrow> string" where
  "ipv6dns_prop i = take 31 (''net.eth0.ipv6dns'' @ decimal i)"

fun set_ipv6dns :: "kernel \<Rightarrow> nat \<Rightarrow> nat \<Rightarrow> string list \<Rightarrow> (trace, unit) state" where
  "set_ipv6dns k 0 i servers = State_Monad.return ()"
| "set_ipv6dns k (Suc n) i servers = do {
     _ \<leftarrow> sys k (PropertySet (ipv6dns_prop i) (case servers of [] \<Rightarrow> '''' | server # _ \<Rightarrow> server));
     set_ipv6dns k n (i + 1) (tl servers)
   }"

text \<open>The addresses of an option that \<open>inet_ntop\<close> converts.\<close>

definition rdnss_servers :: "mem \<Rightarrow> nat \<Rightarrow> string list" where
  "rdnss_servers m opt =
     (let numEntries = (unat (nd_opt_len m opt) - 1) div 2;
          dnsServers = opt + kRecursiveDnsOptHeaderSize
      in List.map_filter (\<lambda>i. inet_ntop6 (load m (dnsServers + 16 * i) 16) INET6_ADDRSTRLEN)
           [0..<numEntries])"

definition rdnss_option :: "kernel \<Rightarrow> mem \<Rightarrow> nat \<Rightarrow> (trace, unit) state" where
  "rdnss_option k m opt =
     (if nd_opt_type m opt \<noteq> ND_OPT_RDNSS \<or> nd_opt_len m opt < 1 then State_Monad.return ()
      else set_ipv6dns k 4 1 (rdnss_servers m opt))"

partial_function (option) extract_from ::
  "kernel \<Rightarrow> packet \<Rightarrow> nat option \<Rightarrow> trace \<Rightarrow> trace option" where
  "extract_from k packet opt t =
     (case opt of
        None \<Rightarrow> Some t
      | Some opt \<Rightarrow>
          extract_from k packet (nextOpt packet opt)
            (snd (run_state (rdnss_option k (msgData (mMessage packet)) opt) t)))"

definition extractRecursiveDnsServers :: "kernel \<Rightarrow> packet \<Rightarrow> trace \<Rightarrow> trace option" where
  "extractRecursiveDnsServers k packet t = extract_from k packet (firstOpt packet) t"

section \<open>Forwarding\<close>

definition kForwardOnly :: u32 where "kForwardOnly = 0"
definition kRewriteTargetLink :: u32 where "kRewriteTargetLink = 1"
definition kRewriteSourceLink :: u32 where "kRewriteSourceLink = 2"
definition kSpoofSource :: u32 where "kSpoofSource = 4"
definition kAddRoute :: u32 where "kAddRoute = 8"
definition kSetDefaultGateway :: u32 where "kSetDefaultGateway = 16"

definition kNodePrefixLength :: u8 where "kNodePrefixLength = 128"

definition ip6_src :: "packet \<Rightarrow> bytes" where
  "ip6_src p = load (msgData (mMessage p)) (the (mIp p) + 8) 16"

definition ip6_dst :: "packet \<Rightarrow> bytes" where
  "ip6_dst p = load (msgData (mMessage p)) (the (mIp p) + 24) 16"

text \<open>The \<open>icmpSize()\<close> bytes at \<open>icmp()\<close>.\<close>

definition icmp_bytes :: "packet \<Rightarrow> bytes" where
  "icmp_bytes p = load (msgData (mMessage p)) (the (mIcmp p)) (icmpSize p)"

definition forward ::
  "kernel \<Rightarrow> socket6 \<Rightarrow> interface6 \<Rightarrow> interface6 \<Rightarrow> packet \<Rightarrow> u32 \<Rightarrow> trace \<Rightarrow> (packet \<times> trace) option" where
  "forward k mRouter from_if to_if packet opts t = do {
     packet \<leftarrow> (if opts AND kRewriteTargetLink \<noteq> 0
               then rewriteLinkAddressOption packet (linkAddr to_if) ND_OPT_TARGET_LINKADDR
               else Some packet);
     packet \<leftarrow> (if opts AND kRewriteSourceLink \<noteq> 0
               then rewriteLinkAddressOption packet (linkAddr to_if) ND_OPT_SOURCE_LINKADDR
               else Some packet);
     let t = snd (run_state
               (if opts AND kSpoofSource \<noteq> 0
                then sendFrom6 k (ip6_src packet) (ip6_dst packet) (icmp_bytes packet) (ifIcmpSocket to_if)
                else sendTo6 k (ip6_dst packet) (icmp_bytes packet) (ifIcmpSocket to_if)) t);
     let t = (if opts AND kAddRoute \<noteq> 0
              then snd (run_state
                (addRoute k (ip6_src packet) kNodePrefixLength (ifIndex from_if) mRouter) t)
              else t);
     let t = (if mType packet = RouterAdvertisement \<and> opts AND kSetDefaultGateway \<noteq> 0
              then snd (run_state (setDefaultGateway6 k (ip6_src packet) (ifIndex from_if) mRouter) t)
              else t);
     Some (packet, t)
   }"

fun forward_all ::
  "kernel \<Rightarrow> socket6 \<Rightarrow> interface6 \<Rightarrow> interface6 list \<Rightarrow> packet \<Rightarrow> u32 \<Rightarrow> trace \<Rightarrow> (packet \<times> trace) option" where
  "forward_all k mRouter from_if [] packet opts t = Some (packet, t)"
| "forward_all k mRouter from_if (inner # inners) packet opts t = do {
     (packet, t) \<leftarrow> forward k mRouter from_if inner packet opts t;
     forward_all k mRouter from_if inners packet opts t
   }"

section \<open>The proxy\<close>

text \<open>
  The members, the message of \<open>run\<close>, and the trace.  \<open>mLogDebug\<close> is false from the constructor
  on and only switches logging, which is left out.
\<close>

record proxy =
  mInnerIfs :: "interface6 list"
  mOuterIf :: interface6
  mRouterSocket :: socket6
  rxMessage6 :: message6
  proxyCalls :: trace

definition handleOuterMessage :: "kernel \<Rightarrow> proxy \<Rightarrow> proxy option" where
  "handleOuterMessage k p =
     (let packet = Packet (rxMessage6 p);
          go = (\<lambda>opts t. do {
            (packet, t) \<leftarrow>
              forward_all k (mRouterSocket p) (mOuterIf p) (mInnerIfs p) packet opts t;
            Some (p\<lparr>rxMessage6 := mMessage packet, proxyCalls := t\<rparr>)
          })
      in case mType packet of
           RouterAdvertisement \<Rightarrow> do {
             t \<leftarrow> extractRecursiveDnsServers k packet (proxyCalls p);
             go (kRewriteSourceLink OR kSetDefaultGateway) t
           }
         | NeighborSolicitation \<Rightarrow> go kSpoofSource (proxyCalls p)
         | NeighborAdvertisement \<Rightarrow> go kRewriteTargetLink (proxyCalls p)
         | _ \<Rightarrow> Some p)"

definition handleInnerMessage :: "kernel \<Rightarrow> interface6 \<Rightarrow> proxy \<Rightarrow> proxy option" where
  "handleInnerMessage k inner p =
     (let packet = Packet (rxMessage6 p);
          go = (\<lambda>opts. do {
            (packet, t) \<leftarrow>
              forward k (mRouterSocket p) inner (mOuterIf p) packet opts (proxyCalls p);
            Some (p\<lparr>rxMessage6 := mMessage packet, proxyCalls := t\<rparr>)
          })
      in case mType packet of
           RouterSolicitation \<Rightarrow> go kSpoofSource
         | NeighborSolicitation \<Rightarrow> go (kSpoofSource OR kAddRoute)
         | NeighborAdvertisement \<Rightarrow> go (kRewriteTargetLink OR kSpoofSource OR kAddRoute)
         | _ \<Rightarrow> Some p)"

text \<open>A polled descriptor and the low byte of its \<open>revents\<close>; \<open>POLLIN\<close> is bit 0.\<close>

definition receiveIfPossible :: "kernel \<Rightarrow> int \<times> u8 \<Rightarrow> socket6 \<Rightarrow> proxy \<Rightarrow> bool \<times> proxy" where
  "receiveIfPossible k fd socket p =
     (if fst fd \<noteq> sockFd socket then (False, p)
      else if snd fd AND 1 = 0 then (False, p)
      else case run_state (Socket6_receive k (rxMessage6 p) socket) (proxyCalls p) of
             ((res, message), t) \<Rightarrow>
               (isSuccess res, p\<lparr>rxMessage6 := message, proxyCalls := t\<rparr>))"

text \<open>The body of the loop over the descriptors: the loop over the inner interfaces, and the rest.\<close>

fun inner_events :: "kernel \<Rightarrow> int \<times> u8 \<Rightarrow> interface6 list \<Rightarrow> proxy \<Rightarrow> proxy option" where
  "inner_events k fd [] p = Some p"
| "inner_events k fd (inner # inners) p =
     (case receiveIfPossible k fd (ifIpSocket inner) p of
        (received, p) \<Rightarrow> do {
          p \<leftarrow> (if received then handleInnerMessage k inner p else Some p);
          inner_events k fd inners p
        })"

fun fd_events :: "kernel \<Rightarrow> (int \<times> u8) list \<Rightarrow> proxy \<Rightarrow> proxy option" where
  "fd_events k [] p = Some p"
| "fd_events k (fd # fds) p =
     (case receiveIfPossible k fd (ifIpSocket (mOuterIf p)) p of
        (received, p) \<Rightarrow> do {
          p \<leftarrow> (if received then handleOuterMessage k p
                else inner_events k fd (mInnerIfs p) p);
          fd_events k fds p
        })"

definition poll_fds :: "proxy \<Rightarrow> int list" where
  "poll_fds p = sockFd (ifIpSocket (mOuterIf p)) # map (\<lambda>i. sockFd (ifIpSocket i)) (mInnerIfs p)"

text \<open>
  One turn of the loop of \<open>run\<close>; the flag says whether it goes on.  The kernel's answer holds the
  \<open>revents\<close>; descriptors it says nothing about have none.
\<close>

definition proxy_turn :: "kernel \<Rightarrow> proxy \<Rightarrow> (bool \<times> proxy) option" where
  "proxy_turn k p =
     (let fds = poll_fds p;
          (a, t) = run_state (sys k (PpollMany fds)) (proxyCalls p);
          p = p\<lparr>proxyCalls := t\<rparr>
      in if ret a > 0
         then do {
           p \<leftarrow> fd_events k (zip fds (data a @ replicate (length fds) 0)) p;
           Some (True, p)
         }
         else Some (ret a = 0, p))"

definition proxy_next :: "kernel \<Rightarrow> proxy \<Rightarrow> proxy \<Rightarrow> bool" where
  "proxy_next k p p' \<longleftrightarrow> proxy_turn k p = Some (True, p')"

section \<open>The start\<close>

text \<open>
  \<open>erase\<close> of the first of a list of interfaces moves the others forward, closing the sockets of the
  first; when it is the only one it is destroyed, in the reverse order of its members.
\<close>

definition close_open :: "kernel \<Rightarrow> socket6 \<Rightarrow> (trace, unit) state" where
  "close_open k s =
     (if sockFd s \<noteq> -1 then do { _ \<leftarrow> sys k (Close (sockFd s)); State_Monad.return () }
      else State_Monad.return ())"

definition erase_first :: "kernel \<Rightarrow> interface6 \<Rightarrow> interface6 list \<Rightarrow> (trace, unit) state" where
  "erase_first k i rest =
     (if rest = [] then do { close_open k (ifIcmpSocket i); close_open k (ifIpSocket i) }
      else do { close_open k (ifIpSocket i); close_open k (ifIcmpSocket i) })"

fun init_inners :: "kernel \<Rightarrow> interface6 list \<Rightarrow> (trace, interface6 list) state" where
  "init_inners k [] = State_Monad.return []"
| "init_inners k (i # rest) = do {
     (ok, i) \<leftarrow> Interface6_init k i;
     if ok then do { is \<leftarrow> init_inners k rest; State_Monad.return (i # is) }
     else do { erase_first k i rest; init_inners k rest }
   }"

text \<open>
  \<open>run\<close> up to its loop: \<open>None\<close> for its return with status 1.  Of the signal calls only
  \<open>sigprocmask\<close> enters the kernel.
\<close>

definition proxy_start :: "kernel \<Rightarrow> proxy \<Rightarrow> proxy option" where
  "proxy_start k p =
     (let (a, t) = run_state (sys k SigSetMask) (proxyCalls p)
      in if ret a \<noteq> 0 then None
         else let ((ok, outer), t) = run_state (Interface6_init k (mOuterIf p)) t
           in if \<not> ok then None
              else let ((ok, router), t) = run_state (Router6_init k (mRouterSocket p)) t
                in if \<not> ok then None
                   else let (inners, t) = run_state (init_inners k (mInnerIfs p)) t
                     in if inners = [] then None
                        else Some (p\<lparr>mInnerIfs := inners, mOuterIf := outer,
                                     mRouterSocket := router, proxyCalls := t\<rparr>))"

text \<open>The memory \<open>g\<close> of the new object's indices and the message \<open>run\<close> receives into are arbitrary.\<close>

definition Proxy_new :: "(string \<Rightarrow> u32) \<Rightarrow> message6 \<Rightarrow> string \<Rightarrow> string list \<Rightarrow> trace \<Rightarrow> proxy" where
  "Proxy_new g message outer inners t =
     \<lparr>mInnerIfs = map (\<lambda>n. Interface6_new (g n) n) inners, mOuterIf = Interface6_new (g outer) outer,
      mRouterSocket = Socket6_new, rxMessage6 = message, proxyCalls = t\<rparr>"

section \<open>The program\<close>

function splitString :: "string \<Rightarrow> char \<Rightarrow> string list" where
  "splitString str delimiter =
     (case dropWhile (\<lambda>c. c \<noteq> delimiter) str of
        [] \<Rightarrow> [str]
      | _ # rest \<Rightarrow> takeWhile (\<lambda>c. c \<noteq> delimiter) str # splitString rest delimiter)"
  by pat_completeness auto
termination
proof (relation "measure (\<lambda>(str, d). length str)")
  fix str d c rest
  assume "dropWhile (\<lambda>c. c \<noteq> d) str = c # rest"
  then have "Suc (length rest) \<le> length str"
    using length_dropWhile_le [of "\<lambda>c. c \<noteq> d" str] by simp
  then show "((rest, d), str, d) \<in> measure (\<lambda>(str, d). length str)" by simp
qed simp

declare splitString.simps [simp del]

definition kNetNsDir :: string where "kNetNsDir = ''/data/vendor/var/run/netns''"

definition setNamespaceFromPath :: "kernel \<Rightarrow> string \<Rightarrow> (trace, bool) state" where
  "setNamespaceFromPath k path = do {
     a \<leftarrow> sys k (OpenFile path O_RDONLY_CLOEXEC 0);
     let nsFd = ret a;
     if nsFd = -1 then State_Monad.return False
     else do {
       a \<leftarrow> sys k (SetNs nsFd);
       _ \<leftarrow> sys k (Close nsFd);
       State_Monad.return (ret a \<noteq> -1)
     }
   }"

definition setNetworkNamespace :: "kernel \<Rightarrow> string \<Rightarrow> (trace, bool) state" where
  "setNetworkNamespace k ns =
     setNamespaceFromPath k (take (PATH_MAX - 1) (kNetNsDir @ ''/'' @ ns))"

text \<open>The overload for process ids, which the program does not call.\<close>

definition setNetworkNamespace_pid :: "kernel \<Rightarrow> nat \<Rightarrow> (trace, bool) state" where
  "setNetworkNamespace_pid k pid =
     setNamespaceFromPath k (take (PATH_MAX - 1) (''/proc/'' @ decimal pid @ ''/ns/net/''))"

text \<open>
  The argument loop: inner, outer and namespace, \<open>None\<close> for exit status 1.  The argument behind the
  last one is the null pointer.
\<close>

fun proxy_args ::
  "string list \<Rightarrow> string option \<times> string option \<times> string option \<Rightarrow>
   (string option \<times> string option \<times> string option) option" where
  "proxy_args [] acc = Some acc"
| "proxy_args (arg # args) (inner, outer, ns) =
     (let param = (case args of [] \<Rightarrow> None | a # _ \<Rightarrow> Some a); rest = tl args
      in if arg = ''-o'' then proxy_args rest (inner, param, ns)
         else if arg = ''-i'' then proxy_args rest (param, outer, ns)
         else if arg = ''-h'' \<or> arg = ''--help'' then None
         else if arg = ''-n'' then proxy_args rest (inner, outer, param)
         else None)"

definition proxy_main ::
  "kernel \<Rightarrow> (string \<Rightarrow> u32) \<Rightarrow> message6 \<Rightarrow> string list \<Rightarrow> trace \<Rightarrow> int + proxy" where
  "proxy_main k g message argv t =
     (case proxy_args (tl argv) (None, None, None) of
        None \<Rightarrow> Inl 1
      | Some (inner, outer, netNamespace) \<Rightarrow>
          let (ok, t) = (case netNamespace of
                           None \<Rightarrow> (True, t)
                         | Some ns \<Rightarrow> run_state (setNetworkNamespace k ns) t)
          in case (inner, outer) of
               (Some inner, Some outer) \<Rightarrow>
                 if \<not> ok then Inl 1
                 else (case proxy_start k (Proxy_new g message outer (splitString inner CHR '','') t) of
                         None \<Rightarrow> Inl 1
                       | Some p \<Rightarrow> Inr p)
             | _ \<Rightarrow> Inl 1)"

end
