(* ===== verification/ProxyProps.thy ===== *)
theory ProxyProps
  imports Proxy
begin

text \<open>
  The correctness of the IPv6 proxy: what its handlers send, when they return, and what holds of the
  running program.
\<close>

section \<open>Rewriting twice\<close>

text \<open>The options of a packet that may have been rewritten.\<close>

definition opts_of :: "packet \<Rightarrow> nat list" where
  "opts_of p = option_list (msgData (mMessage p)) (msgSize (mMessage p)) (firstOpt p)"

definition wf_packet :: "packet \<Rightarrow> bool" where
  "wf_packet p \<longleftrightarrow> (\<forall>x. firstOpt p = Some x \<longrightarrow> in_packet p x)"

definition all_lengths :: "packet \<Rightarrow> bool" where
  "all_lengths p \<longleftrightarrow> list_all (\<lambda>x. nd_opt_len (msgData (mMessage p)) x \<noteq> 0) (opts_of p)"

definition with_links :: "bytes \<Rightarrow> u8 \<Rightarrow> packet \<Rightarrow> packet" where
  "with_links a t p =
     p\<lparr>mMessage := (mMessage p)\<lparr>msgData := rewrite_bytes a t (opts_of p) (msgData (mMessage p))\<rparr>\<rparr>"

lemma with_links_fields [simp]:
  "mType (with_links a t p) = mType p" "mIp (with_links a t p) = mIp p"
  "mIcmp (with_links a t p) = mIcmp p" "firstOpt (with_links a t p) = firstOpt p"
  "msgSize (mMessage (with_links a t p)) = msgSize (mMessage p)"
  by (simp_all add: with_links_def firstOpt_def)

lemma rewrite_with_links:
  assumes "wf_packet p"
  shows "rewriteLinkAddressOption p a t = (if all_lengths p then Some (with_links a t p) else None)"
  using rewrite_from_option_list [of "firstOpt p" p "opts_of p" a t] assms
  by (auto simp: rewriteLinkAddressOption_def opts_of_def wf_packet_def all_lengths_def
      with_links_def rewrite_fold)

lemma nd_options_cong:
  assumes "\<And>i. x \<le> i \<Longrightarrow> m' i \<noteq> m i \<Longrightarrow> \<exists>y \<in> set (nd_options m fin x). y + 2 \<le> i \<and> i < y + 8"
    and "x < fin" "x + unat (nd_opt_len m x) * 8 \<le> fin"
  shows "nd_options m' fin x = nd_options m fin x"
  using assms
proof (induction m fin x rule: nd_options.induct)
  case (1 m fin x)
  let ?n = "x + unat (nd_opt_len m x) * 8"
  let ?stop = "nd_opt_len m x = 0 \<or> ?n \<ge> fin \<or> ?n + unat (nd_opt_len m ?n) * 8 > fin"
  note inside = nd_options_in [OF "1.prems"(2,3)]
  have len: "nd_opt_len m' x = nd_opt_len m x"
    using "1.prems"(1) [of "x + 1"] inside by (fastforce simp: nd_opt_len_def)
  have n8: "x + 8 \<le> ?n" if "nd_opt_len m x \<noteq> 0"
    using that by (cases "unat (nd_opt_len m x)") (auto simp: unat_eq_zero)
  have tail: "y = x \<or> \<not> ?stop \<and> ?n \<le> y" if "y \<in> set (nd_options m fin x)" for y
    using that nd_options_in [of ?n fin m y]
    by (subst (asm) nd_options.simps) (auto simp: Let_def not_le split: if_splits)
  have len': "nd_opt_len m' ?n = nd_opt_len m ?n" if "nd_opt_len m x \<noteq> 0"
    using "1.prems"(1) [of "?n + 1"] tail n8 [OF that] by (fastforce simp: nd_opt_len_def)
  show ?case
  proof (cases ?stop)
    case True
    then have "nd_options m fin x = [x]" by (subst nd_options.simps) (auto simp: Let_def)
    moreover have "nd_options m' fin x = [x]"
      using True len len' by (subst nd_options.simps) (auto simp: Let_def)
    ultimately show ?thesis by simp
  next
    case False
    then have os: "nd_options m fin x = x # nd_options m fin ?n"
      by (subst nd_options.simps) (simp add: Let_def)
    have "nd_options m' fin ?n = nd_options m fin ?n"
    proof (rule "1.IH" [OF refl False])
      fix i assume i: "?n \<le> i" "m' i \<noteq> m i"
      then obtain y where "y \<in> set (nd_options m fin x)" "y + 2 \<le> i" "i < y + 8"
        using "1.prems"(1) [of i] n8 False by fastforce
      then show "\<exists>y \<in> set (nd_options m fin ?n). y + 2 \<le> i \<and> i < y + 8"
        using i n8 False os by (intro bexI [of _ y]) auto
    qed (use False in auto)
    moreover have "nd_options m' fin x = x # nd_options m' fin ?n"
      using False len len' by (subst nd_options.simps) (auto simp: Let_def)
    ultimately show ?thesis by (simp add: os)
  qed
qed

lemma opts_of_apart: "sorted_wrt (\<lambda>x y. x + 8 \<le> y) (opts_of p)"
  by (simp add: opts_of_def option_list_def nd_options_apart split: option.split)

lemma opts_of_with_links:
  assumes "wf_packet p" "6 \<le> length a"
    and "\<And>f. firstOpt p = Some f \<Longrightarrow>
      f + unat (nd_opt_len (msgData (mMessage p)) f) * 8 \<le> msgSize (mMessage p)"
  shows "opts_of (with_links a t p) = opts_of p"
proof (cases "firstOpt p")
  case (Some f)
  let ?m = "msgData (mMessage p)" and ?fin = "msgSize (mMessage p)"
  let ?os = "nd_options ?m ?fin f"
  have os: "opts_of p = ?os" by (simp add: opts_of_def option_list_def Some)
  have "nd_options (rewrite_bytes a t ?os ?m) ?fin f = ?os"
  proof (rule nd_options_cong)
    fix i assume "rewrite_bytes a t ?os ?m i \<noteq> ?m i"
    then have "\<not> (\<forall>x \<in> set ?os. ?m x = t \<longrightarrow> i < x + 2 \<or> x + 8 \<le> i)"
      using rewrite_bytes_other [OF nd_options_apart assms(2), of ?m ?fin f ?m t i] by auto
    then show "\<exists>y \<in> set ?os. y + 2 \<le> i \<and> i < y + 8" by (auto simp: not_less)
  qed (use assms Some in \<open>auto simp: wf_packet_def in_packet_def\<close>)
  then show ?thesis
    by (simp add: opts_of_def option_list_def Some) (simp add: with_links_def os)
qed (simp add: opts_of_def option_list_def)

lemma apart:
  "sorted_wrt (\<lambda>x y. x + 8 \<le> y) os \<Longrightarrow> x \<in> set os \<Longrightarrow> y \<in> set os \<Longrightarrow>
   x = y \<or> x + 8 \<le> y \<or> y + 8 \<le> x"
  by (induction os) auto

lemma rewrite_bytes_at:
  assumes "sorted_wrt (\<lambda>x y. x + 8 \<le> y) os" "6 \<le> length a" "x \<in> set os" "m x = t"
    and "x + 2 \<le> i" "i < x + 8"
  shows "rewrite_bytes a t os m i = a ! (i - (x + 2))"
proof -
  have "load (rewrite_bytes a t os m) (x + 2) 6 ! (i - (x + 2)) = take 6 a ! (i - (x + 2))"
    by (simp only: rewrite_bytes_option [of os a x m t, OF assms(1-4)])
  moreover have "x + 2 + (i - (x + 2)) = i" using assms(5) by simp
  ultimately show ?thesis using assms(5,6) by (simp del: add_2_eq_Suc')
qed

lemma rewrite_bytes_types:
  assumes "sorted_wrt (\<lambda>x y. x + 8 \<le> y) os" "6 \<le> length a" "x \<in> set os"
  shows "rewrite_bytes a t os m x = m x"
proof (rule rewrite_bytes_other [OF assms(1,2)])
  fix y assume "y \<in> set os"
  then show "x < y + 2 \<or> y + 8 \<le> x"
    using apart [OF assms(1,3)] by fastforce
qed

lemma rewrite_bytes_twice:
  assumes "sorted_wrt (\<lambda>x y. x + 8 \<le> y) os" "6 \<le> length a" "6 \<le> length b"
  shows "rewrite_bytes b t os (rewrite_bytes a t os m) = rewrite_bytes b t os m"
proof
  fix i
  let ?m = "rewrite_bytes a t os m"
  note same = rewrite_bytes_types [OF assms(1,2)]
  show "rewrite_bytes b t os ?m i = rewrite_bytes b t os m i"
  proof (cases "\<exists>x \<in> set os. m x = t \<and> x + 2 \<le> i \<and> i < x + 8")
    case True
    then obtain x where "x \<in> set os" "m x = t" "x + 2 \<le> i" "i < x + 8" by blast
    then show ?thesis using same [of x t m] rewrite_bytes_at [OF assms(1,3), of x] by simp
  next
    case False
    then have out: "i < x + 2 \<or> x + 8 \<le> i" if "x \<in> set os" "m x = t" for x
      using that by (auto simp: not_less)
    have "rewrite_bytes b t os ?m i = ?m i"
      by (rule rewrite_bytes_other [OF assms(1,3)]) (use out same in metis)
    moreover have "rewrite_bytes b t os m i = m i"
      by (rule rewrite_bytes_other [OF assms(1,3)]) (use out in blast)
    moreover have "?m i = m i"
      by (rule rewrite_bytes_other [OF assms(1,2)]) (use out in blast)
    ultimately show ?thesis by simp
  qed
qed

text \<open>The packets the handlers work on: the classified message, its options rewritten or not.\<close>

definition sound_packet :: "packet \<Rightarrow> bool" where
  "sound_packet p \<longleftrightarrow> (\<forall>f. firstOpt p = Some f \<longrightarrow> f < msgSize (mMessage p) \<and>
     f + unat (nd_opt_len (msgData (mMessage p)) f) * 8 \<le> msgSize (mMessage p))"

lemma sound_Packet: "sound_packet (Packet message)"
  using Packet_firstOpt [of message] by (fastforce simp: sound_packet_def firstOpt_def)

lemma sound_wf: "sound_packet p \<Longrightarrow> wf_packet p"
  by (auto simp: sound_packet_def wf_packet_def in_packet_def firstOpt_def)

lemma opts_of_head: "firstOpt p = Some f \<Longrightarrow> f \<in> set (opts_of p)"
  by (simp add: opts_of_def option_list_def) (subst nd_options.simps, simp add: Let_def)

lemma with_links_len:
  assumes "6 \<le> length a" "x \<in> set (opts_of p)"
  shows "nd_opt_len (msgData (mMessage (with_links a t p))) x = nd_opt_len (msgData (mMessage p)) x"
proof -
  have "rewrite_bytes a t (opts_of p) m (x + 1) = m (x + 1)" for m
  proof (rule rewrite_bytes_other [OF opts_of_apart assms(1)])
    fix y assume "y \<in> set (opts_of p)"
    then show "x + 1 < y + 2 \<or> y + 8 \<le> x + 1"
      using apart [OF opts_of_apart assms(2)] by fastforce
  qed
  then show ?thesis by (simp add: with_links_def nd_opt_len_def)
qed

lemma sound_with_links:
  assumes "sound_packet p" "6 \<le> length a"
  shows "sound_packet (with_links a t p)" "opts_of (with_links a t p) = opts_of p"
    "all_lengths (with_links a t p) = all_lengths p"
proof -
  show os: "opts_of (with_links a t p) = opts_of p"
    using assms sound_wf by (intro opts_of_with_links) (auto simp: sound_packet_def)
  show "sound_packet (with_links a t p)"
    using assms(1) with_links_len [OF assms(2) opts_of_head] by (simp add: sound_packet_def)
  show "all_lengths (with_links a t p) = all_lengths p"
    using with_links_len [OF assms(2)] by (simp add: all_lengths_def os cong: list.pred_cong)
qed

lemma with_links_twice:
  assumes "sound_packet p" "6 \<le> length a" "6 \<le> length b"
  shows "with_links b t (with_links a t p) = with_links b t p"
  using rewrite_bytes_twice [OF opts_of_apart assms(2,3)] sound_with_links(2) [OF assms(1,2), of t]
  by (simp add: with_links_def [of b]) (simp add: with_links_def)

section \<open>What is sent\<close>

text \<open>
  The datagrams on the wire: descriptor, spoofed source address if any, destination, ICMPv6
  message; and the netlink requests.
\<close>

fun datagrams :: "trace \<Rightarrow> (int \<times> bytes option \<times> bytes \<times> bytes) list" where
  "datagrams [] = []"
| "datagrams (c # t) =
     (case c of
        SendMsgFrom fd src (SockaddrIn6 dst) bs \<Rightarrow> (fd, Some src, dst, bs) # datagrams t
      | SendTo fd (SockaddrIn6 dst) bs \<Rightarrow> (fd, None, dst, bs) # datagrams t
      | _ \<Rightarrow> datagrams t)"

fun netlink_requests :: "trace \<Rightarrow> (int \<times> bytes) list" where
  "netlink_requests [] = []"
| "netlink_requests (c # t) =
     (case c of SendTo fd SockaddrNl bs \<Rightarrow> (fd, bs) # netlink_requests t | _ \<Rightarrow> netlink_requests t)"

lemma datagrams_append [simp]: "datagrams (t @ u) = datagrams t @ datagrams u"
  by (induction t rule: datagrams.induct) (auto split: call.split sockaddr.split)

lemma netlink_requests_append [simp]:
  "netlink_requests (t @ u) = netlink_requests t @ netlink_requests u"
  by (induction t rule: netlink_requests.induct) (auto split: call.split sockaddr.split)

definition ready_sockets :: "socket6 \<Rightarrow> interface6 \<Rightarrow> bool" where
  "ready_sockets router i \<longleftrightarrow> sockState router = SocketOpen \<and> ready_if i"

text \<open>Which kind of option the flags of \<open>forward\<close> rewrite.\<close>

definition link_option :: "u32 \<Rightarrow> u8 option" where
  "link_option opts =
     (if opts AND kRewriteTargetLink \<noteq> 0 then Some ND_OPT_TARGET_LINKADDR
      else if opts AND kRewriteSourceLink \<noteq> 0 then Some ND_OPT_SOURCE_LINKADDR else None)"

definition relink :: "u32 \<Rightarrow> interface6 \<Rightarrow> packet \<Rightarrow> packet" where
  "relink opts i p = (case link_option opts of None \<Rightarrow> p | Some t \<Rightarrow> with_links (linkAddr i) t p)"

definition forward_calls :: "socket6 \<Rightarrow> interface6 \<Rightarrow> interface6 \<Rightarrow> packet \<Rightarrow> u32 \<Rightarrow> trace" where
  "forward_calls router from_if to_if p opts =
     (let fd = sockFd (ifIcmpSocket to_if); to = SockaddrIn6 (ip6_dst p)
      in [if opts AND kSpoofSource \<noteq> 0 then SendMsgFrom fd (ip6_src p) to (icmp_bytes p)
          else SendTo fd to (icmp_bytes p)] @
         (if opts AND kAddRoute \<noteq> 0
          then [SendTo (sockFd router) SockaddrNl
                 (request_bytes (addRoute_request (ip6_src p) 128 (ifIndex from_if)))] else []) @
         (if mType p = RouterAdvertisement \<and> opts AND kSetDefaultGateway \<noteq> 0
          then [SendTo (sockFd router) SockaddrNl
                 (request_bytes (gateway6_request (ip6_src p) (ifIndex from_if)))] else []))"

lemma forward_run:
  assumes "ready_sockets router to_if" "sound_packet p"
    and "opts AND kRewriteTargetLink = 0 \<or> opts AND kRewriteSourceLink = 0"
  shows "forward k router from_if to_if p opts t =
    (if link_option opts \<noteq> None \<and> \<not> all_lengths p then None
     else Some (relink opts to_if p,
                t @ forward_calls router from_if to_if (relink opts to_if p) opts))"
  using assms rewrite_with_links [OF sound_wf [OF assms(2)]]
  by (auto simp: forward_def link_option_def relink_def forward_calls_def ready_sockets_def ready_if_def
      sendFrom6_def Socket6_sendFrom_def sendTo6_def Socket6_sendTo_def sending_def Let_def
      addRoute_def setDefaultGateway6_def sendNetlinkMessage6_def kNodePrefixLength_def)

lemma linkAddr_length: "ready_if i \<Longrightarrow> length (linkAddr i) = 8"
  by (simp add: ready_if_def linkAddr_def)

lemma relink_facts:
  assumes "ready_if i" "sound_packet p"
  shows "sound_packet (relink opts i p)" "all_lengths (relink opts i p) = all_lengths p"
    "ready_if j \<Longrightarrow> relink opts j (relink opts i p) = relink opts j p"
  using assms linkAddr_length [OF assms(1)] linkAddr_length [of j]
  by (auto simp: relink_def sound_with_links with_links_twice split: option.split)

lemma forward_all_run:
  assumes "list_all (ready_sockets router) inners" "sound_packet p"
    and "opts AND kRewriteTargetLink = 0 \<or> opts AND kRewriteSourceLink = 0"
  shows "forward_all k router from_if inners p opts t =
    (if link_option opts \<noteq> None \<and> \<not> all_lengths p \<and> inners \<noteq> [] then None
     else Some (if inners = [] then p else relink opts (last inners) p,
                t @ concat (map (\<lambda>i. forward_calls router from_if i (relink opts i p) opts) inners)))"
  using assms(1,2)
proof (induction inners arbitrary: p t)
  case (Cons i inners)
  have i: "ready_sockets router i" "ready_if i" using Cons.prems by (auto simp: ready_sockets_def)
  note f = forward_run [OF i(1) Cons.prems(2) assms(3)]
  note r = relink_facts [OF i(2) Cons.prems(2), where opts = opts]
  have inner: "ready_if j" if "j \<in> set inners" for j
    using Cons.prems(1) that by (auto simp: list_all_iff ready_sockets_def)
  have "map (\<lambda>j. forward_calls router from_if j (relink opts j (relink opts i p)) opts) inners =
      map (\<lambda>j. forward_calls router from_if j (relink opts j p) opts) inners"
    using r(3) inner by simp
  moreover have "relink opts (last inners) (relink opts i p) = relink opts (last inners) p"
    if "inners \<noteq> []" using that r(3) inner by simp
  ultimately show ?case
    using Cons.IH [of "relink opts i p"] Cons.prems(1) r by (simp add: f del: map_eq_conv)
qed simp

section \<open>The recursive name servers of a router advertisement\<close>

text \<open>The servers of an option, and the calls it makes: four properties, set or cleared.\<close>

definition option_servers :: "mem \<Rightarrow> nat \<Rightarrow> string list" where
  "option_servers m x =
     map (\<lambda>i. format6 (load m (x + 8 + 16 * i) 16)) [0..<(unat (nd_opt_len m x) - 1) div 2]"

definition rdnss_calls :: "mem \<Rightarrow> nat \<Rightarrow> trace" where
  "rdnss_calls m x =
     (if m x = ND_OPT_RDNSS \<and> nd_opt_len m x \<noteq> 0
      then map (\<lambda>j. PropertySet (ipv6dns_prop (1 + j))
             (if j < length (option_servers m x) then option_servers m x ! j else '''')) [0..<4]
      else [])"

lemma rdnss_servers_eq: "rdnss_servers m x = option_servers m x"
  by (simp add: rdnss_servers_def option_servers_def kRecursiveDnsOptHeaderSize_def Let_def
      inet_ntop6_total List.map_filter_def)

lemma set_ipv6dns_trace:
  "snd (run_state (set_ipv6dns k n i servers) t) =
     t @ map (\<lambda>j. PropertySet (ipv6dns_prop (i + j))
           (if j < length servers then servers ! j else '''')) [0..<n]"
proof (induction n arbitrary: i servers t)
  case (Suc n)
  have "[0..<Suc n] = 0 # map Suc [0..<n]"
    by (metis map_Suc_upt upt_conv_Cons zero_less_Suc)
  then show ?case
    by (cases servers) (auto simp: Suc split_beta)
qed simp

lemma rdnss_option_trace:
  "snd (run_state (rdnss_option k m x) t) = t @ rdnss_calls m x"
  by (simp add: rdnss_option_def rdnss_calls_def set_ipv6dns_trace rdnss_servers_eq nd_opt_type_def
      word_less_1 del: upt_rec_numeral)

lemma extract_from_least:
  assumes "extract_from k p opt t = Some t'" and "\<And>t. P None t t"
    and "\<And>x t t'. P (nextOpt p x) (snd (run_state (rdnss_option k (msgData (mMessage p)) x) t)) t' \<Longrightarrow>
      P (Some x) t t'"
  shows "P opt t t'"
proof -
  have "k' = k \<and> p' = p \<longrightarrow> P opt t t'" if "extract_from k' p' opt t = Some t'" for k' p'
    using that
    by (rule extract_from.raw_induct [rotated])
      (auto simp: assms(2) split: option.splits intro!: assms(3))
  with assms(1) show ?thesis by blast
qed

interpretation rdnss: option_loop
    "extract_from k p" "\<lambda>x t. snd (run_state (rdnss_option k (msgData (mMessage p)) x) t)"
    "\<lambda>t. nextOpt p" for k p
proof unfold_locales
  show "extract_from k p None t = Some t" for t
    by (simp add: extract_from.simps)
  show "extract_from k p (Some x) t = extract_from k p (nextOpt p x)
      (snd (run_state (rdnss_option k (msgData (mMessage p)) x) t))" for x t
    by (subst extract_from.simps) simp
qed (auto intro: extract_from_least dest: nextOpt_far)

lemma extract_run:
  assumes "wf_packet p"
  shows "extractRecursiveDnsServers k p t =
    (if all_lengths p then Some (t @ concat (map (rdnss_calls (msgData (mMessage p))) (opts_of p)))
     else None)"
proof -
  have f: "fold (\<lambda>x t. snd (run_state (rdnss_option k m x) t)) os t = t @ concat (map (rdnss_calls m) os)"
    for m os t by (induction os arbitrary: t) (simp_all add: rdnss_option_trace)
  have v: "visits (nextOpt p) (firstOpt p) os \<longleftrightarrow> all_lengths p \<and> os = opts_of p" for os
  proof (cases "firstOpt p")
    case (Some x)
    then show ?thesis
      using visits_nextOpt [of p x] assms
      by (simp add: all_lengths_def opts_of_def option_list_def wf_packet_def)
  qed (auto simp: all_lengths_def opts_of_def option_list_def)
  show ?thesis
    using rdnss.loop_ends [of p "firstOpt p" "opts_of p" k t] rdnss.loop_visits [of k p "firstOpt p" t]
    by (cases "extract_from k p (firstOpt p) t") (auto simp: extractRecursiveDnsServers_def v f)
qed

section \<open>Messages and their forwarded form\<close>

definition src_of :: "message6 \<Rightarrow> bytes" where "src_of m = load (msgData m) 8 16"
definition dst_of :: "message6 \<Rightarrow> bytes" where "dst_of m = load (msgData m) 24 16"
definition icmp_of :: "message6 \<Rightarrow> bytes" where "icmp_of m = load (msgData m) 40 (msgSize m - 40)"

text \<open>The message with the link address of an interface in its options of a type.\<close>

definition linked :: "u8 \<Rightarrow> interface6 \<Rightarrow> message6 \<Rightarrow> message6" where
  "linked t i m = m\<lparr>msgData := rewrite_bytes (linkAddr i) t (options_of m) (msgData m)\<rparr>"

definition options_end :: "message6 \<Rightarrow> bool" where
  "options_end m \<longleftrightarrow> list_all (\<lambda>x. nd_opt_len (msgData m) x \<noteq> 0) (options_of m)"

lemma opts_of_Packet [simp]: "opts_of (Packet m) = options_of m"
  by (simp add: opts_of_def options_of_def)

lemma all_lengths_Packet [simp]: "all_lengths (Packet m) = options_end m"
  by (simp add: all_lengths_def options_end_def)

lemma relinked_message:
  "mMessage (relink opts i (Packet m)) = (case link_option opts of None \<Rightarrow> m | Some t \<Rightarrow> linked t i m)"
  by (simp add: relink_def with_links_def linked_def split: option.split)

lemma relinked_fields [simp]:
  "mType (relink opts i p) = mType p" "mIp (relink opts i p) = mIp p" "mIcmp (relink opts i p) = mIcmp p"
  by (simp_all add: relink_def split: option.split)

lemma linked_header: "ready_if i \<Longrightarrow> j < 50 \<Longrightarrow> msgData (linked t i m) j = msgData m j"
  unfolding linked_def
  using rewrite_bytes_other [OF options_of_apart, of "linkAddr i" m "msgData m" t j]
    options_of_bounds [of _ m] linkAddr_length [of i]
  by fastforce

lemma relinked_addresses:
  assumes "mType (Packet m) \<noteq> Other" "ready_if i"
  shows "ip6_src (relink opts i (Packet m)) = src_of m" "ip6_dst (relink opts i (Packet m)) = dst_of m"
    "icmp_bytes (relink opts i (Packet m)) =
       icmp_of (case link_option opts of None \<Rightarrow> m | Some t \<Rightarrow> linked t i m)"
proof -
  have "load (msgData (linked t i m)) a 16 = load (msgData m) a 16" if "a \<le> 24" for a t
    using that linked_header [OF assms(2)] by (intro load_cong) simp
  then show "ip6_src (relink opts i (Packet m)) = src_of m" "ip6_dst (relink opts i (Packet m)) = dst_of m"
    using Packet_pointers [OF assms(1)]
    by (simp_all add: ip6_src_def ip6_dst_def relinked_message src_of_def dst_of_def split: option.split)
  show "icmp_bytes (relink opts i (Packet m)) =
      icmp_of (case link_option opts of None \<Rightarrow> m | Some t \<Rightarrow> linked t i m)"
    using Packet_pointers [OF assms(1)]
    by (simp add: icmp_bytes_def icmp_of_def icmpSize_def relinked_message sizeof_ip6_hdr_def
        split: option.split)
qed

lemma linked_size [simp]: "msgSize (linked t i m) = msgSize m"
  by (simp add: linked_def)

lemma linked_type: "ready_if i \<Longrightarrow> 48 \<le> msgSize m \<Longrightarrow> hd (icmp_of (linked t i m)) = msgData m 40"
proof -
  assume i: "ready_if i" "48 \<le> msgSize m"
  have "icmp_of (linked t i m) \<noteq> []"
    using i(2) by (auto simp: icmp_of_def linked_def simp flip: length_0_conv)
  then show ?thesis
    using linked_header [OF i(1), of 40 t m] i(2)
    by (simp add: hd_conv_nth) (simp add: icmp_of_def)
qed

definition ready_proxy :: "proxy \<Rightarrow> bool" where
  "ready_proxy p \<longleftrightarrow> sockState (mRouterSocket p) = SocketOpen \<and> ready_if (mOuterIf p) \<and>
     list_all ready_if (mInnerIfs p) \<and> mInnerIfs p \<noteq> []"

lemma ready_proxy_sockets:
  "ready_proxy p \<Longrightarrow> list_all (ready_sockets (mRouterSocket p)) (mInnerIfs p)"
  "ready_proxy p \<Longrightarrow> ready_sockets (mRouterSocket p) (mOuterIf p)"
  by (auto simp: ready_proxy_def ready_sockets_def list_all_iff)

lemmas forward_flags =
  kForwardOnly_def kRewriteTargetLink_def kRewriteSourceLink_def kSpoofSource_def kAddRoute_def
  kSetDefaultGateway_def

section \<open>The handlers\<close>

lemma link_options [simp]:
  "link_option kSpoofSource = None"
  "link_option (kRewriteSourceLink OR kSetDefaultGateway) = Some ND_OPT_SOURCE_LINKADDR"
  "link_option kRewriteTargetLink = Some ND_OPT_TARGET_LINKADDR"
  "link_option (kSpoofSource OR kAddRoute) = None"
  "link_option (kRewriteTargetLink OR kSpoofSource OR kAddRoute) = Some ND_OPT_TARGET_LINKADDR"
  by (simp_all add: link_option_def forward_flags)

lemma one_link [simp]:
  "kSpoofSource AND kRewriteTargetLink = 0"
  "(kRewriteSourceLink OR kSetDefaultGateway) AND kRewriteTargetLink = 0"
  "kRewriteTargetLink AND kRewriteSourceLink = 0"
  "(kSpoofSource OR kAddRoute) AND kRewriteTargetLink = 0"
  "(kRewriteTargetLink OR kSpoofSource OR kAddRoute) AND kRewriteSourceLink = 0"
  by (simp_all add: forward_flags)

lemma handleOuterMessage_run:
  assumes "ready_proxy p" "m = rxMessage6 p"
  shows "handleOuterMessage k p =
    (let go = \<lambda>opts t.
       if link_option opts \<noteq> None \<and> \<not> options_end m then None
       else Some (p\<lparr>rxMessage6 := mMessage (relink opts (last (mInnerIfs p)) (Packet m)),
              proxyCalls := t @ concat (map (\<lambda>i. forward_calls (mRouterSocket p) (mOuterIf p) i
                (relink opts i (Packet m)) opts) (mInnerIfs p))\<rparr>)
     in case mType (Packet m) of
          RouterAdvertisement \<Rightarrow>
            if options_end m
            then go (kRewriteSourceLink OR kSetDefaultGateway)
                   (proxyCalls p @ concat (map (rdnss_calls (msgData m)) (options_of m)))
            else None
        | NeighborSolicitation \<Rightarrow> go kSpoofSource (proxyCalls p)
        | NeighborAdvertisement \<Rightarrow> go kRewriteTargetLink (proxyCalls p)
        | _ \<Rightarrow> Some p)"
proof -
  note f = forward_all_run [OF ready_proxy_sockets(1) [OF assms(1)] sound_Packet [of m]]
  have ne: "mInnerIfs p \<noteq> []" using assms(1) by (simp add: ready_proxy_def)
  show ?thesis
    using ne extract_run [OF sound_wf [OF sound_Packet [of m]], of k]
    by (simp add: handleOuterMessage_def assms(2) [symmetric] f Let_def
        split: packet_type.split)
qed

lemma handleInnerMessage_run:
  assumes "ready_proxy p" "m = rxMessage6 p"
  shows "handleInnerMessage k inner p =
    (let go = \<lambda>opts.
       if link_option opts \<noteq> None \<and> \<not> options_end m then None
       else Some (p\<lparr>rxMessage6 := mMessage (relink opts (mOuterIf p) (Packet m)),
              proxyCalls := proxyCalls p @ forward_calls (mRouterSocket p) inner (mOuterIf p)
                (relink opts (mOuterIf p) (Packet m)) opts\<rparr>)
     in case mType (Packet m) of
          RouterSolicitation \<Rightarrow> go kSpoofSource
        | NeighborSolicitation \<Rightarrow> go (kSpoofSource OR kAddRoute)
        | NeighborAdvertisement \<Rightarrow> go (kRewriteTargetLink OR kSpoofSource OR kAddRoute)
        | _ \<Rightarrow> Some p)"
proof -
  note f = forward_run [OF ready_proxy_sockets(2) [OF assms(1)] sound_Packet [of m]]
  show ?thesis
    by (simp add: handleInnerMessage_def assms(2) [symmetric] f Let_def
        split: packet_type.split)
qed


lemma datagrams_forward_calls:
  "datagrams (forward_calls r f i p opts) =
     [(sockFd (ifIcmpSocket i), if opts AND kSpoofSource \<noteq> 0 then Some (ip6_src p) else None,
       ip6_dst p, icmp_bytes p)]"
  by (simp add: forward_calls_def Let_def)

lemma netlink_forward_calls:
  "netlink_requests (forward_calls r f i p opts) =
     (if opts AND kAddRoute \<noteq> 0
      then [(sockFd r, request_bytes (addRoute_request (ip6_src p) 128 (ifIndex f)))] else []) @
     (if mType p = RouterAdvertisement \<and> opts AND kSetDefaultGateway \<noteq> 0
      then [(sockFd r, request_bytes (gateway6_request (ip6_src p) (ifIndex f)))] else [])"
  by (simp add: forward_calls_def Let_def)

lemma datagrams_concat: "datagrams (concat ts) = concat (map datagrams ts)"
  by (induction ts) simp_all

lemma netlink_concat: "netlink_requests (concat ts) = concat (map netlink_requests ts)"
  by (induction ts) simp_all

lemma rdnss_calls_quiet [simp]:
  "datagrams (rdnss_calls m x) = []" "netlink_requests (rdnss_calls m x) = []"
proof -
  have "datagrams (map (\<lambda>j. PropertySet (f j) (g j)) js) = []"
    "netlink_requests (map (\<lambda>j. PropertySet (f j) (g j)) js) = []" for f g and js :: "nat list"
    by (induction js) simp_all
  then show "datagrams (rdnss_calls m x) = []" "netlink_requests (rdnss_calls m x) = []"
    by (simp_all add: rdnss_calls_def del: upt_rec_numeral)
qed

lemma concat_map_nil [simp]: "concat (map (\<lambda>x. []) xs) = []"
  by (induction xs) simp_all

lemma flag_tests [simp]:
  "kSpoofSource \<noteq> 0" "kAddRoute \<noteq> 0" "kSetDefaultGateway \<noteq> 0"
  "kSpoofSource AND kAddRoute = 0"
  "kSpoofSource AND kSetDefaultGateway = 0"
  "(kRewriteSourceLink OR kSetDefaultGateway) AND kSpoofSource = 0"
  "(kRewriteSourceLink OR kSetDefaultGateway) AND kAddRoute = 0"
  "(kRewriteSourceLink OR kSetDefaultGateway) AND kSetDefaultGateway \<noteq> 0"
  "kRewriteTargetLink AND kSpoofSource = 0" "kRewriteTargetLink AND kAddRoute = 0"
  "kRewriteTargetLink AND kSetDefaultGateway = 0"
  "(kSpoofSource OR kAddRoute) AND kSpoofSource \<noteq> 0"
  "(kSpoofSource OR kAddRoute) AND kAddRoute \<noteq> 0"
  "(kSpoofSource OR kAddRoute) AND kSetDefaultGateway = 0"
  "(kRewriteTargetLink OR kSpoofSource OR kAddRoute) AND kSpoofSource \<noteq> 0"
  "(kRewriteTargetLink OR kSpoofSource OR kAddRoute) AND kAddRoute \<noteq> 0"
  "(kRewriteTargetLink OR kSpoofSource OR kAddRoute) AND kSetDefaultGateway = 0"
  by (simp_all add: forward_flags)

text \<open>The abstract behaviour: what the handlers promise to send for a message.\<close>

definition outer_datagrams :: "proxy \<Rightarrow> message6 \<Rightarrow> (int \<times> bytes option \<times> bytes \<times> bytes) list" where
  "outer_datagrams p m =
     map (\<lambda>i. (sockFd (ifIcmpSocket i),
              if mType (Packet m) = NeighborSolicitation then Some (src_of m) else None, dst_of m,
              icmp_of (case mType (Packet m) of
                  RouterAdvertisement \<Rightarrow> linked ND_OPT_SOURCE_LINKADDR i m
                | NeighborAdvertisement \<Rightarrow> linked ND_OPT_TARGET_LINKADDR i m
                | _ \<Rightarrow> m)))
       (if mType (Packet m) \<in> {RouterAdvertisement, NeighborSolicitation, NeighborAdvertisement}
        then mInnerIfs p else [])"

definition inner_datagrams :: "proxy \<Rightarrow> message6 \<Rightarrow> (int \<times> bytes option \<times> bytes \<times> bytes) list" where
  "inner_datagrams p m =
     (if mType (Packet m) \<in> {RouterSolicitation, NeighborSolicitation, NeighborAdvertisement}
      then [(sockFd (ifIcmpSocket (mOuterIf p)), Some (src_of m), dst_of m,
             icmp_of (if mType (Packet m) = NeighborAdvertisement
                      then linked ND_OPT_TARGET_LINKADDR (mOuterIf p) m else m))]
      else [])"

text \<open>Only the message and the trace change.\<close>

definition same_setup :: "proxy \<Rightarrow> proxy \<Rightarrow> bool" where
  "same_setup p p' \<longleftrightarrow> mInnerIfs p' = mInnerIfs p \<and> mOuterIf p' = mOuterIf p \<and>
     mRouterSocket p' = mRouterSocket p"

lemma concat_map_single: "concat (map (\<lambda>x. [f x]) xs) = map f xs"
  by (induction xs) simp_all

lemma outer_result:
  assumes "ready_proxy p" "m = rxMessage6 p" "handleOuterMessage k p = Some p'"
  shows "datagrams (proxyCalls p') = datagrams (proxyCalls p) @ outer_datagrams p m"
    and "same_setup p p'"
proof -
  have inner: "ready_if i" if "i \<in> set (mInnerIfs p)" for i
    using assms(1) that by (simp add: ready_proxy_def list_all_iff)
  note run = assms(3) [unfolded handleOuterMessage_run [OF assms(1,2)]]
  show "same_setup p p'"
    using run by (auto simp: same_setup_def Let_def split: packet_type.splits if_splits)
  show "datagrams (proxyCalls p') = datagrams (proxyCalls p) @ outer_datagrams p m"
    using run inner
    by (cases "mType (Packet m)")
      (auto simp: outer_datagrams_def datagrams_concat o_def datagrams_forward_calls
        relinked_addresses concat_map_single Let_def split: if_splits cong: map_cong)
qed

lemma inner_result:
  assumes "ready_proxy p" "m = rxMessage6 p" "handleInnerMessage k inner p = Some p'"
  shows "datagrams (proxyCalls p') = datagrams (proxyCalls p) @ inner_datagrams p m"
    and "same_setup p p'"
proof -
  have o: "ready_if (mOuterIf p)"
    using assms(1) by (simp add: ready_proxy_def)
  note run = assms(3) [unfolded handleInnerMessage_run [OF assms(1,2)]]
  show "same_setup p p'"
    using run by (auto simp: same_setup_def Let_def split: packet_type.splits if_splits)
  show "datagrams (proxyCalls p') = datagrams (proxyCalls p) @ inner_datagrams p m"
    using run o
    by (cases "mType (Packet m)")
      (auto simp: inner_datagrams_def datagrams_forward_calls relinked_addresses Let_def split: if_splits)
qed

lemma outer_netlink:
  assumes "ready_proxy p" "m = rxMessage6 p" "handleOuterMessage k p = Some p'"
  shows "netlink_requests (proxyCalls p') = netlink_requests (proxyCalls p) @
    (if mType (Packet m) = RouterAdvertisement
     then map (\<lambda>i. (sockFd (mRouterSocket p),
            request_bytes (gateway6_request (src_of m) (ifIndex (mOuterIf p))))) (mInnerIfs p)
     else [])"
proof -
  have inner: "ready_if i" if "i \<in> set (mInnerIfs p)" for i
    using assms(1) that by (simp add: ready_proxy_def list_all_iff)
  note run = assms(3) [unfolded handleOuterMessage_run [OF assms(1,2)]]
  show ?thesis
    using run inner
    by (cases "mType (Packet m)")
      (auto simp: netlink_concat o_def netlink_forward_calls
        relinked_addresses concat_map_single Let_def split: if_splits cong: map_cong)
qed

lemma inner_netlink:
  assumes "ready_proxy p" "m = rxMessage6 p" "handleInnerMessage k inner p = Some p'"
  shows "netlink_requests (proxyCalls p') = netlink_requests (proxyCalls p) @
    (if mType (Packet m) \<in> {NeighborSolicitation, NeighborAdvertisement}
     then [(sockFd (mRouterSocket p), request_bytes (addRoute_request (src_of m) 128 (ifIndex inner)))]
     else [])"
proof -
  have o: "ready_if (mOuterIf p)"
    using assms(1) by (simp add: ready_proxy_def)
  note run = assms(3) [unfolded handleInnerMessage_run [OF assms(1,2)]]
  show ?thesis
    using run o
    by (cases "mType (Packet m)")
      (auto simp: netlink_forward_calls relinked_addresses Let_def split: if_splits)
qed

section \<open>The running proxy\<close>

text \<open>
  What may leave the proxy: router advertisements, neighbor solicitations and neighbor
  advertisements to the inner interfaces, router solicitations, neighbor solicitations and neighbor
  advertisements to the outer one.
\<close>

definition may_send :: "proxy \<Rightarrow> int \<times> bytes option \<times> bytes \<times> bytes \<Rightarrow> bool" where
  "may_send p d \<longleftrightarrow>
     (case d of (fd, src, dst, bs) \<Rightarrow>
        fd \<in> (\<lambda>i. sockFd (ifIcmpSocket i)) ` set (mInnerIfs p) \<and>
          hd bs \<in> {ND_ROUTER_ADVERT, ND_NEIGHBOR_SOLICIT, ND_NEIGHBOR_ADVERT} \<or>
        fd = sockFd (ifIcmpSocket (mOuterIf p)) \<and>
          hd bs \<in> {ND_ROUTER_SOLICIT, ND_NEIGHBOR_SOLICIT, ND_NEIGHBOR_ADVERT})"

definition goes_on :: "proxy \<Rightarrow> proxy \<Rightarrow> bool" where
  "goes_on p p' \<longleftrightarrow> same_setup p p' \<and>
     (\<exists>ds. datagrams (proxyCalls p') = datagrams (proxyCalls p) @ ds \<and> list_all (may_send p) ds) \<and>
     (msgSize (rxMessage6 p) \<le> capacity6 \<longrightarrow> msgSize (rxMessage6 p') \<le> capacity6)"

lemma goes_on_refl [simp]: "goes_on p p"
  by (simp add: goes_on_def same_setup_def)

lemma goes_on_trans: "goes_on p q \<Longrightarrow> goes_on q r \<Longrightarrow> goes_on p r"
  by (fastforce simp: goes_on_def same_setup_def may_send_def list_all_iff)

lemma goes_on_ready: "goes_on p q \<Longrightarrow> ready_proxy p \<Longrightarrow> ready_proxy q"
  by (simp add: goes_on_def same_setup_def ready_proxy_def)

lemma Packet_type_byte:
  "mType (Packet m) = RouterSolicitation \<Longrightarrow> msgData m 40 = ND_ROUTER_SOLICIT"
  "mType (Packet m) = RouterAdvertisement \<Longrightarrow> msgData m 40 = ND_ROUTER_ADVERT"
  "mType (Packet m) = NeighborSolicitation \<Longrightarrow> msgData m 40 = ND_NEIGHBOR_SOLICIT"
  "mType (Packet m) = NeighborAdvertisement \<Longrightarrow> msgData m 40 = ND_NEIGHBOR_ADVERT"
  by (auto simp: Packet_type_cases nd_header_def Let_def split: if_splits option.splits)

lemma icmp_of_type: "mType (Packet m) \<noteq> Other \<Longrightarrow> hd (icmp_of m) = msgData m 40"
proof -
  assume "mType (Packet m) \<noteq> Other"
  then have "0 < msgSize m - 40" using Packet_pointers [of m] by simp
  then show ?thesis by (simp add: icmp_of_def hd_conv_nth flip: length_greater_0_conv)
qed

lemma icmp_types:
  "ready_if i \<Longrightarrow> mType (Packet m) \<noteq> Other \<Longrightarrow> hd (icmp_of (linked t i m)) = msgData m 40"
  using linked_type Packet_pointers by blast

lemma outer_goes_on:
  assumes "ready_proxy p" "handleOuterMessage k p = Some p'"
  shows "goes_on p p'"
proof -
  let ?m = "rxMessage6 p"
  have inner: "ready_if i" if "i \<in> set (mInnerIfs p)" for i
    using assms(1) that by (simp add: ready_proxy_def list_all_iff)
  note result = outer_result [OF assms(1) refl assms(2)]
  have "list_all (may_send p) (outer_datagrams p ?m)"
    using inner by (auto simp: list_all_iff outer_datagrams_def may_send_def icmp_types icmp_of_type
        Packet_type_byte)
  moreover have "msgSize (rxMessage6 p') = msgSize ?m"
    using assms(2) handleOuterMessage_run [OF assms(1) refl]
    by (auto simp: relinked_message Let_def split: packet_type.splits if_splits option.splits)
  ultimately show ?thesis using result by (auto simp: goes_on_def)
qed

lemma inner_goes_on:
  assumes "ready_proxy p" "handleInnerMessage k inner p = Some p'"
  shows "goes_on p p'"
proof -
  let ?m = "rxMessage6 p"
  have o: "ready_if (mOuterIf p)" using assms(1) by (simp add: ready_proxy_def)
  note result = inner_result [OF assms(1) refl assms(2)]
  have "list_all (may_send p) (inner_datagrams p ?m)"
    using o by (auto simp: inner_datagrams_def may_send_def icmp_types icmp_of_type Packet_type_byte)
  moreover have "msgSize (rxMessage6 p') = msgSize ?m"
    using assms(2) handleInnerMessage_run [OF assms(1) refl]
    by (auto simp: relinked_message Let_def split: packet_type.splits if_splits option.splits)
  ultimately show ?thesis using result by (auto simp: goes_on_def)
qed

lemma receive_goes_on: "receiveIfPossible k fd s p = (ok, p') \<Longrightarrow> goes_on p p'"
  by (auto simp: receiveIfPossible_def Socket6_receive_def goes_on_def same_setup_def received6_def Let_def
      split: if_splits prod.splits)

lemma inner_events_go_on:
  "inner_events k fd inners p = Some p' \<Longrightarrow> ready_proxy p \<Longrightarrow> goes_on p p'"
proof (induction inners arbitrary: p)
  case (Cons i inners)
  obtain ok q where r: "receiveIfPossible k fd (ifIpSocket i) p = (ok, q)" by force
  note q = receive_goes_on [OF r]
  note rq = goes_on_ready [OF q Cons.prems(2)]
  from Cons.prems(1) obtain q' where q': "(if ok then handleInnerMessage k i q else Some q) = Some q'"
    "inner_events k fd inners q' = Some p'"
    by (auto simp: r bind_eq_Some_conv)
  have "goes_on q q'" using q'(1) inner_goes_on [OF rq] by (auto split: if_splits)
  with Cons.IH [OF q'(2)] q rq goes_on_ready show ?case by (blast intro: goes_on_trans)
qed simp

lemma fd_events_go_on:
  "fd_events k fds p = Some p' \<Longrightarrow> ready_proxy p \<Longrightarrow> goes_on p p'"
proof (induction fds arbitrary: p)
  case (Cons fd fds)
  obtain ok q where r: "receiveIfPossible k fd (ifIpSocket (mOuterIf p)) p = (ok, q)" by force
  note q = receive_goes_on [OF r]
  note rq = goes_on_ready [OF q Cons.prems(2)]
  from Cons.prems(1) obtain q' where q':
    "(if ok then handleOuterMessage k q else inner_events k fd (mInnerIfs q) q) = Some q'"
    "fd_events k fds q' = Some p'"
    by (auto simp: r bind_eq_Some_conv)
  have "goes_on q q'"
    using q'(1) outer_goes_on [OF rq] inner_events_go_on [OF _ rq] by (auto split: if_splits)
  with Cons.IH [OF q'(2)] q rq goes_on_ready show ?case by (blast intro: goes_on_trans)
qed simp

lemma proxy_turn_goes_on:
  assumes "proxy_turn k p = Some (go, p')" "ready_proxy p"
  shows "goes_on p p'"
proof -
  let ?q = "p\<lparr>proxyCalls := proxyCalls p @ [PpollMany (poll_fds p)]\<rparr>"
  have q: "goes_on p ?q" by (simp add: goes_on_def same_setup_def)
  have "goes_on ?q p'"
    using assms(1) fd_events_go_on [OF _ goes_on_ready [OF q assms(2)]]
    by (auto simp: proxy_turn_def Let_def bind_eq_Some_conv split: if_splits)
  with q show ?thesis by (rule goes_on_trans)
qed

interpretation running: machine "proxy_next k" "\<lambda>p. ready_proxy p \<and> goes_on p0 p" for k p0
  by unfold_locales
    (auto simp: proxy_next_def dest: proxy_turn_goes_on intro: goes_on_ready goes_on_trans)

section \<open>The start\<close>

lemma init_inners_ready:
  "run_state (init_inners k is) t = (is', t') \<Longrightarrow> list_all ready_if is'"
  by (induction "is" arbitrary: t is' t')
    (auto split: if_splits prod.splits dest: Interface6_init_ready)

lemma proxy_start_ready: "proxy_start k p = Some p' \<Longrightarrow> ready_proxy p'"
  by (auto simp: proxy_start_def ready_proxy_def Router6_init_def split: if_splits prod.splits
      dest!: Socket6_open_Success dest: Interface6_init_ready init_inners_ready)

section \<open>Properties\<close>

text \<open>
  C4. The handlers implement their contract.  A message from the outer network goes once to every
  inner interface when it is a router advertisement, a neighbor solicitation or a neighbor
  advertisement, with the link address of that interface in the advertisements' link options and
  the original source address only in solicitations, and a router advertisement makes its sender
  the default gateway.  A message of an inner interface goes once to the outer interface when it is
  a router solicitation, a neighbor solicitation or a neighbor advertisement, always under its
  original source address, and a neighbor message makes that source routable through the interface.
  Everything else sends nothing.
\<close>

theorem handlers_forward:
  assumes "ready_proxy p" and "m = rxMessage6 p" and "ty = mType (Packet m)"
    and "r = sockFd (mRouterSocket p)"
  shows "(\<forall>p'. handleOuterMessage k p = Some p' \<longrightarrow>
      datagrams (proxyCalls p') = datagrams (proxyCalls p) @ outer_datagrams p m \<and>
      netlink_requests (proxyCalls p') = netlink_requests (proxyCalls p) @
        (if ty = RouterAdvertisement
         then map (\<lambda>i. (r, request_bytes (gateway6_request (src_of m) (ifIndex (mOuterIf p))))) (mInnerIfs p)
         else [])) \<and>
    (\<forall>p'. handleInnerMessage k inner p = Some p' \<longrightarrow>
      datagrams (proxyCalls p') = datagrams (proxyCalls p) @ inner_datagrams p m \<and>
      netlink_requests (proxyCalls p') = netlink_requests (proxyCalls p) @
        (if ty \<in> {NeighborSolicitation, NeighborAdvertisement}
         then [(r, request_bytes (addRoute_request (src_of m) 128 (ifIndex inner)))] else []))"
  using outer_result(1) [OF assms(1,2)] outer_netlink [OF assms(1,2)]
    inner_result(1) [OF assms(1,2)] inner_netlink [OF assms(1,2)] assms(3,4)
  by auto

text \<open>
  C8. A handler returns exactly when it need not look for options in a message that has one of length
  zero: such a router or neighbor advertisement from the outer network, or such a neighbor
  advertisement from an inner interface, keeps the proxy busy for ever; every other message is
  handled.
\<close>

theorem handlers_return_iff:
  assumes "ready_proxy p" and "m = rxMessage6 p"
    and "empty_option \<longleftrightarrow> \<not> list_all (\<lambda>x. nd_opt_len (msgData m) x \<noteq> 0) (options_of m)"
  shows "(handleOuterMessage k p = None \<longleftrightarrow>
      empty_option \<and> mType (Packet m) \<in> {RouterAdvertisement, NeighborAdvertisement}) \<and>
    (handleInnerMessage k inner p = None \<longleftrightarrow>
      empty_option \<and> mType (Packet m) = NeighborAdvertisement)"
  using assms(3)
  by (cases "mType (Packet m)")
    (auto simp: handleOuterMessage_run [OF assms(1,2)] handleInnerMessage_run [OF assms(1,2)]
      options_end_def Let_def)

text \<open>
  C7. In every turn of the started proxy only router advertisements, neighbor solicitations and
  neighbor advertisements are sent to inner interfaces, and only router solicitations, neighbor
  solicitations and neighbor advertisements to the outer one: no inner interface can make the proxy
  send a router advertisement into the outer network.
\<close>

theorem only_neighbor_discovery_leaves:
  assumes "proxy_start k p = Some p0" and "(proxy_next k)\<^sup>*\<^sup>* p0 p1" and "proxy_next k p1 p2"
    and "datagrams (proxyCalls p2) = datagrams (proxyCalls p1) @ ds" and "(fd, src, dst, bs) \<in> set ds"
  shows "fd \<in> set (map (\<lambda>i. sockFd (ifIcmpSocket i)) (mInnerIfs p0)) \<and>
      hd bs \<in> {ND_ROUTER_ADVERT, ND_NEIGHBOR_SOLICIT, ND_NEIGHBOR_ADVERT} \<or>
    fd = sockFd (ifIcmpSocket (mOuterIf p0)) \<and>
      hd bs \<in> {ND_ROUTER_SOLICIT, ND_NEIGHBOR_SOLICIT, ND_NEIGHBOR_ADVERT}"
proof -
  have p1: "ready_proxy p1 \<and> goes_on p0 p1"
    using running.along [OF assms(2), of p0] proxy_start_ready [OF assms(1)] by simp
  then have "goes_on p1 p2"
    using assms(3) proxy_turn_goes_on by (auto simp: proxy_next_def)
  then have "may_send p1 (fd, src, dst, bs)"
    using assms(4,5) by (auto simp: goes_on_def list_all_iff)
  then show ?thesis using p1 by (auto simp: may_send_def goes_on_def same_setup_def)
qed

text \<open>
  C9. The started proxy keeps what it was started with for ever: at least one inner interface, every
  interface with its packet socket bound, its ICMPv6 socket open, a non-zero index and a link
  address, and the open routing socket; and the message it receives into never exceeds its buffer.
\<close>

theorem running_proxy_keeps_setup:
  assumes "proxy_start k p = Some p0" and "(proxy_next k)\<^sup>*\<^sup>* p0 p1"
    and "msgSize (rxMessage6 p) \<le> capacity6"
  shows "mInnerIfs p1 = mInnerIfs p0 \<and> mOuterIf p1 = mOuterIf p0 \<and> mInnerIfs p1 \<noteq> [] \<and>
    list_all ready_if (mOuterIf p1 # mInnerIfs p1) \<and>
    mRouterSocket p1 = mRouterSocket p0 \<and> sockState (mRouterSocket p1) = SocketOpen \<and>
    msgSize (rxMessage6 p1) \<le> capacity6"
proof -
  have "ready_proxy p1 \<and> goes_on p0 p1"
    using running.along [OF assms(2), of p0] proxy_start_ready [OF assms(1)] by simp
  moreover have "msgSize (rxMessage6 p0) \<le> capacity6"
    using assms(1,3) by (auto simp: proxy_start_def split: if_splits prod.splits)
  ultimately show ?thesis
    by (auto simp: ready_proxy_def goes_on_def same_setup_def)
qed

text \<open>
  What a router advertisement does to the system properties, option by option: an option of
  recursive name servers sets the properties for the first four of its addresses and clears those
  of the missing ones; it has as many addresses as its length allows, and their text depends on
  bytes of the received message only.
\<close>

theorem rdnss_properties:
  assumes "extractRecursiveDnsServers k (Packet message) t = Some t'" and "m = msgData message"
  shows "t' = t @ concat (map (rdnss_calls m) (options_of message)) \<and>
    (\<forall>x m'. x \<in> set (options_of message) \<longrightarrow> (\<forall>i. i < msgSize message \<longrightarrow> m' i = m i) \<longrightarrow>
       nd_opt_len m x \<noteq> 0 \<longrightarrow>
       option_servers m' x = option_servers m x \<and>
       length (option_servers m x) = (unat (nd_opt_len m x) - 1) div 2)"
proof -
  have "option_servers m' x = option_servers m x"
    if x: "x \<in> set (options_of message)" "\<And>i. i < msgSize message \<Longrightarrow> m' i = m i"
      "nd_opt_len m x \<noteq> 0" for x m'
  proof -
    have "x + unat (nd_opt_len m x) * 8 \<le> msgSize message" "0 < unat (nd_opt_len m x)"
      using options_of_bounds [OF x(1)] x(3) by (auto simp: assms(2) unat_gt_0)
    moreover from this have "nd_opt_len m' x = nd_opt_len m x"
      using x(2) [of "x + 1"] by (simp add: nd_opt_len_def)
    ultimately show ?thesis
      using x(2) by (auto simp: option_servers_def intro!: arg_cong [where f = format6] load_cong)
  qed
  moreover have "length (option_servers m x) = (unat (nd_opt_len m x) - 1) div 2" for x
    by (simp add: option_servers_def)
  moreover have "t' = t @ concat (map (rdnss_calls m) (options_of message))"
    using assms(1) extract_run [OF sound_wf [OF sound_Packet], of k message t]
    by (simp add: assms(2) split: if_splits)
  ultimately show ?thesis by blast
qed

text \<open>
  \<open>splitString\<close> is the inverse of joining with the delimiter: no part contains it, and the parts
  joined give the string back.
\<close>

fun join :: "char \<Rightarrow> string list \<Rightarrow> string" where
  "join d [] = []"
| "join d [s] = s"
| "join d (s # ss) = s @ d # join d ss"

theorem split_string_joins:
  "join d (splitString str d) = str \<and> list_all (\<lambda>s. d \<notin> set s) (splitString str d)"
proof (induction str d rule: splitString.induct)
  case (1 str d)
  show ?case
  proof (cases "dropWhile (\<lambda>c. c \<noteq> d) str")
    case Nil
    then have "splitString str d = [str]"
      by (subst splitString.simps) (simp del: dropWhile_eq_Nil_conv)
    then show ?thesis using Nil by (auto simp: dropWhile_eq_Nil_conv)
  next
    case (Cons c rest)
    have ne: "splitString rest d \<noteq> []"
      by (subst splitString.simps) (simp split: list.split)
    have "c = d" using Cons by (metis (mono_tags, lifting) dropWhile_eq_Cons_conv)
    moreover have "str = takeWhile (\<lambda>c. c \<noteq> d) str @ c # rest"
      using Cons takeWhile_dropWhile_id [of "\<lambda>c. c \<noteq> d" str] by simp
    moreover have "splitString str d = takeWhile (\<lambda>c. c \<noteq> d) str # splitString rest d"
      using Cons by (subst splitString.simps) simp
    moreover have "join d (s # splitString rest d) = s @ d # rest" for s
      using 1 [OF Cons] ne by (cases "splitString rest d") auto
    ultimately show ?thesis
      using 1 [OF Cons] by (auto dest: set_takeWhileD)
  qed
qed

section \<open>Examples\<close>

text \<open>
  A kernel for which everything succeeds: descriptor 5, interface index 2, one message, which
  arrives on the first descriptor of every poll; an interface it has set up; and a message of 64
  bytes with an ICMPv6 type.
\<close>

definition demo_kernel6 :: "bytes \<Rightarrow> kernel" where
  "demo_kernel6 message t =
     (case last t of
        SocketCreate _ _ _ \<Rightarrow> idle_answer\<lparr>ret := 5\<rparr>
      | IfNameToIndex _ \<Rightarrow> idle_answer\<lparr>ret := 2\<rparr>
      | PpollMany _ \<Rightarrow> idle_answer\<lparr>ret := 1, data := [1]\<rparr>
      | Recv _ \<Rightarrow> idle_answer\<lparr>ret := int (length message), data := message\<rparr>
      | _ \<Rightarrow> idle_answer)"

definition demo_if :: interface6 where
  "demo_if = \<lparr>ifName = ''a'', ifIndex = 2, ifIpSocket = \<lparr>sockState = SocketBound, sockFd = 5\<rparr>,
     ifIcmpSocket = \<lparr>sockState = SocketOpen, sockFd = 5\<rparr>, ifLinkAddr = ethAddress 2 (replicate 6 0)\<rparr>"

definition demo_bytes :: "u8 \<Rightarrow> bytes" where
  "demo_bytes ty = [0x60, 0, 0, 0, 0, 0, 58] @ replicate 33 0 @ [ty] @ replicate 23 0"

definition demo_message :: "u8 \<Rightarrow> message6" where
  "demo_message ty = \<lparr>msgData = store (\<lambda>_. 0) 0 (demo_bytes ty), msgSize = 64\<rparr>"

definition demo_proxy :: "message6 \<Rightarrow> trace \<Rightarrow> proxy" where
  "demo_proxy m t = \<lparr>mInnerIfs = [demo_if], mOuterIf = demo_if,
     mRouterSocket = \<lparr>sockState = SocketOpen, sockFd = 5\<rparr>, rxMessage6 = m, proxyCalls = t\<rparr>"

lemma demo_ready: "ready_proxy (demo_proxy m t)"
  by (simp add: ready_proxy_def demo_proxy_def ready_if_def demo_if_def ethAddress_def)

lemma demo_fields [simp]:
  "mInnerIfs (demo_proxy m t) = [demo_if]" "mOuterIf (demo_proxy m t) = demo_if"
  "rxMessage6 (demo_proxy m t) = m" "proxyCalls (demo_proxy m t) = t"
  by (simp_all add: demo_proxy_def)

lemma demo_memory6:
  "msgData (demo_message ty) i =
     (if i = 0 then 0x60 else if i = 6 then 58 else if i = 40 then ty else 0)"
  by (auto simp: demo_message_def demo_bytes_def store_def nth_append nth_Cons')

lemma demo_types:
  "mType (Packet (demo_message ND_NEIGHBOR_SOLICIT)) = NeighborSolicitation"
  "mType (Packet (demo_message ND_ROUTER_ADVERT)) = RouterAdvertisement"
  "options_of (demo_message ND_ROUTER_ADVERT) = [56]"
  by (simp_all add: Packet_type_cases demo_memory6 nd_header_def nd_consts options_of_def option_list_def
      firstOpt_def Packet_def Let_def nd_opt_len_def nd_options.simps)
    (simp_all add: demo_message_def)

lemma demo_interface:
  "\<exists>t'. run_state (Interface6_init (demo_kernel6 m) (Interface6_new 0 ''a'')) t = ((True, demo_if), t') \<and>
     datagrams t' = datagrams t"
proof -
  have "take 6 (drop 18 (overlay [] (ifreq_for ''a''))) = replicate 6 0"
    "overlay [] (ifreq_for ''a'') ! 17 = 0"
    by (simp_all add: overlay_def ifreq_for_def cstr_def IFNAMSIZ_def sizeof_ifreq_def)
  then show ?thesis
    by (simp add: Interface6_init_def setAllMulti_def resolveAddresses_def resolveEth_def
        configureIpSocket_def configureIcmpSocket_def Socket6_open_def Socket6_bind_def
        Socket6_destroy_def set_option_def setMulticastHopLimit_def setUnicastHopLimit_def
        setInterface_def setTransparent_def call_result_def Interface6_new_def Socket6_new_def
        demo_kernel6_def idle_answer_def Let_def demo_if_def)
qed

lemma demo_start:
  "\<exists>t. proxy_start (demo_kernel6 m) (Proxy_new (\<lambda>_. 0) (demo_message 0) ''a'' [''a''] []) =
     Some (demo_proxy (demo_message 0) t)"
proof -
  obtain t1 where 1: "run_state (Interface6_init (demo_kernel6 m) (Interface6_new 0 ''a'')) [SigSetMask] =
      ((True, demo_if), t1)"
    using demo_interface by blast
  let ?t2 = "t1 @ [SocketCreate AF_NETLINK (SOCK_RAW + SOCK_CLOEXEC) NETLINK_ROUTE]"
  obtain t3 where 3: "run_state (Interface6_init (demo_kernel6 m) (Interface6_new 0 ''a'')) ?t2 =
      ((True, demo_if), t3)"
    using demo_interface by blast
  have "demo_kernel6 m [SigSetMask] = idle_answer" "demo_kernel6 m ?t2 = idle_answer\<lparr>ret := 5\<rparr>"
    by (simp_all add: demo_kernel6_def)
  then have "proxy_start (demo_kernel6 m) (Proxy_new (\<lambda>_. 0) (demo_message 0) ''a'' [''a''] []) =
      Some (demo_proxy (demo_message 0) t3)"
    using 1 3
    by (simp add: proxy_start_def Proxy_new_def Router6_init_def Socket6_open_def Socket6_new_def
        demo_proxy_def idle_answer_def Let_def)
  then show ?thesis by blast
qed

text \<open>A turn in which a neighbor solicitation arrives from the outer network.\<close>

lemma demo_proxy_turn:
  "\<exists>p. proxy_next (demo_kernel6 (demo_bytes ND_NEIGHBOR_SOLICIT)) (demo_proxy (demo_message 0) t) p \<and>
     datagrams (proxyCalls p) = datagrams t @
       outer_datagrams (demo_proxy (demo_message ND_NEIGHBOR_SOLICIT) t) (demo_message ND_NEIGHBOR_SOLICIT)"
proof -
  let ?k = "demo_kernel6 (demo_bytes ND_NEIGHBOR_SOLICIT)"
  let ?t1 = "t @ [PpollMany [5, 5]]"
  let ?q = "demo_proxy (demo_message ND_NEIGHBOR_SOLICIT) (?t1 @ [Recv 5])"
  obtain p where p: "handleOuterMessage ?k ?q = Some p"
    by (simp add: handleOuterMessage_run [OF demo_ready refl] demo_types Let_def)
  have out: "datagrams (proxyCalls p) = datagrams t @
      outer_datagrams (demo_proxy (demo_message ND_NEIGHBOR_SOLICIT) t) (demo_message ND_NEIGHBOR_SOLICIT)"
    and same: "same_setup ?q p"
    using outer_result [OF demo_ready refl p] by (simp_all add: outer_datagrams_def)
  have ifs: "mInnerIfs p = [demo_if]" "mOuterIf p = demo_if"
    using same by (simp_all add: same_setup_def)
  have "length (demo_bytes ND_NEIGHBOR_SOLICIT) = 64" by (simp add: demo_bytes_def)
  moreover have "store (msgData (demo_message 0)) 0 (demo_bytes ty) = msgData (demo_message ty)" for ty
    by (auto simp: fun_eq_iff demo_message_def demo_bytes_def store_def)
  ultimately have "receiveIfPossible ?k (5, 1) (ifIpSocket demo_if) (demo_proxy (demo_message 0) ?t1) =
      (True, ?q)"
    by (simp add: receiveIfPossible_def Socket6_receive_def demo_if_def demo_kernel6_def idle_answer_def
        received6_def demo_proxy_def capacity6_def Let_def) (simp add: demo_message_def)
  moreover have "receiveIfPossible ?k (5, 0) s p' = (False, p')" for s p'
    by (simp add: receiveIfPossible_def)
  moreover have "poll_fds (demo_proxy (demo_message 0) t) = [5, 5]"
    by (simp add: poll_fds_def demo_proxy_def demo_if_def)
  moreover have "?k ?t1 = idle_answer\<lparr>ret := 1, data := [1]\<rparr>"
    by (simp add: demo_kernel6_def)
  moreover have "(demo_proxy (demo_message 0) t)\<lparr>proxyCalls := ?t1\<rparr> = demo_proxy (demo_message 0) ?t1"
    by (simp add: demo_proxy_def)
  ultimately have "proxy_turn ?k (demo_proxy (demo_message 0) t) = Some (True, p)"
    using p ifs by (simp add: proxy_turn_def Let_def idle_answer_def)
  then show ?thesis using out by (auto simp: proxy_next_def)
qed


theorem handlers_forward_witness:
  "\<exists>p'. handleOuterMessage (\<lambda>t. idle_answer) (demo_proxy (demo_message ND_NEIGHBOR_SOLICIT) []) = Some p' \<and>
     netlink_requests (proxyCalls p') = []"
proof -
  let ?p = "demo_proxy (demo_message ND_NEIGHBOR_SOLICIT) []"
  obtain p' where p': "handleOuterMessage (\<lambda>t. idle_answer) ?p = Some p'"
    by (simp add: handleOuterMessage_run [OF demo_ready refl] demo_types Let_def)
  then show ?thesis
    using handlers_forward [OF demo_ready refl refl refl, of "\<lambda>t. idle_answer"
        "demo_message ND_NEIGHBOR_SOLICIT" "[]"]
    by (simp add: demo_types)
qed

theorem handlers_return_iff_witness:
  "handleOuterMessage (\<lambda>t. idle_answer) (demo_proxy (demo_message ND_ROUTER_ADVERT) []) = None"
  using handlers_return_iff [OF demo_ready [of "demo_message ND_ROUTER_ADVERT" "[]"] refl,
      of True "\<lambda>t. idle_answer"]
  by (simp add: demo_types demo_memory6 nd_opt_len_def)

theorem only_neighbor_discovery_leaves_witness:
  "\<exists>p0 p1 ds. proxy_start (demo_kernel6 (demo_bytes ND_NEIGHBOR_SOLICIT))
       (Proxy_new (\<lambda>_. 0) (demo_message 0) ''a'' [''a''] []) = Some p0 \<and>
     proxy_next (demo_kernel6 (demo_bytes ND_NEIGHBOR_SOLICIT)) p0 p1 \<and>
     datagrams (proxyCalls p1) = datagrams (proxyCalls p0) @ ds \<and>
     list_all (\<lambda>(fd, src, dst, bs). fd = 5 \<and> hd bs \<noteq> 0) ds \<and> ds \<noteq> []"
proof -
  let ?k = "demo_kernel6 (demo_bytes ND_NEIGHBOR_SOLICIT)"
  obtain t where t: "proxy_start ?k (Proxy_new (\<lambda>_. 0) (demo_message 0) ''a'' [''a''] []) =
      Some (demo_proxy (demo_message 0) t)" using demo_start by blast
  obtain p where p: "proxy_next ?k (demo_proxy (demo_message 0) t) p"
    "datagrams (proxyCalls p) = datagrams (proxyCalls (demo_proxy (demo_message 0) t)) @
       outer_datagrams (demo_proxy (demo_message ND_NEIGHBOR_SOLICIT) t) (demo_message ND_NEIGHBOR_SOLICIT)"
    using demo_proxy_turn [of t] by auto
  note leaves = only_neighbor_discovery_leaves [OF t rtranclp.rtrancl_refl p]
  have "list_all (\<lambda>(fd, src, dst, bs). fd = 5 \<and> hd bs \<noteq> 0)
      (outer_datagrams (demo_proxy (demo_message ND_NEIGHBOR_SOLICIT) t) (demo_message ND_NEIGHBOR_SOLICIT))"
    using leaves by (fastforce simp: list_all_iff demo_if_def nd_consts)
  moreover have "outer_datagrams (demo_proxy (demo_message ND_NEIGHBOR_SOLICIT) t)
      (demo_message ND_NEIGHBOR_SOLICIT) \<noteq> []"
    by (simp add: outer_datagrams_def demo_types)
  ultimately show ?thesis using t p by blast
qed

theorem running_proxy_keeps_setup_witness:
  "\<exists>p0 p1. proxy_start (demo_kernel6 (demo_bytes ND_NEIGHBOR_SOLICIT))
       (Proxy_new (\<lambda>_. 0) (demo_message 0) ''a'' [''a''] []) = Some p0 \<and>
     proxy_next (demo_kernel6 (demo_bytes ND_NEIGHBOR_SOLICIT)) p0 p1 \<and>
     msgSize (rxMessage6 p1) \<le> 8192"
proof -
  let ?k = "demo_kernel6 (demo_bytes ND_NEIGHBOR_SOLICIT)"
  obtain t where t: "proxy_start ?k (Proxy_new (\<lambda>_. 0) (demo_message 0) ''a'' [''a''] []) =
      Some (demo_proxy (demo_message 0) t)" using demo_start by blast
  obtain p where p: "proxy_next ?k (demo_proxy (demo_message 0) t) p" using demo_proxy_turn [of t] by auto
  have "msgSize (rxMessage6 (Proxy_new (\<lambda>_. 0) (demo_message 0) ''a'' [''a''] [])) \<le> capacity6"
    by (simp add: Proxy_new_def demo_message_def capacity6_def)
  moreover from p have "(proxy_next ?k)\<^sup>*\<^sup>* (demo_proxy (demo_message 0) t) p"
    by (rule rtranclp.rtrancl_into_rtrancl [OF rtranclp.rtrancl_refl])
  ultimately show ?thesis
    using running_proxy_keeps_setup [OF t] t p by (auto simp: capacity6_def)
qed

theorem rdnss_properties_witness:
  "extractRecursiveDnsServers (\<lambda>t. idle_answer) (Packet (demo_message ND_NEIGHBOR_SOLICIT)) [] = Some []"
proof -
  have none: "options_of (demo_message ND_NEIGHBOR_SOLICIT) = []"
    by (simp add: options_of_def option_list_def firstOpt_def Packet_def Let_def nd_consts
        nd_header_def demo_memory6 split: option.split) (simp add: demo_message_def)
  then obtain t' where "extractRecursiveDnsServers (\<lambda>t. idle_answer)
      (Packet (demo_message ND_NEIGHBOR_SOLICIT)) [] = Some t'"
    using extract_run [OF sound_wf [OF sound_Packet]] by (simp add: options_end_def)
  with rdnss_properties [OF this refl] none show ?thesis by simp
qed

end
