(* ===== verification/Namespaces.thy ===== *)
theory Namespaces
  imports World Text
begin

text \<open>
  The tools around network namespaces: \<open>createns\<close> (\<open>network/createns/createns.cpp\<close>), which
  creates a namespace, binds it to a file and leaves its process id in another, and \<open>execns\<close>
  (\<open>network/execns/execns.cpp\<close>), which reads this process id, enters the namespace, drops its
  privileges and executes a command.  The strings of the command line are C strings without their
  terminating null; \<open>g\<close> is what lies in the buffers of the stack before they are written.  Of the
  log only the one message that is put together in a buffer is modelled.
\<close>

text \<open>The C string at the start of a list of bytes.\<close>

definition c_string :: "bytes \<Rightarrow> string" where
  "c_string bs = map (\<lambda>b. char_of (unat b)) (takeWhile (\<lambda>b. b \<noteq> 0) bs)"

definition decimal_int :: "int \<Rightarrow> string" where
  "decimal_int i = (if i < 0 then ''-'' @ decimal (nat (- i)) else decimal (nat i))"

section \<open>createns\<close>

definition kNamespacePath :: string where "kNamespacePath = ''/data/vendor/var/run/netns/''"
definition kProcNsNet :: string where "kProcNsNet = ''/proc/self/ns/net''"

definition EINTR :: int where "EINTR = 4"
definition O_WRONLY_CREAT_TRUNC_CLOEXEC :: int where "O_WRONLY_CREAT_TRUNC_CLOEXEC = 0x80241"
definition O_RDONLY_CREAT :: int where "O_RDONLY_CREAT = 0x40"
definition S_IRUSR_IWUSR_IRGRP :: int where "S_IRUSR_IWUSR_IRGRP = 0x1A0"
definition S_IRUSR_IRGRP :: int where "S_IRUSR_IRGRP = 0x120"
definition CLONE_NEWNET :: int where "CLONE_NEWNET = 0x40000000"
definition MS_BIND :: int where "MS_BIND = 4096"

definition removeFile :: "kernel \<Rightarrow> string \<Rightarrow> (trace, bool) state" where
  "removeFile k file = do { a \<leftarrow> sys k (Unlink file); State_Monad.return (ret a \<noteq> -1) }"

text \<open>\<open>strlcpy\<close> and \<open>strlcat\<close>: the string in the destination, and the length that was tried.\<close>

definition strlcpy :: "string \<Rightarrow> nat \<Rightarrow> string \<times> nat" where
  "strlcpy src room = (take (room - 1) src, length src)"

definition strlcat :: "string \<Rightarrow> string \<Rightarrow> nat \<Rightarrow> string \<times> nat" where
  "strlcat dst src room =
     (if room \<le> length dst then (dst, room + length src)
      else (dst @ take (room - length dst - 1) src, length dst + length src))"

definition getNamespacePath :: "string \<Rightarrow> string" where
  "getNamespacePath name =
     (let len = length name; sizeof = length kNamespacePath + 1
      in if len = 0 then ''''
         else if 2 ^ 64 - 1 - sizeof < len then ''''
         else let (nsPath, totalSize) = strlcpy kNamespacePath (sizeof + len)
           in if totalSize \<ge> sizeof + len then ''''
              else let (nsPath, totalSize) = strlcat nsPath name (sizeof + len)
                in if totalSize \<ge> sizeof + len then '''' else nsPath)"

text \<open>
  The loop that writes the process id from the buffer \<open>pidString\<close>.  The count given to \<open>write\<close>
  is the \<open>int\<close> \<open>remaining\<close> as a \<open>size_t\<close>.  \<open>None\<close>: it never ends.
\<close>

partial_function (option) write_pid ::
  "kernel \<Rightarrow> int \<Rightarrow> string \<Rightarrow> mem \<Rightarrow> int \<Rightarrow> nat \<Rightarrow> int \<Rightarrow> trace \<Rightarrow> (bool \<times> trace) option" where
  "write_pid k fd path pidString printed toPrint remaining t =
     (let (a, t) = run_state
            (sys k (WriteFile fd (load pidString toPrint (unat (of_int remaining :: u64))))) t;
          result = ret a
      in if result < 0 then
           if err a = EINTR then write_pid k fd path pidString printed toPrint remaining t
           else Some (False, snd (run_state (removeFile k path) t))
         else if result < printed then
           write_pid k fd path pidString printed (toPrint + nat result) (remaining - result) t
         else Some (True, t))"

definition writeNamespacePid ::
  "kernel \<Rightarrow> mem \<Rightarrow> string \<Rightarrow> int \<Rightarrow> trace \<Rightarrow> (bool \<times> trace) option" where
  "writeNamespacePid k g name pid t =
     (let path = getNamespacePath name
      in if path = '''' then Some (False, t)
         else let path = path @ ''.pid'';
                  (a, t) = run_state
                    (sys k (OpenFile path O_WRONLY_CREAT_TRUNC_CLOEXEC S_IRUSR_IWUSR_IRGRP)) t;
                  fd = ret a
           in if fd = -1 then Some (False, t)
              else let pidString = decimal_int pid; printed = int (length pidString)
                in do {
                     (ok, t) \<leftarrow>
                       (if printed \<le> 0 then Some (False, snd (run_state (removeFile k path) t))
                        else write_pid k fd path (store g 0 (string_bytes pidString @ [0])) printed
                               0 printed t);
                     Some (ok, snd (run_state (sys k (Close fd)) t))
                   })"

text \<open>
  \<open>main\<close>: its exit status, or no status when it comes to wait in \<open>pause\<close> for ever; \<open>None\<close>
  when it never ends writing the process id.
\<close>

definition createns_main ::
  "kernel \<Rightarrow> mem \<Rightarrow> string list \<Rightarrow> trace \<Rightarrow> (int option \<times> trace) option" where
  "createns_main k g argv t =
     (if length argv \<noteq> 2 then Some (Some 1, t)
      else let name = argv ! 1; (a, t) = run_state (sys k (Unshare CLONE_NEWNET)) t
        in if ret a \<noteq> 0 then Some (Some 1, t)
           else let path = getNamespacePath name
             in if path = '''' then Some (Some 1, t)
                else let (a, t) = run_state (sys k (OpenFile path O_RDONLY_CREAT S_IRUSR_IRGRP)) t;
                         fd = ret a
                  in if fd = -1 then Some (Some 1, t)
                     else let (_, t) = run_state (sys k (Close fd)) t;
                              (a, t) = run_state (sys k (Mount kProcNsNet path MS_BIND)) t
                       in if ret a \<noteq> 0 then Some (Some 1, snd (run_state (removeFile k path) t))
                          else let (a, t) = run_state (sys k GetPid) t
                            in do {
                                 (ok, t) \<leftarrow> writeNamespacePid k g name (ret a) t;
                                 if \<not> ok then Some (Some 1, t)
                                 else Some (None, snd (run_state
                                        (sys k (PropertySet ''vendor.qemu.networknamespace'' ''ready'')) t))
                               })"

section \<open>execns\<close>

definition kNetNsDir_execns :: string where "kNetNsDir_execns = ''/data/vendor/var/run/netns''"

fun isNumericString :: "string \<Rightarrow> bool" where
  "isNumericString [] = True"
| "isNumericString (c # str) = (if isdigit c then isNumericString str else False)"

definition readNamespacePid :: "kernel \<Rightarrow> mem \<Rightarrow> string \<Rightarrow> (trace, string) state" where
  "readNamespacePid k g ns = do {
     a \<leftarrow> sys k (FOpen (take (PATH_MAX - 1) (kNetNsDir_execns @ ''/'' @ ns @ ''.pid'')));
     let file = ret a;
     if file = 0 then State_Monad.return ''''
     else do {
       r \<leftarrow> sys k (FRead file 32);
       let bytesRead = nat (ret r);
       let buffer = c_string (load (store g 0 (take 32 (data r))) 0 bytesRead);
       pid \<leftarrow> (if bytesRead < 32 then do {
                  e \<leftarrow> sys k (FEof file);
                  State_Monad.return
                    (if ret e \<noteq> 0 \<and> isNumericString buffer then buffer else '''')
                } else State_Monad.return '''');
       _ \<leftarrow> sys k (FClose file);
       State_Monad.return pid
     }
   }"

definition setNetworkNamespace_execns :: "kernel \<Rightarrow> mem \<Rightarrow> string \<Rightarrow> (trace, bool) state" where
  "setNetworkNamespace_execns k g ns = do {
     pid \<leftarrow> readNamespacePid k g ns;
     if pid = '''' then State_Monad.return False
     else do {
       a \<leftarrow> sys k (OpenFile (take (PATH_MAX - 1) (''/proc/'' @ pid @ ''/ns/net'')) O_RDONLY_CLOEXEC 0);
       let nsFd = ret a;
       if nsFd = -1 then State_Monad.return False
       else do {
         a \<leftarrow> sys k (SetNs nsFd);
         _ \<leftarrow> sys k (Close nsFd);
         State_Monad.return (ret a \<noteq> -1)
       }
     }
   }"

definition changeUser :: "kernel \<Rightarrow> string \<Rightarrow> (trace, bool) state" where
  "changeUser k user = do {
     pwd \<leftarrow> sys k (GetPwNam user);
     if ret pwd = -1 then State_Monad.return False
     else do { a \<leftarrow> sys k (SetUid (ret pwd)); State_Monad.return (ret a = 0) }
   }"

definition changeGroup :: "kernel \<Rightarrow> string \<Rightarrow> (trace, bool) state" where
  "changeGroup k group_name = do {
     grp \<leftarrow> sys k (GetGrNam group_name);
     if ret grp = -1 then State_Monad.return False
     else do { a \<leftarrow> sys k (SetGid (ret grp)); State_Monad.return (ret a = 0) }
   }"

text \<open>
  \<open>snprintf\<close> and \<open>vsnprintf\<close> with the formatted text given: the number of characters, or -1
  when it is no \<open>int\<close>, and the string in the buffer.  The buffer of \<open>sncatf\<close> is given by the
  string it holds; the array is full when this has \<open>room\<close> characters.
\<close>

definition snprintf :: "nat \<Rightarrow> string \<Rightarrow> int \<times> string" where
  "snprintf room s =
     (if 2 ^ 31 \<le> length s then (-1, take (room - 1) s) else (int (length s), take (room - 1) s))"

definition sncatf :: "string \<Rightarrow> nat \<Rightarrow> string \<Rightarrow> int \<times> string" where
  "sncatf buffer room s =
     (let len = min (length buffer) room
      in if len \<ge> room then (-1, buffer)
         else let (printed, text) = snprintf (room - len) s in (printed, buffer @ text))"

text \<open>
  \<open>execCommand\<close>: its status; \<open>strerror\<close> is the C library's.  When \<open>execvp\<close> succeeds the
  process is the command, and the status is never seen.
\<close>

definition argument_text :: "string \<Rightarrow> string" where
  "argument_text arg = (if CHR '' '' \<in> set arg then '' \"'' @ arg @ ''\"'' else '' '' @ arg)"

definition execCommand :: "kernel \<Rightarrow> (int \<Rightarrow> string) \<Rightarrow> string list \<Rightarrow> (trace, int) state" where
  "execCommand k strerror argv =
     (if argv = [] then State_Monad.return 1
      else do {
        a \<leftarrow> sys k (ExecVp argv);
        if ret a = -1 then do {
          let error = err a;
          let (printed, buffer) = snprintf 4096 (''Could not execute command '' @ [CHR 0x27] @ hd argv);
          if printed < 0 then State_Monad.return error
          else do {
            let buffer = fold (\<lambda>arg buffer. snd (sncatf buffer 4096 (argument_text arg))) (tl argv) buffer;
            let buffer = snd (sncatf buffer 4096 ([CHR 0x27] @ '': '' @ strerror error));
            _ \<leftarrow> sys k (LogError buffer);
            State_Monad.return error
          }
        } else State_Monad.return 0
      })"

text \<open>The argument loop: user, group, namespace and command; \<open>None\<close> for exit status 1.\<close>

fun execns_args ::
  "string list \<Rightarrow> string option \<Rightarrow> string option \<Rightarrow>
   (string option \<times> string option \<times> string \<times> string list) option" where
  "execns_args [] user grp = None"
| "execns_args (arg # args) user grp =
     (if arg = ''-u'' then
        if user \<noteq> None \<or> args = [] then None else execns_args (tl args) (Some (hd args)) grp
      else if arg = ''-g'' then
        if grp \<noteq> None \<or> args = [] then None else execns_args (tl args) user (Some (hd args))
      else if args = [] then None
      else Some (user, grp, arg, args))"

definition execns_main ::
  "kernel \<Rightarrow> mem \<Rightarrow> (int \<Rightarrow> string) \<Rightarrow> string list \<Rightarrow> (trace, int) state" where
  "execns_main k g strerror argv = do {
     _ \<leftarrow> sys k (IsATty 1);
     case execns_args (tl argv) None None of
       None \<Rightarrow> State_Monad.return 1
     | Some (user, grp, ns, command) \<Rightarrow> do {
         ok \<leftarrow> setNetworkNamespace_execns k g ns;
         if \<not> ok then State_Monad.return 1
         else do {
           ok \<leftarrow> (case grp of None \<Rightarrow> State_Monad.return True | Some grp \<Rightarrow> changeGroup k grp);
           if \<not> ok then State_Monad.return 1
           else do {
             ok \<leftarrow> (case user of None \<Rightarrow> State_Monad.return True | Some user \<Rightarrow> changeUser k user);
             if \<not> ok then State_Monad.return 1
             else execCommand k strerror command
           }
         }
       }
   }"

end
