(* ===== verification/NamespaceProps.thy ===== *)
theory NamespaceProps
  imports Namespaces Proxy
begin

text \<open>
  What the namespace tools guarantee: what \<open>createns\<close> has done when it says that it is ready, when
  it hangs, that \<open>execns\<close> and the IPv6 proxy find what it left behind, and that \<open>execns\<close> drops
  its privileges before it executes anything.
\<close>

section \<open>Paths, numbers and C strings\<close>

lemma getNamespacePath_eq:
  "name \<noteq> '''' \<Longrightarrow> length name < 2 ^ 63 \<Longrightarrow> getNamespacePath name = kNamespacePath @ name"
  by (simp add: getNamespacePath_def strlcpy_def strlcat_def kNamespacePath_def)

lemma isNumericString_iff: "isNumericString s \<longleftrightarrow> list_all isdigit s"
  by (induction s) simp_all

lemma c_string_digits: "list_all isdigit s \<Longrightarrow> c_string (string_bytes s) = s"
proof (induction s)
  case (Cons c s)
  then have "unat (of_char c :: u8) \<noteq> 0" by (simp add: unat_of_char isdigit_def)
  then have "(of_char c :: u8) \<noteq> 0" by auto
  with Cons show ?case by (simp add: c_string_def string_bytes_def unat_of_char)
qed (simp add: c_string_def string_bytes_def)

section \<open>The loop that writes the process id\<close>

text \<open>What \<open>write\<close> promises: it never reports more than it was given.\<close>

definition writes_at_most :: "kernel \<Rightarrow> bool" where
  "writes_at_most k \<longleftrightarrow> (\<forall>t fd bs. ret (k (t @ [WriteFile fd bs])) \<le> int (length bs))"

text \<open>The call it makes, and what holds of every run of it that ends.\<close>

abbreviation pid_write :: "int \<Rightarrow> mem \<Rightarrow> nat \<Rightarrow> int \<Rightarrow> call" where
  "pid_write fd m toPrint remaining \<equiv> WriteFile fd (load m toPrint (unat (of_int remaining :: u64)))"

lemma write_pid_least:
  assumes ends: "write_pid k fd path m printed toPrint remaining t = Some (ok, t')"
    and interrupted: "\<And>a r t ok t'. ret (k (t @ [pid_write fd m a r])) < 0 \<Longrightarrow>
      P a r (t @ [pid_write fd m a r]) ok t' \<Longrightarrow> P a r t ok t'"
    and failed: "\<And>a r t. ret (k (t @ [pid_write fd m a r])) < 0 \<Longrightarrow>
      P a r t False (t @ [pid_write fd m a r, Unlink path])"
    and short: "\<And>a r t ok t'. 0 \<le> ret (k (t @ [pid_write fd m a r])) \<Longrightarrow>
      ret (k (t @ [pid_write fd m a r])) < printed \<Longrightarrow>
      P (a + nat (ret (k (t @ [pid_write fd m a r])))) (r - ret (k (t @ [pid_write fd m a r])))
        (t @ [pid_write fd m a r]) ok t' \<Longrightarrow> P a r t ok t'"
    and whole: "\<And>a r t. 0 \<le> ret (k (t @ [pid_write fd m a r])) \<Longrightarrow>
      printed \<le> ret (k (t @ [pid_write fd m a r])) \<Longrightarrow> P a r t True (t @ [pid_write fd m a r])"
  shows "P toPrint remaining t ok t'"
proof -
  have "k' = k \<and> fd' = fd \<and> path' = path \<and> m' = m \<and> printed' = printed \<longrightarrow> P a r t (fst y) (snd y)"
    if "write_pid k' fd' path' m' printed' a r t = Some y" for k' fd' path' m' printed' a r t y
    using that
    by (rule write_pid.raw_induct [rotated])
      (auto simp: Let_def removeFile_def not_less split: if_splits
        intro: interrupted failed short whole)
  from this [OF ends] show ?thesis by simp
qed

lemma count_bound:
  assumes "writes_at_most k" "0 \<le> r" "r < 2 ^ 31"
  shows "ret (k (u @ [pid_write fd m a r])) \<le> r"
proof -
  have "unat (of_int r :: u64) = nat r"
    using assms(2,3) by (simp add: unat_eq_nat_uint uint_word_of_int_eq take_bit_int_eq_self)
  then show ?thesis
    using assms(1,2) unfolding writes_at_most_def by (metis length_load int_nat_eq)
qed

text \<open>After a short write the loop cannot succeed any more, because it compares with the whole length.\<close>

lemma short_write_fails:
  assumes "write_pid k fd path m printed toPrint remaining t = Some (ok, t')"
    and "writes_at_most k" "0 \<le> remaining" "remaining < printed" "printed < 2 ^ 31"
  shows "\<not> ok \<and> (\<exists>u bs. ret (k (u @ [WriteFile fd bs])) < 0)"
proof -
  have count: "ret (k (u @ [pid_write fd m a r])) \<le> r" if "0 \<le> r" "r < printed" for u a r
    by (rule count_bound [OF assms(2) that(1)]) (use that(2) assms(5) in simp)
  have "0 \<le> remaining \<longrightarrow> remaining < printed \<longrightarrow>
      \<not> ok \<and> (\<exists>u bs. ret (k (u @ [WriteFile fd bs])) < 0)"
  proof (rule write_pid_least [OF assms(1), where P = "\<lambda>a r t ok t'. 0 \<le> r \<longrightarrow> r < printed \<longrightarrow>
      \<not> ok \<and> (\<exists>u bs. ret (k (u @ [WriteFile fd bs])) < 0)"], goal_cases)
    case (3 a r t ok t')
    then show ?case using count [of r t a] by auto
  next
    case (4 a r t)
    then show ?case using count [of r t a] by auto
  qed auto
  with assms(3,4) show ?thesis by blast
qed

text \<open>The whole text in the buffer, as the first call is given it.\<close>

lemma load_string: "load (store g 0 (string_bytes s @ [0])) 0 (length s) = string_bytes s"
  by (rule nth_equalityI) (simp_all add: store_def nth_append)

lemma load_pid:
  assumes "length s < 2 ^ 31"
  shows "load (store g 0 (string_bytes s @ [0])) 0 (unat (of_int (int (length s)) :: u64)) = string_bytes s"
proof -
  have "unat (of_int (int (length s)) :: u64) = length s"
    using assms by (simp add: unat_of_nat take_bit_nat_eq_self)
  then show ?thesis by (simp only: load_string)
qed

lemma load_buffer: "length s \<le> 32 \<Longrightarrow> load (store g 0 (take 32 (string_bytes s))) 0 (length s) = string_bytes s"
  by (rule nth_equalityI) (simp_all add: store_def)

text \<open>So it succeeds only by one call that writes everything, after interrupted ones.\<close>

lemma write_pid_succeeds:
  assumes "write_pid k fd path (store g 0 (string_bytes s @ [0])) (int (length s)) 0 (int (length s)) t = Some (True, t')"
    and "writes_at_most k" "length s < 2 ^ 31"
  shows "\<exists>n. t' = t @ replicate (Suc n) (WriteFile fd (string_bytes s)) \<and> ret (k t') = int (length s)"
proof -
  let ?m = "store g 0 (string_bytes s @ [0])" and ?w = "WriteFile fd (string_bytes s)"
  have w: "pid_write fd ?m 0 (int (length s)) = ?w" by (simp only: load_pid [OF assms(3)])
  have le: "ret (k (u @ [?w])) \<le> int (length s)" for u
    using assms(2) by (metis writes_at_most_def length_string_bytes)
  let ?P = "\<lambda>(a::nat) r t ok t'. (ok \<longrightarrow> \<not> (0 \<le> r \<and> r < int (length s))) \<and>
    (ok \<longrightarrow> a = 0 \<and> r = int (length s) \<longrightarrow>
      (\<exists>n. t' = t @ replicate (Suc n) ?w \<and> ret (k t') = int (length s)))"
  have more: "\<exists>n. t' = t @ replicate (Suc n) ?w \<and> ret (k t') = int (length s)"
    if "\<exists>n. t' = (t @ [?w]) @ replicate (Suc n) ?w \<and> ret (k t') = int (length s)" for t t'
    using that by (metis append.assoc append_Cons append_Nil replicate_Suc)
  have count: "ret (k (u @ [pid_write fd ?m a r])) \<le> r" if "0 \<le> r" "r < int (length s)" for u a r
    by (rule count_bound [OF assms(2) that(1)]) (use that(2) assms(3) in simp)
  have "?P 0 (int (length s)) t True t'"
  proof (rule write_pid_least [OF assms(1), where P = ?P], goal_cases)
    case (1 a r t ok t')
    then show ?case using w more by auto
  next
    case (3 a r t ok t')
    show ?case
    proof (intro conjI impI notI)
      assume "ok" "0 \<le> r \<and> r < int (length s)"
      then show False using 3 count [of r t a] by auto
    next
      assume "ok" "a = 0 \<and> r = int (length s)"
      moreover from this have "ret (k (t @ [?w])) = 0" using 3 le [of t] w by auto
      ultimately show "\<exists>n. t' = t @ replicate (Suc n) ?w \<and> ret (k t') = int (length s)"
        using 3(3) w more by auto
    qed
  next
    case (4 a r t)
    have "\<exists>n. t @ [?w] = t @ replicate (Suc n) ?w \<and> ret (k (t @ [?w])) = int (length s)"
      if "a = 0 \<and> r = int (length s)"
      using that 4 w le [of t] by (intro exI [of _ 0]) simp
    then show ?case using 4 w count [of r t a] by auto
  qed auto
  then show ?thesis by simp
qed

text \<open>\<open>getpid\<close> returns a positive \<open>pid_t\<close>.\<close>

definition sound_pids :: "kernel \<Rightarrow> bool" where
  "sound_pids k \<longleftrightarrow> (\<forall>t. 0 < ret (k (t @ [GetPid])) \<and> ret (k (t @ [GetPid])) < 2 ^ 31)"

lemma length_pid:
  assumes "0 < pid" "pid < 2 ^ 31"
  shows "length (decimal_int pid) \<le> 10" "decimal_int pid \<noteq> ''''" "list_all isdigit (decimal_int pid)"
  using assms length_decimal_le [of "nat pid" 9] by (simp_all add: decimal_int_def decimal_digits)

text \<open>The first round of the loop.\<close>

lemma write_pid_whole:
  assumes "length s < 2 ^ 31" "ret (k (t @ [WriteFile fd (string_bytes s)])) = int (length s)"
  shows "write_pid k fd path (store g 0 (string_bytes s @ [0])) (int (length s)) 0 (int (length s)) t =
    Some (True, t @ [WriteFile fd (string_bytes s)])"
  using assms(2) by (subst write_pid.simps) (simp only: Let_def run_sys load_pid [OF assms(1)] prod.case, simp)

lemma write_pid_short:
  assumes "length s < 2 ^ 31" "0 \<le> ret (k (t @ [WriteFile fd (string_bytes s)]))"
    and "ret (k (t @ [WriteFile fd (string_bytes s)])) < int (length s)"
  shows "write_pid k fd path (store g 0 (string_bytes s @ [0])) (int (length s)) 0 (int (length s)) t =
    write_pid k fd path (store g 0 (string_bytes s @ [0])) (int (length s))
      (nat (ret (k (t @ [WriteFile fd (string_bytes s)]))))
      (int (length s) - ret (k (t @ [WriteFile fd (string_bytes s)]))) (t @ [WriteFile fd (string_bytes s)])"
  using assms(2,3) by (subst write_pid.simps) (simp only: Let_def run_sys load_pid [OF assms(1)] prod.case, simp)

section \<open>Properties of createns\<close>

text \<open>
  C25. When the system's writes make progress and never fail, \<open>writeNamespacePid\<close> hangs exactly when
  the first of them does not take the whole process id: the loop then compares every further count with
  the whole length and never with what remains.
\<close>

theorem short_write_hangs:
  assumes "\<And>u fd bs. 0 \<le> ret (k (u @ [WriteFile fd bs])) \<and> ret (k (u @ [WriteFile fd bs])) \<le> int (length bs) \<and>
      (bs \<noteq> [] \<longrightarrow> 0 < ret (k (u @ [WriteFile fd bs])))"
    and "0 < pid" "pid < 2 ^ 31"
    and "opened = t @ [OpenFile (getNamespacePath name @ ''.pid'') O_WRONLY_CREAT_TRUNC_CLOEXEC S_IRUSR_IWUSR_IRGRP]"
  shows "writeNamespacePid k g name pid t = None \<longleftrightarrow>
    getNamespacePath name \<noteq> '''' \<and> ret (k opened) \<noteq> -1 \<and>
    ret (k (opened @ [WriteFile (ret (k opened)) (string_bytes (decimal_int pid))])) < int (length (decimal_int pid))"
proof -
  let ?s = "decimal_int pid" and ?fd = "ret (k opened)"
  let ?w = "WriteFile ?fd (string_bytes ?s)"
  let ?loop = "write_pid k ?fd (getNamespacePath name @ ''.pid'') (store g 0 (string_bytes ?s @ [0])) (int (length ?s)) 0 (int (length ?s)) opened"
  have len: "length ?s < 2 ^ 31" and ne: "?s \<noteq> ''''" using length_pid [OF assms(2,3)] by simp_all
  have at_most: "writes_at_most k" using assms(1) by (simp add: writes_at_most_def)
  have first: "0 < ret (k (opened @ [?w]))" "ret (k (opened @ [?w])) \<le> int (length ?s)"
    using assms(1) [of opened ?fd "string_bytes ?s"] ne by (simp_all add: string_bytes_def)
  have "?loop = None \<longleftrightarrow> ret (k (opened @ [?w])) < int (length ?s)"
  proof (cases "ret (k (opened @ [?w])) < int (length ?s)")
    case True
    have "?loop \<noteq> Some (ok, t')" for ok t'
    proof
      assume "?loop = Some (ok, t')"
      then show False
        using write_pid_short [where k = k and t = opened and fd = ?fd, OF len less_imp_le [OF first(1)] True]
          short_write_fails [OF _ at_most, of ?fd] assms(1) first True len
        by (fastforce simp: not_less [symmetric])
    qed
    then show ?thesis using True by (metis option.exhaust prod.exhaust)
  next
    case False
    then show ?thesis using first write_pid_whole [OF len, of k opened ?fd] by simp
  qed
  then show ?thesis
    using ne by (auto simp: writeNamespacePid_def Let_def assms(4) bind_eq_None_conv)
qed

text \<open>
  What a process that waits in \<open>createns\<close> has done, call by call: \<open>n\<close> interrupted writes come
  before the one that took the whole process id.
\<close>

definition namespace_ready :: "kernel \<Rightarrow> string \<Rightarrow> trace \<Rightarrow> trace \<Rightarrow> bool" where
  "namespace_ready k name t t' \<longleftrightarrow> (\<exists>fd fd' n.
     let path = getNamespacePath name;
         unshared = t @ [Unshare CLONE_NEWNET];
         mounted = unshared @ [OpenFile path O_RDONLY_CREAT S_IRUSR_IRGRP, Close fd, Mount kProcNsNet path MS_BIND];
         pid = decimal_int (ret (k (mounted @ [GetPid])));
         written = mounted @ [GetPid, OpenFile (path @ ''.pid'') O_WRONLY_CREAT_TRUNC_CLOEXEC S_IRUSR_IWUSR_IRGRP] @
           replicate (Suc n) (WriteFile fd' (string_bytes pid))
     in ret (k unshared) = 0 \<and> ret (k mounted) = 0 \<and> ret (k written) = int (length pid) \<and>
        t' = written @ [Close fd', PropertySet ''vendor.qemu.networknamespace'' ''ready''])"

text \<open>
  C13. When \<open>createns\<close> comes to wait, it has created the namespace, has bound it to the file of its name
  and has written its own process id, whole, into the file beside it; only then it has set the property
  that says so.  Before the last write there are only interrupted ones.
\<close>

theorem createns_ready:
  assumes "createns_main k g [prog, name] t = Some (None, t')"
    and "writes_at_most k" "sound_pids k"
  shows "namespace_ready k name t t'"
proof -
  let ?path = "getNamespacePath name"
  let ?fd = "ret (k (t @ [Unshare CLONE_NEWNET, OpenFile ?path O_RDONLY_CREAT S_IRUSR_IRGRP]))"
  let ?mounted = "t @ [Unshare CLONE_NEWNET, OpenFile ?path O_RDONLY_CREAT S_IRUSR_IRGRP, Close ?fd, Mount kProcNsNet ?path MS_BIND]"
  let ?opened = "?mounted @ [GetPid, OpenFile (?path @ ''.pid'') O_WRONLY_CREAT_TRUNC_CLOEXEC S_IRUSR_IWUSR_IRGRP]"
  let ?pid = "ret (k (?mounted @ [GetPid]))" and ?fd' = "ret (k ?opened)"
  have pid: "length (decimal_int ?pid) < 2 ^ 31" "decimal_int ?pid \<noteq> ''''"
    using length_pid [of ?pid] assms(3) unfolding sound_pids_def by fastforce+
  have ok: "ret (k (t @ [Unshare CLONE_NEWNET])) = 0" "ret (k ?mounted) = 0"
    and "\<exists>t''. writeNamespacePid k g name ?pid (?mounted @ [GetPid]) = Some (True, t'') \<and>
      t' = t'' @ [PropertySet ''vendor.qemu.networknamespace'' ''ready'']"
    using assms(1) by (auto simp: createns_main_def Let_def bind_eq_Some_conv split: if_splits)
  then obtain t'' where w: "writeNamespacePid k g name ?pid (?mounted @ [GetPid]) = Some (True, t'')"
    and t': "t' = t'' @ [PropertySet ''vendor.qemu.networknamespace'' ''ready'']" by blast
  from w obtain u where
    "write_pid k ?fd' (?path @ ''.pid'') (store g 0 (string_bytes (decimal_int ?pid) @ [0]))
       (int (length (decimal_int ?pid))) 0 (int (length (decimal_int ?pid))) ?opened = Some (True, u)"
    and t'': "t'' = u @ [Close ?fd']"
    using pid(2) by (auto simp: writeNamespacePid_def Let_def bind_eq_Some_conv split: if_splits)
  from write_pid_succeeds [OF this(1) assms(2) pid(1)] obtain n
    where "u = ?opened @ replicate (Suc n) (WriteFile ?fd' (string_bytes (decimal_int ?pid)))"
      and "ret (k u) = int (length (decimal_int ?pid))" by blast
  with ok t' t'' show ?thesis
    unfolding namespace_ready_def
    by (intro exI [of _ ?fd] exI [of _ ?fd'] exI [of _ n]) (simp add: Let_def)
qed
section \<open>Properties of execns\<close>

abbreviation no_exec :: "call list \<Rightarrow> bool" where
  "no_exec cs \<equiv> \<forall>command. ExecVp command \<notin> set cs"

text \<open>The calls that enter a namespace through a process, and change group and user, when they succeed.\<close>

definition entering :: "string \<Rightarrow> int \<Rightarrow> string \<Rightarrow> int \<Rightarrow> call list" where
  "entering ns f pid fd =
     [FOpen (take (PATH_MAX - 1) (kNetNsDir_execns @ ''/'' @ ns @ ''.pid'')), FRead f 32, FEof f, FClose f,
      OpenFile (take (PATH_MAX - 1) (''/proc/'' @ pid @ ''/ns/net'')) O_RDONLY_CLOEXEC 0, SetNs fd]"

definition group_changed :: "kernel \<Rightarrow> string option \<Rightarrow> trace \<Rightarrow> trace" where
  "group_changed k grp t =
     (case grp of None \<Rightarrow> t | Some g \<Rightarrow> t @ [GetGrNam g, SetGid (ret (k (t @ [GetGrNam g])))])"

definition user_changed :: "kernel \<Rightarrow> string option \<Rightarrow> trace \<Rightarrow> trace" where
  "user_changed k user t =
     (case user of None \<Rightarrow> t | Some u \<Rightarrow> t @ [GetPwNam u, SetUid (ret (k (t @ [GetPwNam u])))])"

lemma reads_pid:
  assumes "run_state (readNamespacePid k g ns) t = (pid, t')"
  shows "\<exists>cs. t' = t @ cs \<and> no_exec cs \<and> (pid \<noteq> '''' \<longrightarrow> isNumericString pid \<and>
    (\<exists>f. cs = [FOpen (take (PATH_MAX - 1) (kNetNsDir_execns @ ''/'' @ ns @ ''.pid'')), FRead f 32, FEof f, FClose f]))"
  using assms unfolding readNamespacePid_def
  by (simp add: Let_def split: if_split_asm) auto

lemma enters_namespace:
  assumes "run_state (setNetworkNamespace_execns k g ns) t = (ok, t')"
  shows "\<exists>cs. t' = t @ cs \<and> no_exec cs \<and> (ok \<longrightarrow> (\<exists>f pid fd. cs = entering ns f pid fd @ [Close fd] \<and>
    pid \<noteq> '''' \<and> isNumericString pid \<and> ret (k (t @ entering ns f pid fd)) \<noteq> -1))"
proof -
  obtain pid u where r: "run_state (readNamespacePid k g ns) t = (pid, u)" by force
  from reads_pid [OF this] obtain cs where cs: "u = t @ cs" "no_exec cs"
    and f: "pid \<noteq> '''' \<longrightarrow> isNumericString pid \<and>
      (\<exists>f. cs = [FOpen (take (PATH_MAX - 1) (kNetNsDir_execns @ ''/'' @ ns @ ''.pid'')), FRead f 32, FEof f, FClose f])"
    by blast
  show ?thesis
    using assms r cs f unfolding setNetworkNamespace_execns_def entering_def
    by (simp add: Let_def split: if_split_asm) auto
qed

lemma changes_group:
  "run_state (case grp of None \<Rightarrow> State_Monad.return True | Some grp \<Rightarrow> changeGroup k grp) t = (ok, t') \<Longrightarrow>
   \<exists>cs. t' = t @ cs \<and> no_exec cs \<and> (ok \<longrightarrow> t' = group_changed k grp t \<and> (grp \<noteq> None \<longrightarrow> ret (k t') = 0))"
  by (auto simp: changeGroup_def group_changed_def Let_def split: if_splits option.splits)

lemma changes_user:
  "run_state (case user of None \<Rightarrow> State_Monad.return True | Some user \<Rightarrow> changeUser k user) t = (ok, t') \<Longrightarrow>
   \<exists>cs. t' = t @ cs \<and> no_exec cs \<and> (ok \<longrightarrow> t' = user_changed k user t \<and> (user \<noteq> None \<longrightarrow> ret (k t') = 0))"
  by (auto simp: changeUser_def user_changed_def Let_def split: if_splits option.splits)

text \<open>The message about a command that could not be executed stays in its buffer.\<close>

lemma length_snprintf: "0 < room \<Longrightarrow> length (snd (snprintf room s)) < room"
  by (auto simp: snprintf_def)

lemma length_sncatf: "length buffer < room \<Longrightarrow> length (snd (sncatf buffer room s)) < room"
  using length_snprintf [of "room - length buffer" s]
  by (auto simp: sncatf_def Let_def split: prod.splits)

lemma length_fold_sncatf:
  "length buffer < room \<Longrightarrow>
   length (fold (\<lambda>arg buffer. snd (sncatf buffer room (argument_text arg))) args buffer) < room"
  by (induction args arbitrary: buffer) (auto simp: length_sncatf)

lemma executes:
  assumes "run_state (execCommand k strerror argv) t = (status, t')"
  shows "if argv = [] then t' = t
    else \<exists>log. t' = t @ ExecVp argv # log \<and> (\<forall>c \<in> set log. \<exists>m. c = LogError m \<and> length m < 4096)"
proof (cases "argv = []")
  case False
  obtain printed buffer where p: "snprintf 4096 (''Could not execute command '' @ [CHR 0x27] @ hd argv) = (printed, buffer)"
    by force
  then have "length buffer < 4096" using length_snprintf [of 4096] by (metis snd_conv zero_less_numeral)
  then have "length (snd (sncatf (fold (\<lambda>arg buffer. snd (sncatf buffer 4096 (argument_text arg))) (tl argv) buffer) 4096 s)) < 4096" for s
    by (intro length_sncatf length_fold_sncatf)
  then show ?thesis
    using assms p False unfolding execCommand_def by (simp add: Let_def split: if_split_asm) auto
qed (use assms in \<open>simp add: execCommand_def\<close>)

text \<open>
  What \<open>execns\<close> has done when its process is the command: the namespace entered through the process
  whose number was read, the group and then the user changed, each successfully, and nothing executed
  before; \<open>log\<close> is the message about a failure.
\<close>

definition executed_last :: "kernel \<Rightarrow> string list \<Rightarrow> string list \<Rightarrow> trace \<Rightarrow> trace \<Rightarrow> bool" where
  "executed_last k argv command t t' \<longleftrightarrow> (\<exists>user grp ns f pid fd log.
     let entered = (t @ [IsATty 1]) @ entering ns f pid fd;
         grouped = group_changed k grp (entered @ [Close fd]);
         usered = user_changed k user grouped
     in execns_args (tl argv) None None = Some (user, grp, ns, command) \<and>
        pid \<noteq> '''' \<and> isNumericString pid \<and> ret (k entered) \<noteq> -1 \<and>
        (grp \<noteq> None \<longrightarrow> ret (k grouped) = 0) \<and> (user \<noteq> None \<longrightarrow> ret (k usered) = 0) \<and>
        t' = usered @ ExecVp command # log \<and> (\<forall>c \<in> set log. \<exists>m. c = LogError m \<and> length m < 4096))"

text \<open>
  C12. Whatever the system answers, \<open>execns\<close> executes nothing but the command of its command line, once,
  and only after it has entered the namespace of the process whose number it read, has changed to the
  group and then to the user it was told, each successfully; the message about a failure does not
  overrun its buffer.
\<close>

theorem execns_executes_last:
  assumes "run_state (execns_main k g strerror argv) t = (status, t @ cs)" and "ExecVp command \<in> set cs"
  shows "executed_last k argv command t (t @ cs)"
proof (cases "execns_args (tl argv) None None")
  case None
  then show ?thesis using assms by (auto simp: execns_main_def)
next
  case (Some args)
  then obtain user grp ns words where args: "execns_args (tl argv) None None = Some (user, grp, ns, words)"
    by (metis prod_cases4)
  obtain ok t1 where 1: "run_state (setNetworkNamespace_execns k g ns) (t @ [IsATty 1]) = (ok, t1)" by force
  obtain ok2 t2 where 2: "run_state (case grp of None \<Rightarrow> State_Monad.return True | Some grp \<Rightarrow> changeGroup k grp) t1 = (ok2, t2)" by force
  obtain ok3 t3 where 3: "run_state (case user of None \<Rightarrow> State_Monad.return True | Some user \<Rightarrow> changeUser k user) t2 = (ok3, t3)" by force
  obtain st t4 where 4: "run_state (execCommand k strerror words) t3 = (st, t4)" by force
  note facts = enters_namespace [OF 1] changes_group [OF 2] changes_user [OF 3] executes [OF 4]
  have t': "t @ cs = (if \<not> ok then t1 else if \<not> ok2 then t2 else if \<not> ok3 then t3 else t4)"
    using assms(1) args 1 2 3 4 by (auto simp: execns_main_def split: if_splits)
  from facts obtain c1 c2 c3 where c: "t1 = (t @ [IsATty 1]) @ c1" "no_exec c1" "t2 = t1 @ c2" "no_exec c2"
    "t3 = t2 @ c3" "no_exec c3" by blast
  with t' assms(2) have ok: "ok \<and> ok2 \<and> ok3" "words \<noteq> []"
    using facts(4) by (auto split: if_splits)
  with facts(4) obtain log where log: "t4 = t3 @ ExecVp words # log"
    "\<forall>c \<in> set log. \<exists>m. c = LogError m \<and> length m < 4096" by auto
  with t' ok c assms(2) have "words = command" by (auto split: if_splits)
  moreover from facts(1) ok c(1) obtain f pid fd where "t1 = (t @ [IsATty 1]) @ entering ns f pid fd @ [Close fd]"
    "pid \<noteq> ''''" "isNumericString pid" "ret (k ((t @ [IsATty 1]) @ entering ns f pid fd)) \<noteq> -1" by blast
  moreover have "t2 = group_changed k grp t1" "grp \<noteq> None \<longrightarrow> ret (k t2) = 0" using facts(2) ok by blast+
  moreover have "t3 = user_changed k user t2" "user \<noteq> None \<longrightarrow> ret (k t3) = 0" using facts(3) ok by blast+
  ultimately show ?thesis
    using ok log t' args unfolding executed_last_def
    by (intro exI [of _ user] exI [of _ grp] exI [of _ ns] exI [of _ f] exI [of _ pid] exI [of _ fd] exI [of _ log])
      (simp add: Let_def)
qed

section \<open>The programs together\<close>

text \<open>
  C26. What \<open>createns\<close> leaves behind is what the other programs look for: \<open>execns\<close> reads the file of
  the process id that \<open>createns\<close> writes, takes back the number from its text and opens the namespace of
  that process, and the IPv6 proxy opens the file to which \<open>createns\<close> has bound the namespace.
\<close>

theorem namespace_handover:
  assumes "0 < pid" "pid < 2 ^ 31" "name \<noteq> ''''" "length name < 4000"
    and "opened = t @ [FOpen (getNamespacePath name @ ''.pid'')]" "ret (k opened) = f" "f \<noteq> 0"
    and "data (k (opened @ [FRead f 32])) = string_bytes (decimal_int pid)"
    and "ret (k (opened @ [FRead f 32])) = int (length (decimal_int pid))"
    and "ret (k (opened @ [FRead f 32, FEof f])) \<noteq> 0"
  shows "(\<exists>cs. snd (run_state (setNetworkNamespace_execns k g name) t) =
      opened @ [FRead f 32, FEof f, FClose f, OpenFile (''/proc/'' @ decimal_int pid @ ''/ns/net'') O_RDONLY_CLOEXEC 0] @ cs) \<and>
    (\<exists>cs. snd (run_state (setNetworkNamespace k name) t) = t @ OpenFile (getNamespacePath name) O_RDONLY_CLOEXEC 0 # cs)"
proof -
  note pid = length_pid [OF assms(1,2)]
  have path: "getNamespacePath name = kNamespacePath @ name" using assms(3,4) by (simp add: getNamespacePath_eq)
  have paths: "take (PATH_MAX - 1) (kNetNsDir_execns @ ''/'' @ name @ ''.pid'') = getNamespacePath name @ ''.pid''"
    "take (PATH_MAX - 1) (kNetNsDir @ ''/'' @ name) = getNamespacePath name"
    "take (PATH_MAX - 1) (''/proc/'' @ decimal_int pid @ ''/ns/net'') = ''/proc/'' @ decimal_int pid @ ''/ns/net''"
    using assms(4) pid(1)
    by (simp_all add: path kNetNsDir_execns_def kNetNsDir_def kNamespacePath_def PATH_MAX_def)
  have "c_string (load (store g 0 (take 32 (string_bytes (decimal_int pid)))) 0 (length (decimal_int pid))) = decimal_int pid"
    using pid by (simp only: load_buffer c_string_digits)
  then have "run_state (readNamespacePid k g name) t = (decimal_int pid, opened @ [FRead f 32, FEof f, FClose f])"
    using assms(5-10) pid unfolding readNamespacePid_def paths
    by (simp add: Let_def isNumericString_iff)
  then show ?thesis
    using pid(2) unfolding setNetworkNamespace_execns_def setNetworkNamespace_def setNamespaceFromPath_def
    by (simp add: paths [simplified] Let_def)
qed
section \<open>Witnesses\<close>

text \<open>
  A system on which everything succeeds: the process id is 42, every name has the id 1000, and every
  write takes all its bytes, or, when it is slow, the first of them.
\<close>

definition demo_system :: "bool \<Rightarrow> kernel" where
  "demo_system slow t = (case last t of
     WriteFile _ bs \<Rightarrow> idle_answer\<lparr>ret := int (if slow then min 1 (length bs) else length bs)\<rparr>
   | GetPid \<Rightarrow> idle_answer\<lparr>ret := 42\<rparr>
   | OpenFile _ _ _ \<Rightarrow> idle_answer\<lparr>ret := 3\<rparr>
   | FOpen _ \<Rightarrow> idle_answer\<lparr>ret := 5\<rparr>
   | FRead _ _ \<Rightarrow> idle_answer\<lparr>ret := 2, data := string_bytes ''42''\<rparr>
   | FEof _ \<Rightarrow> idle_answer\<lparr>ret := 1\<rparr>
   | GetPwNam _ \<Rightarrow> idle_answer\<lparr>ret := 1000\<rparr>
   | GetGrNam _ \<Rightarrow> idle_answer\<lparr>ret := 1000\<rparr>
   | _ \<Rightarrow> idle_answer)"

lemma decimal_42: "decimal_int 42 = ''42''"
  by (simp add: decimal_int_def decimal.simps) code_simp

lemma demo_path: "getNamespacePath ''router'' = kNamespacePath @ ''router''"
  by (simp add: getNamespacePath_eq)

lemma demo_system_writes: "writes_at_most (demo_system slow)" and demo_system_pids: "sound_pids (demo_system slow)"
  by (simp_all add: writes_at_most_def sound_pids_def demo_system_def)

theorem short_write_hangs_witness:
  "writeNamespacePid (demo_system True) (\<lambda>_. 0) ''router'' 42 [] = None"
proof -
  have "0 \<le> ret (demo_system True (u @ [WriteFile fd bs])) \<and>
    ret (demo_system True (u @ [WriteFile fd bs])) \<le> int (length bs) \<and>
    (bs \<noteq> [] \<longrightarrow> 0 < ret (demo_system True (u @ [WriteFile fd bs])))" for u fd bs
    by (cases bs) (simp_all add: demo_system_def)
  from short_write_hangs [where k = "demo_system True" and pid = 42 and name = "''router''" and t = "[]"
      and g = "\<lambda>_. 0", OF this _ _ refl]
  show ?thesis by (simp add: demo_system_def demo_path decimal_42 kNamespacePath_def)
qed

lemma demo_createns:
  "\<exists>t'. createns_main (demo_system False) (\<lambda>_. 0) [''createns'', ''router''] [] = Some (None, t')"
  using write_pid_whole [of "''42''" "demo_system False" _ 3 _ "\<lambda>_. 0"]
  by (simp add: createns_main_def writeNamespacePid_def demo_path kNamespacePath_def demo_system_def decimal_42 Let_def
      idle_answer_def)

theorem createns_ready_witness: "\<exists>t'. namespace_ready (demo_system False) ''router'' [] t'"
  using demo_createns createns_ready [OF _ demo_system_writes demo_system_pids] by blast

theorem execns_executes_last_witness:
  "executed_last (demo_system False) [''execns'', ''-u'', ''shell'', ''router'', ''ls'', ''-l''] [''ls'', ''-l''] []
    (snd (run_state (execns_main (demo_system False) (\<lambda>_. 0) (\<lambda>_. '''')
      [''execns'', ''-u'', ''shell'', ''router'', ''ls'', ''-l'']) []))"
proof -
  let ?run = "run_state (execns_main (demo_system False) (\<lambda>_. 0) (\<lambda>_. '''')
      [''execns'', ''-u'', ''shell'', ''router'', ''ls'', ''-l'']) []"
  have "c_string (load (store (\<lambda>_. 0) 0 (string_bytes ''42'')) 0 2) = ''42''"
    using load_buffer [of "''42''" "\<lambda>_. 0"] c_string_digits [of "''42''"]
    by (simp add: isdigit_def numeral_2_eq_2)
  then have "ExecVp [''ls'', ''-l''] \<in> set (snd ?run)"
    by (simp add: execns_main_def setNetworkNamespace_execns_def readNamespacePid_def changeUser_def execCommand_def
        demo_system_def Let_def idle_answer_def isdigit_def)
  moreover have "?run = (fst ?run, [] @ snd ?run)" by (simp only: append_Nil prod.collapse)
  ultimately show ?thesis
    using execns_executes_last [of _ _ _ _ "[]" "fst ?run" "snd ?run"] by (metis append_Nil)
qed

theorem namespace_handover_witness:
  "\<exists>cs. snd (run_state (setNetworkNamespace (demo_system False) ''router'') []) =
    OpenFile (getNamespacePath ''router'') O_RDONLY_CLOEXEC 0 # cs"
  using namespace_handover [where k = "demo_system False" and pid = 42 and name = "''router''" and t = "[]" and f = 5
      and g = "\<lambda>_. 0", OF _ _ _ _ refl]
  by (simp add: demo_system_def decimal_42)
end
