(* ===== verification/Radios.thy ===== *)
theory Radios
  imports Text "HOL-Library.State_Monad"
begin

text \<open>
  \<open>mac80211_create_radios\<close> (\<open>wifi/mac80211_create_radios/main.cpp\<close>), which asks the driver of
  simulated radios for new ones over generic netlink.  The netlink library is no part of the
  repository: it is the parameter \<open>libnl\<close>, any function from the calls made so far, the last one
  included, to the value returned; pointers are integers, 0 the null pointer.
\<close>

section \<open>Messages\<close>

definition ETH_ALEN_radio :: nat where "ETH_ALEN_radio = 6"
definition HWSIM_CMD_NEW_RADIO :: int where "HWSIM_CMD_NEW_RADIO = 4"
definition HWSIM_ATTR_CHANNELS :: int where "HWSIM_ATTR_CHANNELS = 9"
definition HWSIM_ATTR_SUPPORT_P2P_DEVICE :: int where "HWSIM_ATTR_SUPPORT_P2P_DEVICE = 14"
definition HWSIM_ATTR_PERM_ADDR :: int where "HWSIM_ATTR_PERM_ADDR = 22"
definition kHwSimFamilyName :: string where "kHwSimFamilyName = ''MAC80211_HWSIM''"
definition kHwSimVersion :: int where "kHwSimVersion = 1"
definition kChannels :: int where "kChannels = 2"

datatype nl_call =
    NlSocketAlloc
  | NlSocketFree int
  | GenlConnect int
  | GenlCtrlResolve int string
  | NlmsgAlloc
  | NlmsgFree int
  | GenlmsgPut int int int int     \<comment> \<open>message, family, command, version; the flags are always \<open>NLM_F_REQUEST\<close>\<close>
  | NlaPut int int bytes
  | NlaPutFlag int int
  | NlaPutU32 int int int
  | NlSendAuto int int             \<comment> \<open>socket, message\<close>

type_synonym nl_trace = "nl_call list"
type_synonym libnl = "nl_trace \<Rightarrow> int"

definition nl :: "libnl \<Rightarrow> nl_call \<Rightarrow> (nl_trace, int) state" where
  "nl libnl c = State (\<lambda>t. (libnl (t @ [c]), t @ [c]))"

lemma run_nl [simp]: "run_state (nl libnl c) t = (libnl (t @ [c]), t @ [c])"
  by (simp add: nl_def)

text \<open>Leaving the scope of the \<open>unique_ptr\<close> of a message, and the null pointer for an error.\<close>

definition drop_message :: "libnl \<Rightarrow> int \<Rightarrow> (nl_trace, int) state" where
  "drop_message libnl msg = do { _ \<leftarrow> nl libnl (NlmsgFree msg); State_Monad.return 0 }"

definition createNlMessage :: "libnl \<Rightarrow> int \<Rightarrow> int \<Rightarrow> (nl_trace, int) state" where
  "createNlMessage libnl family cmd = do {
     msg \<leftarrow> nl libnl NlmsgAlloc;
     if msg = 0 then State_Monad.return 0
     else do {
       user \<leftarrow> nl libnl (GenlmsgPut msg family cmd kHwSimVersion);
       if user = 0 then drop_message libnl msg else State_Monad.return msg
     }
   }"

definition buildCreateRadioMessage :: "libnl \<Rightarrow> int \<Rightarrow> bytes \<Rightarrow> (nl_trace, int) state" where
  "buildCreateRadioMessage libnl family mac = do {
     msg \<leftarrow> createNlMessage libnl family HWSIM_CMD_NEW_RADIO;
     if msg = 0 then State_Monad.return 0
     else do {
       r \<leftarrow> nl libnl (NlaPut msg HWSIM_ATTR_PERM_ADDR (take ETH_ALEN_radio mac));
       if r \<noteq> 0 then drop_message libnl msg
       else do {
         r \<leftarrow> nl libnl (NlaPutFlag msg HWSIM_ATTR_SUPPORT_P2P_DEVICE);
         if r \<noteq> 0 then drop_message libnl msg
         else do {
           r \<leftarrow> nl libnl (NlaPutU32 msg HWSIM_ATTR_CHANNELS kChannels);
           if r \<noteq> 0 then drop_message libnl msg else State_Monad.return msg
         }
       }
     }
   }"

section \<open>The radios\<close>

text \<open>\<open>mac\<close> before the loop, and the loop over the \<open>n\<close> radios left, from \<open>idx\<close> on.\<close>

definition mac_prefix :: "int \<Rightarrow> bytes" where
  "mac_prefix macPrefix = [0x02, of_int (drop_bit 8 macPrefix AND 0xFF), of_int (macPrefix AND 0xFF), 0, 0, 0]"

fun create_radios :: "libnl \<Rightarrow> int \<Rightarrow> int \<Rightarrow> nat \<Rightarrow> nat \<Rightarrow> bytes \<Rightarrow> (nl_trace, int) state" where
  "create_radios libnl sk family 0 idx mac = State_Monad.return 0"
| "create_radios libnl sk family (Suc n) idx mac = do {
     let mac = mac[4 := of_nat idx];
     msg \<leftarrow> buildCreateRadioMessage libnl family mac;
     if msg \<noteq> 0 then do {
       r \<leftarrow> nl libnl (NlSendAuto sk msg);
       _ \<leftarrow> nl libnl (NlmsgFree msg);
       if r < 0 then State_Monad.return 1 else create_radios libnl sk family n (idx + 1) mac
     }
     else State_Monad.return 1
   }"

definition createRadios :: "libnl \<Rightarrow> int \<Rightarrow> int \<Rightarrow> int \<Rightarrow> int \<Rightarrow> (nl_trace, int) state" where
  "createRadios libnl sk netlinkFamily nRadios macPrefix =
     create_radios libnl sk netlinkFamily (nat nRadios) 0 (mac_prefix macPrefix)"

definition manageRadios :: "libnl \<Rightarrow> int \<Rightarrow> int \<Rightarrow> (nl_trace, int) state" where
  "manageRadios libnl nRadios macPrefix = do {
     sk \<leftarrow> nl libnl NlSocketAlloc;
     if sk = 0 then State_Monad.return 1
     else do {
       r \<leftarrow> nl libnl (GenlConnect sk);
       status \<leftarrow> (if r \<noteq> 0 then State_Monad.return 1
         else do {
           netlinkFamily \<leftarrow> nl libnl (GenlCtrlResolve sk kHwSimFamilyName);
           if netlinkFamily < 0 then State_Monad.return 1
           else createRadios libnl sk netlinkFamily nRadios macPrefix
         });
       _ \<leftarrow> nl libnl (NlSocketFree sk);
       State_Monad.return status
     }
   }"

section \<open>The command line\<close>

text \<open>
  \<open>sscanf\<close> with \<open>%d\<close>: what it returns (-1 is \<open>EOF\<close>) and what is in the integer then, which held
  \<open>old\<close> before.  A number that is no \<open>int\<close> is undefined behaviour, \<open>ub\<close> of the text.
\<close>

definition parseInt :: "(string \<Rightarrow> int) \<Rightarrow> string \<Rightarrow> int \<Rightarrow> int \<times> int" where
  "parseInt ub str old =
     (let str = dropWhile isspace str
      in if str = '''' then (-1, old)
         else let negative = (hd str = CHR ''-'');
                  digits = takeWhile isdigit (if negative \<or> hd str = CHR ''+'' then tl str else str);
                  v = (if negative then - int (digits_value 10 digits) else int (digits_value 10 digits))
           in if digits = '''' then (0, old)
              else (1, if - (2 ^ 31) \<le> v \<and> v < 2 ^ 31 then v else ub str))"

text \<open>\<open>main\<close>; \<open>g1\<close> and \<open>g2\<close> are the values of its uninitialised integers.\<close>

definition radios_main ::
  "libnl \<Rightarrow> (string \<Rightarrow> int) \<Rightarrow> int \<Rightarrow> int \<Rightarrow> string list \<Rightarrow> (nl_trace, int) state" where
  "radios_main libnl ub g1 g2 argv =
     (if length argv \<noteq> 3 then State_Monad.return 0
      else let (r, nRadios) = parseInt ub (argv ! 1) g1
        in if r = 0 then State_Monad.return 1
           else if nRadios < 1 then State_Monad.return 1
           else if nRadios > 100 then State_Monad.return 1
           else let (r, macPrefix) = parseInt ub (argv ! 2) g2
             in if r = 0 then State_Monad.return 1
                else if macPrefix < 0 then State_Monad.return 1
                else if macPrefix > 65535 then State_Monad.return 1
                else manageRadios libnl nRadios macPrefix)"

section \<open>What it asks the driver for\<close>

text \<open>The calls that create one radio through the message \<open>msg\<close>.\<close>

definition radio_calls :: "int \<Rightarrow> int \<Rightarrow> bytes \<Rightarrow> int \<Rightarrow> nl_trace" where
  "radio_calls sk family mac msg =
     [NlmsgAlloc, GenlmsgPut msg family HWSIM_CMD_NEW_RADIO kHwSimVersion, NlaPut msg HWSIM_ATTR_PERM_ADDR mac,
      NlaPutFlag msg HWSIM_ATTR_SUPPORT_P2P_DEVICE, NlaPutU32 msg HWSIM_ATTR_CHANNELS kChannels,
      NlSendAuto sk msg, NlmsgFree msg]"

definition radio_mac :: "int \<Rightarrow> nat \<Rightarrow> bytes" where
  "radio_mac macPrefix idx = [0x02, of_int (macPrefix div 256), of_int (macPrefix mod 256), 0, of_nat idx, 0]"

text \<open>The messages the library has given out and those that were given back, in order.\<close>

fun allocated :: "libnl \<Rightarrow> nl_trace \<Rightarrow> nl_trace \<Rightarrow> int list" where
  "allocated libnl t [] = []"
| "allocated libnl t (c # cs) =
     (if c = NlmsgAlloc \<and> libnl (t @ [c]) \<noteq> 0 then [libnl (t @ [c])] else []) @ allocated libnl (t @ [c]) cs"

fun freed :: "nl_trace \<Rightarrow> int list" where
  "freed [] = []"
| "freed (c # cs) = (case c of NlmsgFree m \<Rightarrow> m # freed cs | _ \<Rightarrow> freed cs)"


lemma allocated_append [simp]:
  "allocated libnl t (cs @ ds) = allocated libnl t cs @ allocated libnl (t @ cs) ds"
  by (induction cs arbitrary: t) simp_all

lemma freed_append [simp]: "freed (cs @ ds) = freed cs @ freed ds"
  by (induction cs) (auto split: nl_call.split)

text \<open>One message, and the loop.\<close>

lemma builds_message:
  assumes "run_state (buildCreateRadioMessage libnl family mac) t = (msg, t')" and "length mac = ETH_ALEN_radio"
  shows "\<exists>cs. t' = t @ cs \<and>
    (if msg = 0 then allocated libnl t cs = freed cs
     else cs = take 5 (radio_calls sk family mac msg) \<and> allocated libnl t cs = [msg])"
  using assms
  by (auto simp: buildCreateRadioMessage_def createNlMessage_def drop_message_def radio_calls_def split: if_splits)

lemma creates_radios:
  assumes "run_state (create_radios libnl sk family n idx mac) t = (status, t')" and "length mac = ETH_ALEN_radio"
    and "\<And>i. mac[4 := of_nat i] = radio_mac p i"
  shows "\<exists>cs. t' = t @ cs \<and> allocated libnl t cs = freed cs \<and> (status = 0 \<or> status = 1) \<and>
    (status = 0 \<longrightarrow> (\<exists>ms. length ms = n \<and>
      cs = concat (map2 (\<lambda>i. radio_calls sk family (radio_mac p i)) [idx..<idx + n] ms)))"
  using assms
proof (induction n arbitrary: idx mac t)
  case (Suc n)
  let ?mac = "radio_mac p idx"
  obtain msg u where b: "run_state (buildCreateRadioMessage libnl family ?mac) t = (msg, u)" by force
  have len: "length ?mac = ETH_ALEN_radio" by (simp add: radio_mac_def ETH_ALEN_radio_def)
  from builds_message [OF b len, of sk] obtain c1 where c1: "u = t @ c1"
    "if msg = 0 then allocated libnl t c1 = freed c1
     else c1 = take 5 (radio_calls sk family ?mac msg) \<and> allocated libnl t c1 = [msg]" by blast
  let ?v = "u @ [NlSendAuto sk msg, NlmsgFree msg]"
  show ?case
  proof (cases "msg = 0 \<or> libnl (u @ [NlSendAuto sk msg]) < 0")
    case True
    then show ?thesis using Suc.prems b c1 by (auto simp: Let_def radio_calls_def split: if_splits)
  next
    case False
    then have run: "run_state (create_radios libnl sk family n (idx + 1) ?mac) ?v = (status, t')"
      using Suc.prems b by (simp add: Let_def)
    have "?mac[4 := of_nat i] = radio_mac p i" for i by (simp add: radio_mac_def)
    from Suc.IH [OF run len this] obtain cs where cs: "t' = ?v @ cs" "allocated libnl ?v cs = freed cs"
      "status = 0 \<or> status = 1"
      and ms: "status = 0 \<longrightarrow> (\<exists>ms. length ms = n \<and>
        cs = concat (map2 (\<lambda>i. radio_calls sk family (radio_mac p i)) [idx + 1..<idx + 1 + n] ms))" by blast
    have this_radio: "c1 @ [NlSendAuto sk msg, NlmsgFree msg] = radio_calls sk family ?mac msg"
      using False c1 by (simp add: radio_calls_def)
    have "\<exists>ms. length ms = Suc n \<and> radio_calls sk family ?mac msg @ cs =
        concat (map2 (\<lambda>i. radio_calls sk family (radio_mac p i)) [idx..<idx + Suc n] ms)" if "status = 0"
    proof -
      from ms that obtain ms where "length ms = n"
        "cs = concat (map2 (\<lambda>i. radio_calls sk family (radio_mac p i)) [idx + 1..<idx + 1 + n] ms)" by blast
      then show ?thesis by (intro exI [of _ "msg # ms"]) (simp add: upt_conv_Cons del: upt_Suc)
    qed
    moreover have "allocated libnl t (radio_calls sk family ?mac msg @ cs) = freed (radio_calls sk family ?mac msg @ cs)"
    proof -
      from False c1(2) have "allocated libnl t c1 = [msg]" and "freed c1 = []" by (auto simp: radio_calls_def)
      then show ?thesis unfolding this_radio [symmetric] using cs(2) c1(1) by simp
    qed
    ultimately show ?thesis
      using cs c1 this_radio by (intro exI [of _ "radio_calls sk family ?mac msg @ cs"]) auto
  qed
qed simp


lemma radio_mac_prefix:
  assumes "0 \<le> p" "p \<le> 65535"
  shows "(mac_prefix p)[4 := of_nat i] = radio_mac p i"
proof -
  have "(0xFF :: int) = mask 8" by (simp add: mask_eq_exp_minus_1)
  then have low: "q AND 0xFF = q mod 256" for q :: int
    by (simp only: flip: take_bit_eq_mask) (simp add: take_bit_eq_mod)
  have "drop_bit 8 p AND 0xFF = p div 256" "p AND 0xFF = p mod 256"
    unfolding low using assms by (simp_all add: drop_bit_eq_div)
  then show ?thesis by (simp add: mac_prefix_def radio_mac_def)
qed

lemma radio_macs_distinct:
  assumes "n \<le> 256"
  shows "distinct (map (radio_mac p) [0..<n])"
proof -
  have "i = j" if "(of_nat i :: u8) = of_nat j" "i < 256" "j < 256" for i j
  proof -
    from that(1) have "unat (of_nat i :: u8) = unat (of_nat j :: u8)" by simp
    with that(2,3) show ?thesis by (simp add: unat_of_nat take_bit_nat_eq_self)
  qed
  then show ?thesis using assms by (auto simp: distinct_map inj_on_def radio_mac_def)
qed

text \<open>
  C27. Whatever the netlink library answers, the program gives back every message it was given, on every
  path; and when its status is 0, with two arguments, it was given a number of radios and a prefix in
  their ranges and has asked the driver for exactly that many radios, each with two channels and with
  the address 02:pp:pp:00:nn:00 of its index, and no two of these addresses are the same.
\<close>

theorem radios_created:
  assumes "run_state (radios_main libnl ub g1 g2 [prog, a, b]) t = (status, t')"
    and "nRadios = snd (parseInt ub a g1)" "macPrefix = snd (parseInt ub b g2)"
  shows "\<exists>cs. t' = t @ cs \<and> allocated libnl t cs = freed cs \<and> (status = 0 \<or> status = 1) \<and>
    (status = 0 \<longrightarrow> 1 \<le> nRadios \<and> nRadios \<le> 100 \<and> 0 \<le> macPrefix \<and> macPrefix \<le> 65535 \<and>
       (\<exists>sk family ms. length ms = nat nRadios \<and>
          cs = [NlSocketAlloc, GenlConnect sk, GenlCtrlResolve sk kHwSimFamilyName] @
            concat (map2 (\<lambda>i. radio_calls sk family (radio_mac macPrefix i)) [0..<nat nRadios] ms) @ [NlSocketFree sk]) \<and>
       distinct (map (radio_mac macPrefix) [0..<nat nRadios]))"
proof (cases "fst (parseInt ub a g1) \<noteq> 0 \<and> 1 \<le> nRadios \<and> nRadios \<le> 100 \<and>
    fst (parseInt ub b g2) \<noteq> 0 \<and> 0 \<le> macPrefix \<and> macPrefix \<le> 65535")
  case False
  then show ?thesis using assms by (auto simp: radios_main_def split: prod.splits if_splits)
next
  case True
  let ?sk = "libnl (t @ [NlSocketAlloc])"
  let ?t = "t @ [NlSocketAlloc, GenlConnect ?sk, GenlCtrlResolve ?sk kHwSimFamilyName]"
  have run: "run_state (manageRadios libnl nRadios macPrefix) t = (status, t')"
    using True assms by (auto simp: radios_main_def split: prod.splits)
  obtain st u where loop: "run_state (createRadios libnl ?sk (libnl ?t) nRadios macPrefix) ?t = (st, u)" by force
  have "length (mac_prefix macPrefix) = ETH_ALEN_radio" by (simp add: mac_prefix_def ETH_ALEN_radio_def)
  from creates_radios [OF loop [unfolded createRadios_def] this radio_mac_prefix] True
  obtain cs where cs: "u = ?t @ cs" "allocated libnl ?t cs = freed cs" "st = 0 \<or> st = 1"
    and ms: "st = 0 \<longrightarrow> (\<exists>ms. length ms = nat nRadios \<and>
      cs = concat (map2 (\<lambda>i. radio_calls ?sk (libnl ?t) (radio_mac macPrefix i)) [0..<0 + nat nRadios] ms))" by blast
  show ?thesis
  proof (cases "?sk = 0 \<or> libnl (t @ [NlSocketAlloc, GenlConnect ?sk]) \<noteq> 0 \<or> libnl ?t < 0")
    case no_family: True
    with run True show ?thesis by (auto simp: manageRadios_def split: if_splits)
  next
    case False
    with run loop cs(1) have t': "t' = ?t @ cs @ [NlSocketFree ?sk]" and "status = st"
      by (auto simp: manageRadios_def)
    moreover have "distinct (map (radio_mac macPrefix) [0..<nat nRadios])"
      using True by (intro radio_macs_distinct) linarith
    ultimately show ?thesis
      using cs ms True
      by (intro exI [of _ "[NlSocketAlloc, GenlConnect ?sk, GenlCtrlResolve ?sk kHwSimFamilyName] @ cs @ [NlSocketFree ?sk]"])
        auto
  qed
qed


text \<open>A number in decimal is read back; without one, even without a digit to read, nothing is changed.\<close>

lemma parseInt_decimal:
  assumes "n < 2 ^ 31"
  shows "parseInt ub (decimal n) old = (1, int n)"
proof -
  obtain c s where d: "decimal n = c # s" by (metis decimal_not_empty neq_Nil_conv)
  have c: "isdigit c" and all: "takeWhile isdigit (decimal n) = decimal n"
    using decimal_digits [of n] by (simp_all add: d list_all_iff)
  have "c \<noteq> CHR ''-''" "c \<noteq> CHR ''+''" "\<not> isspace c" using c by (auto simp: isspace_def isdigit_def)
  then show ?thesis
    using all assms digits_value_decimal [of n] by (auto simp: parseInt_def d Let_def)
qed

text \<open>
  An argument that is empty, or only white space, is taken for a number: \<open>sscanf\<close> then returns \<open>EOF\<close>,
  which is not 0, and the integer is used uninitialised.
\<close>

theorem empty_arguments_accepted:
  "1 \<le> g1 \<Longrightarrow> g1 \<le> 100 \<Longrightarrow> 0 \<le> g2 \<Longrightarrow> g2 \<le> 65535 \<Longrightarrow>
   radios_main libnl ub g1 g2 [prog, '''', '' ''] = manageRadios libnl g1 g2"
  by (simp add: radios_main_def parseInt_def isspace_def)

section \<open>Witness\<close>

text \<open>A library on which everything succeeds; messages are numbered by the calls before them.\<close>

definition demo_libnl :: libnl where
  "demo_libnl t = (case last t of
     NlSocketAlloc \<Rightarrow> 1 | NlmsgAlloc \<Rightarrow> int (length t) | GenlmsgPut _ _ _ _ \<Rightarrow> 1 | GenlCtrlResolve _ _ \<Rightarrow> 20 | _ \<Rightarrow> 0)"

theorem radios_created_witness:
  "\<exists>sk family ms. snd (run_state (radios_main demo_libnl (\<lambda>_. 0) 0 0 [''radios'', ''2'', ''5555'']) []) =
     [NlSocketAlloc, GenlConnect sk, GenlCtrlResolve sk kHwSimFamilyName] @
       concat (map2 (\<lambda>i. radio_calls sk family (radio_mac 5555 i)) [0..<2] ms) @ [NlSocketFree sk]"
proof -
  let ?run = "run_state (radios_main demo_libnl (\<lambda>_. 0) 0 0 [''radios'', ''2'', ''5555'']) []"
  have p: "parseInt (\<lambda>_. 0) ''2'' 0 = (1, 2)" "parseInt (\<lambda>_. 0) ''5555'' 0 = (1, 5555)"
    by (simp_all add: parseInt_def isspace_def isdigit_def digits_value_def digit_value_def lower_def Let_def)
  have "fst ?run = 0"
    by (simp add: radios_main_def p manageRadios_def createRadios_def numeral_2_eq_2 buildCreateRadioMessage_def
        createNlMessage_def demo_libnl_def Let_def)
  moreover have "?run = (fst ?run, snd ?run)" by (simp only: prod.collapse)
  ultimately have run: "?run = (0, snd ?run)" by simp
  show ?thesis
    using radios_created [OF run, of 2 5555] by (simp add: p) blast
qed

end
