(* ===== verification/Floats.thy ===== *)
theory Floats
  imports Complex_Main Text "HOL-Library.Monad_Syntax"
begin

text \<open>
  The floating point numbers of C++ (IEEE 754, round to nearest, ties to even) and the conversions from
  text of its standard library.  A number is the real number it stands for, a negative zero, an infinity
  or a NaN; which reals a format has is decided by its rounding, so every operation computes.
  An exception is \<open>None\<close>: where the order of evaluation is unspecified so is which of two exceptions
  is thrown, and no code of the repository distinguishes them.
\<close>

section \<open>Numbers\<close>

datatype fp = Num real | NegZero | Inf bool | NaN   \<comment> \<open>\<open>Inf True\<close> is the negative one\<close>

text \<open>A format: the digits of the significand, the exponents of the least digit and of the largest number.\<close>

type_synonym format = "nat \<times> int \<times> int"

definition single :: format where "single = (24, -149, 127)"
definition double :: format where "double = (53, -1074, 1023)"

fun bits :: "nat \<Rightarrow> nat" where
  "bits n = (if n = 0 then 0 else Suc (bits (n div 2)))"

declare bits.simps [simp del]

lemma bits_simps [simp]:
  "bits 0 = 0" "bits (Suc 0) = 1" "bits (numeral n) = Suc (bits (numeral n div 2))"
  by (simp_all add: bits.simps)

definition pow2 :: "int \<Rightarrow> real" where
  "pow2 e = (if 0 \<le> e then 2 ^ nat e else 1 / 2 ^ nat (- e))"

text \<open>The exponent \<open>e\<close> with \<open>2 ^ e \<le> x < 2 ^ (e + 1)\<close> of a positive number.\<close>

definition exponent :: "real \<Rightarrow> int" where
  "exponent x = (if 1 \<le> x then int (bits (nat \<lfloor>x\<rfloor>)) - 1 else - int (bits (nat (\<lceil>1 / x\<rceil> - 1))))"

definition half_even :: "real \<Rightarrow> int" where
  "half_even x =
     (let n = \<lfloor>x\<rfloor>; r = x - of_int n
      in if r < 1 / 2 then n else if r > 1 / 2 then n + 1 else if even n then n else n + 1)"

text \<open>Rounding of an exact result; the sign is that of a zero.\<close>

definition round_fp :: "format \<Rightarrow> bool \<Rightarrow> real \<Rightarrow> fp" where
  "round_fp f negative x =
     (case f of (p, least, largest) \<Rightarrow>
        if x = 0 then (if negative then NegZero else Num 0)
        else let q = max (exponent \<bar>x\<bar> - (int p - 1)) least;
                 y = of_int (half_even (\<bar>x\<bar> / pow2 q)) * pow2 q
          in if y \<ge> pow2 (largest + 1) then Inf (x < 0)
             else if y = 0 then (if x < 0 then NegZero else Num 0)
             else Num (if x < 0 then - y else y))"

text \<open>A conversion between formats, and the arithmetic the code uses.\<close>

definition convert :: "format \<Rightarrow> fp \<Rightarrow> fp" where
  "convert f a = (case a of Num x \<Rightarrow> round_fp f False x | _ \<Rightarrow> a)"

fun fp_neg :: "fp \<Rightarrow> fp" where
  "fp_neg (Num x) = (if x = 0 then NegZero else Num (- x))"
| "fp_neg NegZero = Num 0"
| "fp_neg (Inf s) = Inf (\<not> s)"
| "fp_neg NaN = NaN"

fun finite_value :: "fp \<Rightarrow> real option" where
  "finite_value (Num x) = Some x"
| "finite_value NegZero = Some 0"
| "finite_value _ = None"

fun fp_add :: "format \<Rightarrow> fp \<Rightarrow> fp \<Rightarrow> fp" where
  "fp_add f NaN b = NaN"
| "fp_add f a NaN = NaN"
| "fp_add f (Inf s) (Inf t) = (if s = t then Inf s else NaN)"
| "fp_add f (Inf s) b = Inf s"
| "fp_add f a (Inf t) = Inf t"
| "fp_add f NegZero NegZero = NegZero"
| "fp_add f a b = round_fp f False (the (finite_value a) + the (finite_value b))"

definition fp_sub :: "format \<Rightarrow> fp \<Rightarrow> fp \<Rightarrow> fp" where
  "fp_sub f a b = fp_add f a (fp_neg b)"

fun fp_negative :: "fp \<Rightarrow> bool" where
  "fp_negative (Num x) = (x < 0)"
| "fp_negative NegZero = True"
| "fp_negative (Inf s) = s"
| "fp_negative NaN = False"

definition fp_mul :: "format \<Rightarrow> fp \<Rightarrow> fp \<Rightarrow> fp" where
  "fp_mul f a b =
     (let negative = (fp_negative a \<noteq> fp_negative b)
      in case (finite_value a, finite_value b) of
           (Some x, Some y) \<Rightarrow> round_fp f negative (x * y)
         | (x, y) \<Rightarrow> if a = NaN \<or> b = NaN \<or> x = Some 0 \<or> y = Some 0 then NaN else Inf negative)"

text \<open>Division by a positive constant.\<close>

fun fp_div_const :: "format \<Rightarrow> fp \<Rightarrow> real \<Rightarrow> fp" where
  "fp_div_const f (Num x) c = round_fp f False (x / c)"
| "fp_div_const f a c = a"

fun fp_greater :: "fp \<Rightarrow> fp \<Rightarrow> bool" where
  "fp_greater NaN b = False"
| "fp_greater a NaN = False"
| "fp_greater (Inf s) b = (\<not> s \<and> b \<noteq> Inf False)"
| "fp_greater a (Inf t) = t"
| "fp_greater a b = (the (finite_value a) > the (finite_value b))"

text \<open>The conversion to an integer of a number in its range.\<close>

fun fp_truncate :: "fp \<Rightarrow> int" where
  "fp_truncate (Num x) = (if x < 0 then \<lceil>x\<rceil> else \<lfloor>x\<rfloor>)"
| "fp_truncate _ = 0"

section \<open>Numbers from text\<close>

text \<open>An optional sign, and the text behind it.\<close>

definition take_sign :: "string \<Rightarrow> bool \<times> string" where
  "take_sign s =
     (case s of [] \<Rightarrow> (False, [])
      | c # r \<Rightarrow> if c = CHR ''-'' then (True, r) else if c = CHR ''+'' then (False, r) else (False, s))"

text \<open>
  Digits with an optional point, then an optional exponent behind \<open>mark\<close>, that counts when it has a
  digit; \<open>None\<close> without a digit before it.
\<close>

definition scan_number :: "nat \<Rightarrow> char \<Rightarrow> real \<Rightarrow> string \<Rightarrow> real option" where
  "scan_number base mark radix s =
     (let digit = (\<lambda>c. digit_value base c \<noteq> None);
          whole = takeWhile digit s; r = dropWhile digit s;
          (frac, r) = (if r \<noteq> '''' \<and> hd r = CHR ''.'' then (takeWhile digit (tl r), dropWhile digit (tl r))
                       else ('''', r))
      in if whole = '''' \<and> frac = '''' then None
         else let mantissa = of_nat (digits_value base (whole @ frac)) / of_nat base ^ length frac;
                  (negative, e) = (if r \<noteq> '''' \<and> lower (hd r) = mark then take_sign (tl r) else (False, ''''));
                  n = digits_value 10 (takeWhile isdigit e)
           in Some (if negative then mantissa / radix ^ n else mantissa * radix ^ n))"

text \<open>What \<open>strtof\<close> converts: \<open>None\<close> when there is nothing.\<close>

datatype parsed = Exactly real | Infinite | NotANumber

definition strtof_parse :: "string \<Rightarrow> (bool \<times> parsed) option" where
  "strtof_parse s =
     (let (negative, s) = take_sign (dropWhile isspace s); low = List.map lower s;
          hex = (if take 2 low = ''0x'' then scan_number 16 (CHR ''p'') 2 (drop 2 s) else None)
      in if take 3 low = ''inf'' then Some (negative, Infinite)
         else if take 3 low = ''nan'' then Some (negative, NotANumber)
         else case hex of Some x \<Rightarrow> Some (negative, Exactly x)
         | None \<Rightarrow> map_option (\<lambda>x. (negative, Exactly x)) (scan_number 10 (CHR ''e'') 10 s))"

text \<open>
  \<open>std::stof\<close>: it throws when there is nothing to convert and when \<open>strtof\<close> reports a range error:
  for an overflow, and as the C library decides (\<open>tiny\<close>) for a number below the normal range.
\<close>

definition stof :: "(real \<Rightarrow> bool) \<Rightarrow> string \<Rightarrow> fp option" where
  "stof tiny s =
     (case strtof_parse s of
        None \<Rightarrow> None
      | Some (negative, Infinite) \<Rightarrow> Some (Inf negative)
      | Some (negative, NotANumber) \<Rightarrow> Some NaN
      | Some (negative, Exactly x) \<Rightarrow>
          let r = round_fp single negative (if negative then - x else x)
          in if r = Inf negative then None
             else if x \<noteq> 0 \<and> x < pow2 (-126) \<and> tiny x then None
             else Some r)"

text \<open>\<open>std::stoi\<close> and \<open>std::stol\<close>, which throw without a digit and out of the range of the type.\<close>

definition sto_int :: "nat \<Rightarrow> string \<Rightarrow> int option" where
  "sto_int w s =
     (let (negative, s) = take_sign (dropWhile isspace s);
          digits = takeWhile isdigit s;
          v = (if negative then - int (digits_value 10 digits) else int (digits_value 10 digits))
      in if digits = '''' then None
         else if - (2 ^ (w - 1)) \<le> v \<and> v < 2 ^ (w - 1) then Some v else None)"

definition stoi :: "string \<Rightarrow> int option" where "stoi = sto_int 32"
definition stol :: "string \<Rightarrow> int option" where "stol = sto_int 64"

text \<open>\<open>std::string::substr\<close>, which throws when it starts behind the end.\<close>

definition substr :: "string \<Rightarrow> nat \<Rightarrow> nat \<Rightarrow> string option" where
  "substr s pos n = (if pos > length s then None else Some (take n (drop pos s)))"

definition substr_from :: "string \<Rightarrow> nat \<Rightarrow> string option" where
  "substr_from s pos = (if pos > length s then None else Some (drop pos s))"


section \<open>Evaluation, and the rounding to an integer\<close>

lemmas float_eval =
  half_even_def exponent_def pow2_def round_fp_def single_def double_def convert_def fp_sub_def
  stof_def strtof_parse_def scan_number_def take_sign_def isspace_def lower_def digit_value_def isdigit_def
  digits_value_def sto_int_def stoi_def stol_def substr_def substr_from_def

lemma stof_examples:
  "stof tiny ''16777217'' = Some (Num 16777216)" "stof tiny ''16777219 m'' = Some (Num 16777220)"
  "stof tiny ''-1.5e1'' = Some (Num (- 15))" "stof tiny ''0x1.8p3'' = Some (Num 12)"
  "stof tiny ''1e39'' = None" "stof tiny '''' = None" "stof tiny ''-0'' = Some NegZero"
  "stof tiny ''.1'' = Some (Num (13421773 / 134217728))"
  by (simp_all add: float_eval Let_def)

lemma half_even_error: "\<bar>of_int (half_even x) - x\<bar> \<le> 1 / 2"
proof -
  have "of_int \<lfloor>x\<rfloor> \<le> x" "x < of_int \<lfloor>x\<rfloor> + 1" by linarith+
  then show ?thesis unfolding half_even_def Let_def by (auto simp: abs_le_iff)
qed

text \<open>What has a sign and rounds to a number has this sign: rounding never changes it.\<close>

lemma round_fp_sign:
  "0 \<le> x \<Longrightarrow> round_fp f s x = Num y \<Longrightarrow> 0 \<le> y"
  "x \<le> 0 \<Longrightarrow> round_fp f s x = Num y \<Longrightarrow> y \<le> 0"
proof -
  have "0 \<le> half_even z" if "0 \<le> z" for z
    using that by (simp add: half_even_def Let_def)
  then have "0 \<le> of_int (half_even (\<bar>x\<bar> / pow2 q)) * pow2 q" for q
    by (simp add: pow2_def)
  then show "0 \<le> x \<Longrightarrow> round_fp f s x = Num y \<Longrightarrow> 0 \<le> y" "x \<le> 0 \<Longrightarrow> round_fp f s x = Num y \<Longrightarrow> y \<le> 0"
    by (auto simp: round_fp_def Let_def split: prod.splits if_splits)
qed

section \<open>Integers are exact\<close>

lemma bits_less: "n < 2 ^ k \<Longrightarrow> bits n \<le> k"
proof (induction k arbitrary: n)
  case (Suc k)
  then have "n div 2 < 2 ^ k" by simp
  from Suc.IH [OF this] show ?case by (subst bits.simps) simp
qed simp

lemma half_even_int [simp]: "half_even (of_int i) = i"
  by (simp add: half_even_def)

lemma less_pow2_bits: "n < 2 ^ bits n"
proof (induction n rule: bits.induct)
  case (1 n)
  show ?case
  proof (cases "n = 0")
    case False
    from 1 [OF this] have "n div 2 < 2 ^ bits (n div 2)" .
    then have "n < 2 * 2 ^ bits (n div 2)" by linarith
    with False show ?thesis by (subst bits.simps) simp
  qed simp
qed

text \<open>An integer that has no more digits than the format is its own rounding.\<close>

lemma round_fp_nat:
  assumes "n < 2 ^ p" "n \<noteq> 0" "least \<le> 0" "int p \<le> largest"
  shows "round_fp (p, least, largest) s (real n) = Num (real n)"
proof -
  let ?q = "max (exponent (real n) - (int p - 1)) least"
  have e: "exponent (real n) = int (bits n) - 1" using assms(2) by (simp add: exponent_def)
  have q: "?q \<le> 0" using bits_less [OF assms(1)] assms(3) e by simp
  define k where "k = nat (- ?q)"
  have pow: "pow2 ?q = 1 / 2 ^ k" using q by (auto simp: pow2_def k_def)
  have "real n / pow2 ?q = of_int (int n * 2 ^ k)" by (simp add: pow)
  then have "of_int (half_even (real n / pow2 ?q)) * pow2 ?q = real n"
    by (simp only: half_even_int pow) simp
  moreover have "real n < pow2 (largest + 1)"
  proof -
    have "real n < 2 ^ p" using assms(1) by (metis of_nat_less_iff of_nat_numeral of_nat_power)
    also have "\<dots> \<le> 2 ^ nat (largest + 1)" using assms(4) by (intro power_increasing) auto
    also have "\<dots> = pow2 (largest + 1)" using assms(4) by (simp add: pow2_def)
    finally show ?thesis .
  qed
  ultimately show ?thesis using assms(2) by (simp add: round_fp_def Let_def)
qed

lemma round_double_nat: "n < 2 ^ 53 \<Longrightarrow> round_fp double False (real n) = Num (real n)"
  using round_fp_nat [of n 53 "-1074" 1023 False] by (cases "n = 0") (simp_all add: double_def round_fp_def)

lemma double_nat_arith:
  "m * n < 2 ^ 53 \<Longrightarrow> fp_mul double (Num (real m)) (Num (real n)) = Num (real (m * n))"
  "m + n < 2 ^ 53 \<Longrightarrow> fp_add double (Num (real m)) (Num (real n)) = Num (real (m + n))"
  using round_double_nat [of "m * n"] round_double_nat [of "m + n"] by (simp_all add: fp_mul_def)

section \<open>The numbers of a format\<close>

text \<open>What the format has is what rounding to it leaves alone.\<close>

definition in_format :: "format \<Rightarrow> fp \<Rightarrow> bool" where
  "in_format f a \<longleftrightarrow> convert f a = a"

lemma in_format_simps [simp]:
  "in_format f NegZero" "in_format f (Inf s)" "in_format f NaN" "in_format f (Num 0)"
  by (auto simp: in_format_def convert_def round_fp_def split: prod.splits)

lemma pow2_pos [simp]: "0 < pow2 e" "0 \<le> pow2 e" "pow2 e \<noteq> 0"
  by (simp_all add: pow2_def)

lemma pow2_powr: "pow2 e = 2 powr of_int e"
  by (auto simp: pow2_def powr_realpow [symmetric] powr_minus_divide)

lemma pow2_add: "pow2 (a + b) = pow2 a * pow2 b"
  by (simp add: pow2_powr powr_add)

lemma pow2_nat: "pow2 (int n) = 2 ^ n"
  by (simp add: pow2_def)

lemma pow2_less: "pow2 a < pow2 b \<longleftrightarrow> a < b" "pow2 a \<le> pow2 b \<longleftrightarrow> a \<le> b"
  by (simp_all add: pow2_powr)

lemma pow2_bits: "n \<noteq> 0 \<Longrightarrow> 2 ^ bits n \<le> 2 * n"
proof (induction n rule: bits.induct)
  case (1 n)
  show ?case
  proof (cases "n div 2 = 0")
    case True
    with 1(2) have "n = 1" by auto
    then show ?thesis by simp
  next
    case False
    with 1 have "2 ^ bits (n div 2) \<le> 2 * (n div 2)" by simp
    then show ?thesis using 1(2) by (subst bits.simps) simp
  qed
qed

lemma exponent_bounds:
  assumes "0 < x"
  shows "pow2 (exponent x) \<le> x" "x < pow2 (exponent x + 1)"
proof -
  have "pow2 (exponent x) \<le> x \<and> x < pow2 (exponent x + 1)"
  proof (cases "1 \<le> x")
    case True
    define n where "n = nat \<lfloor>x\<rfloor>"
    have "1 \<le> \<lfloor>x\<rfloor>" using True by simp
    then have "n \<noteq> 0" "real n = of_int \<lfloor>x\<rfloor>" by (simp_all add: n_def)
    then have n: "n \<noteq> 0" "real n \<le> x" "x < real n + 1" by linarith+
    have e: "exponent x + 1 = int (bits n)" using True by (simp add: exponent_def n_def)
    have "2 * pow2 (exponent x) = 2 ^ bits n"
      using pow2_add [of "exponent x" 1] unfolding e pow2_nat by (simp add: pow2_def)
    moreover have "(2::real) ^ bits n \<le> 2 * real n" using pow2_bits [OF n(1)] by (metis of_nat_le_iff of_nat_mult of_nat_numeral of_nat_power)
    moreover have "real n + 1 \<le> 2 ^ bits n" using less_pow2_bits [of n] by (metis Suc_leI add.commute of_nat_Suc of_nat_le_iff of_nat_numeral of_nat_power)
    ultimately show ?thesis using n unfolding e pow2_nat by linarith
  next
    case False
    define n where "n = nat (\<lceil>1 / x\<rceil> - 1)"
    have "1 < 1 / x" using False assms by simp
    moreover define c where "c = \<lceil>1 / x\<rceil>"
    ultimately have "1 < c" by simp
    then have "n \<noteq> 0" "real n = of_int c - 1" by (simp_all add: n_def c_def [symmetric])
    then have n: "n \<noteq> 0" "real n < 1 / x" "1 / x \<le> real n + 1" unfolding c_def by linarith+
    have e: "exponent x = - int (bits n)" using False by (simp add: exponent_def n_def)
    have p: "pow2 (exponent x) = 1 / 2 ^ bits n" "pow2 (exponent x + 1) = 2 / 2 ^ bits n"
      using pow2_add [of "exponent x" 1] by (simp_all add: e pow2_def)
    have "(2::real) ^ bits n \<le> 2 * real n" using pow2_bits [OF n(1)] by (metis of_nat_le_iff of_nat_mult of_nat_numeral of_nat_power)
    then have "2 ^ bits n < 2 / x" using n by (simp add: field_simps)
    moreover have "real n + 1 \<le> 2 ^ bits n" using less_pow2_bits [of n] by (metis Suc_leI add.commute of_nat_Suc of_nat_le_iff of_nat_numeral of_nat_power)
    then have "1 / x \<le> 2 ^ bits n" using n by linarith
    ultimately show ?thesis using assms unfolding p by (simp add: field_simps)
  qed
  then show "pow2 (exponent x) \<le> x" "x < pow2 (exponent x + 1)" by simp_all
qed

text \<open>A multiple of the least digit, with at most the digits of the format, is its own rounding.\<close>

lemma round_fp_grid:
  assumes "\<bar>y\<bar> = real m * pow2 q" "0 < m" "m \<le> 2 ^ p" "1 \<le> p" "least \<le> q" "\<bar>y\<bar> < pow2 (largest + 1)"
  shows "round_fp (p, least, largest) s y = Num y"
proof -
  let ?e = "exponent \<bar>y\<bar>" and ?q = "max (exponent \<bar>y\<bar> - (int p - 1)) least"
  have y: "0 < \<bar>y\<bar>" using assms(1,2) by simp
  note e = exponent_bounds [OF y]
  have "\<exists>i. \<bar>y\<bar> / pow2 ?q = of_int i"
  proof (cases "?q \<le> q")
    case True
    then have "pow2 q = pow2 (int (nat (q - ?q))) * pow2 ?q" by (simp add: pow2_add [symmetric] del: max.bounded_iff)
    then have "\<bar>y\<bar> = of_int (int m * 2 ^ nat (q - ?q)) * pow2 ?q"
      using assms(1) by (simp only: pow2_nat) simp
    then have "\<bar>y\<bar> / pow2 ?q = of_int (int m * 2 ^ nat (q - ?q))"
      by (metis nonzero_mult_div_cancel_right pow2_pos(3))
    then show ?thesis by blast
  next
    case False
    then have q: "?q = ?e - (int p - 1)" "q + int p \<le> ?e" using assms(5) by auto
    then have "pow2 (q + int p) \<le> real m * pow2 q" using e(1) pow2_less(2) [of "q + int p" ?e] assms(1) by linarith
    then have "(2::real) ^ p \<le> real m" by (simp add: pow2_add pow2_nat)
    then have "2 ^ p \<le> m" by (metis of_nat_le_iff of_nat_numeral of_nat_power)
    then have "m = 2 ^ p" using assms(3) by simp
    then have yp: "\<bar>y\<bar> = pow2 (q + int p)" by (simp add: assms(1) pow2_add pow2_nat)
    then have "?e = q + int p" using e q(2) pow2_less by (metis add1_zle_eq less_le_not_le order.antisym zle_add1_eq_le)
    then have "?q = q + 1" using q(1) by linarith
    moreover have "pow2 (q + int p) = pow2 (int (p - 1)) * pow2 (q + 1)"
      using assms(4) by (simp add: pow2_add [symmetric] algebra_simps)
    ultimately have "\<bar>y\<bar> / pow2 ?q = of_int (2 ^ (p - 1))" using pow2_pos(1) [of "q + 1"] by (simp add: yp pow2_nat)
    then show ?thesis by blast
  qed
  then obtain i where i: "\<bar>y\<bar> / pow2 ?q = of_int i" ..
  then have "of_int (half_even (\<bar>y\<bar> / pow2 ?q)) * pow2 ?q = \<bar>y\<bar>"
    using pow2_pos(1) [of ?q] by (simp only: half_even_int) (simp add: field_simps)
  then show ?thesis using y assms(6) by (auto simp: round_fp_def Let_def)
qed

lemma half_even_le: "x < of_int n \<Longrightarrow> half_even x \<le> n"
  by (auto simp: half_even_def Let_def floor_less_iff [symmetric])

lemma in_format_round:
  assumes "f = (p, least, largest)" "1 \<le> p"
  shows "in_format f (round_fp f s x)"
proof (cases "x = 0")
  case False
  let ?q = "max (exponent \<bar>x\<bar> - (int p - 1)) least"
  define h where "h = half_even (\<bar>x\<bar> / pow2 ?q)"
  define y where "y = of_int h * pow2 ?q"
  have "\<bar>x\<bar> < pow2 (exponent \<bar>x\<bar> + 1)" using exponent_bounds(2) [of "\<bar>x\<bar>"] False by simp
  also have "\<dots> \<le> pow2 (?q + int p)" by (simp add: pow2_less)
  finally have "\<bar>x\<bar> / pow2 ?q < of_int (2 ^ p)" using pow2_pos(1) [of ?q] by (simp add: pow2_add pow2_nat field_simps)
  then have h: "h \<le> 2 ^ p" unfolding h_def by (rule half_even_le)
  have "0 \<le> \<bar>x\<bar> / pow2 ?q" by (simp only: pow2_pos abs_ge_zero divide_nonneg_pos)
  then have "0 \<le> h" by (simp add: h_def half_even_def Let_def)
  have grid: "in_format f (Num z)" if "\<bar>z\<bar> = y" "y \<noteq> 0" "y < pow2 (largest + 1)" for z
  proof -
    have "\<bar>z\<bar> = real (nat h) * pow2 ?q" "0 < nat h" using \<open>0 \<le> h\<close> that by (auto simp: y_def)
    moreover have "nat h \<le> 2 ^ p" using h by simp
    ultimately show ?thesis using round_fp_grid [of z "nat h" ?q p least largest False] that assms
      by (simp add: in_format_def convert_def)
  qed
  have "0 \<le> y" using \<open>0 \<le> h\<close> pow2_pos(1) [of ?q] by (simp add: y_def)
  have "round_fp f s x = (if y \<ge> pow2 (largest + 1) then Inf (x < 0)
      else if y = 0 then (if x < 0 then NegZero else Num 0) else Num (if x < 0 then - y else y))"
    using False by (simp add: round_fp_def Let_def y_def h_def assms(1))
  then show ?thesis using grid [of y] grid [of "- y"] \<open>0 \<le> y\<close> by auto
qed (auto simp: round_fp_def assms)

text \<open>The operations stay in their format, and a conversion from text yields a number of single precision.\<close>

lemma single_digits: "in_format single (round_fp single s x)"
  by (rule in_format_round [OF single_def]) simp

lemma in_format_convert: "in_format single (convert single a)"
  by (cases a) (auto simp: convert_def single_digits)

lemma in_format_neg: "in_format f a \<Longrightarrow> in_format f (fp_neg a)"
  by (cases a) (auto simp: in_format_def convert_def round_fp_def Let_def split: prod.splits if_splits)

lemma stof_single: "stof tiny s = Some a \<Longrightarrow> in_format single a"
  by (auto simp: stof_def Let_def single_digits split: option.splits prod.splits parsed.splits if_splits)

end
