(* ===== verification/Nmea.thy ===== *)
theory Nmea
  imports Prelude Floats
begin

text \<open>
  The parser of NMEA sentences (\<open>gps/gnss/common/utils/default/NmeaFixInfo.cpp\<close>).  \<open>None\<close> is an
  exception the function throws.  Of the C library, \<open>tiny\<close> is the range error of \<open>strtof\<close> for
  numbers below the normal range, and \<open>mk\<close> the time \<open>mktime(&tm) - timezone\<close> of a broken down time
  in the process's time zone, whose \<open>tm_isdst\<close> the code leaves uninitialised.
\<close>

section \<open>The record\<close>

definition GPGA_RECORD_TAG :: string where "GPGA_RECORD_TAG = ''$GPGGA''"
definition GPRMC_RECORD_TAG :: string where "GPRMC_RECORD_TAG = ''$GPRMC''"
definition LINE_SEPARATOR :: char where "LINE_SEPARATOR = CHR 0x0A"
definition COMMA_SEPARATOR :: char where "COMMA_SEPARATOR = CHR '',''"
definition TIMESTAMP_EPSILON :: fp where "TIMESTAMP_EPSILON = round_fp double False (1 / 1000)"
definition MIN_COL_NUM :: nat where "MIN_COL_NUM = 13"

definition kMockHorizontalAccuracyMeters :: fp where "kMockHorizontalAccuracyMeters = Num 5"
definition kMockVerticalAccuracyMeters :: fp where "kMockVerticalAccuracyMeters = Num 5"
definition kMockSpeedAccuracyMetersPerSecond :: fp where "kMockSpeedAccuracyMetersPerSecond = Num 1"
definition kMockBearingAccuracyDegrees :: fp where "kMockBearingAccuracyDegrees = Num 90"

record nmea =
  altitudeMeters :: fp
  bearingDegrees :: fp
  fixId :: u32
  hasGMCRecord :: bool
  hasGGARecord :: bool
  hDop :: fp
  vDop :: fp
  latDeg :: fp
  lngDeg :: fp
  satelliteCount :: u32
  speedMetersPerSec :: fp
  timestamp :: int

text \<open>The constructor sets the two flags only; \<open>g\<close> is what lies in the memory of the object.\<close>

definition NmeaFixInfo_new :: "nmea \<Rightarrow> nmea" where
  "NmeaFixInfo_new g = g\<lparr>hasGMCRecord := False, hasGGARecord := False\<rparr>"

definition isValidFix :: "nmea \<Rightarrow> bool" where
  "isValidFix i = (hasGMCRecord i \<and> hasGGARecord i)"

definition reset :: "nmea \<Rightarrow> nmea" where
  "reset i = i\<lparr>altitudeMeters := Num 0, bearingDegrees := Num 0, fixId := 0, hasGMCRecord := False,
     hasGGARecord := False, latDeg := Num 0, lngDeg := Num 0, hDop := Num 0, vDop := Num 0,
     satelliteCount := 0, speedMetersPerSec := Num 0, timestamp := 0\<rparr>"

definition nmea_assign :: "nmea \<Rightarrow> nmea \<Rightarrow> nmea" where
  "nmea_assign i rhs = i\<lparr>altitudeMeters := altitudeMeters rhs, bearingDegrees := bearingDegrees rhs,
     fixId := fixId rhs, hasGMCRecord := hasGMCRecord rhs, hasGGARecord := hasGGARecord rhs,
     hDop := hDop rhs, vDop := vDop rhs, latDeg := latDeg rhs, lngDeg := lngDeg rhs,
     satelliteCount := satelliteCount rhs, speedMetersPerSec := speedMetersPerSec rhs,
     timestamp := timestamp rhs\<rparr>"

section \<open>The fields of a sentence\<close>

text \<open>\<open>std::getline\<close> until the text ends: an empty item behind the last delimiter is none.\<close>

function splitStr :: "string \<Rightarrow> char \<Rightarrow> string list" where
  "splitStr line delimiter =
     (if line = '''' then []
      else takeWhile (\<lambda>c. c \<noteq> delimiter) line # splitStr (drop 1 (dropWhile (\<lambda>c. c \<noteq> delimiter) line)) delimiter)"
  by pat_completeness auto
termination
proof (relation "measure (\<lambda>(line, d). length line)")
  fix line :: string and d assume "line \<noteq> ''''"
  then have "length (drop 1 (dropWhile (\<lambda>c. c \<noteq> d) line)) < length line"
    using length_dropWhile_le [of "\<lambda>c. c \<noteq> d" line] by (cases line) auto
  then show "((drop 1 (dropWhile (\<lambda>c. c \<noteq> d) line), d), line, d) \<in> measure (\<lambda>(line, d). length line)" by simp
qed simp

declare splitStr.simps [simp del]

definition checkAndConvertToFloat :: "(real \<Rightarrow> bool) \<Rightarrow> string \<Rightarrow> fp option" where
  "checkAndConvertToFloat tiny sentence = (if sentence = '''' then Some NaN else stof tiny sentence)"

record tm =
  tm_mday :: int
  tm_mon :: int
  tm_year :: int
  tm_hour :: int
  tm_min :: int
  tm_sec :: int

definition two_digits :: "string \<Rightarrow> nat \<Rightarrow> int option" where
  "two_digits s pos = do { d \<leftarrow> substr s pos 2; stoi d }"

definition nmeaPartsToTimestamp :: "(tm \<Rightarrow> int) \<Rightarrow> string \<Rightarrow> string \<Rightarrow> int option" where
  "nmeaPartsToTimestamp mk timeStr dateStr = do {
     mday \<leftarrow> two_digits dateStr 0;
     mon \<leftarrow> two_digits dateStr 2;
     year \<leftarrow> two_digits dateStr 4;
     hour \<leftarrow> two_digits timeStr 0;
     min \<leftarrow> two_digits timeStr 2;
     sec \<leftarrow> two_digits timeStr 4;
     Some (mk \<lparr>tm_mday = mday, tm_mon = mon - 1, tm_year = year + 100, tm_hour = hour, tm_min = min, tm_sec = sec\<rparr>)
   }"

text \<open>
  Degrees and minutes: the sum is computed in double precision and stored in single precision; the
  multiplication by -1 only changes the sign.
\<close>

definition degrees :: "(real \<Rightarrow> bool) \<Rightarrow> string \<Rightarrow> nat \<Rightarrow> fp option" where
  "degrees tiny s n = do {
     d \<leftarrow> substr s 0 n;
     whole \<leftarrow> stof tiny d;
     m \<leftarrow> substr_from s n;
     minutes \<leftarrow> stof tiny m;
     Some (convert single (fp_add double whole (fp_div_const double minutes 60)))
   }"

definition parseGGALine :: "(real \<Rightarrow> bool) \<Rightarrow> string list \<Rightarrow> nmea \<Rightarrow> nmea option" where
  "parseGGALine tiny sentenceValues i =
     (if length sentenceValues = 0 \<or> sentenceValues ! 0 \<noteq> GPGA_RECORD_TAG then Some i
      else do {
        lat \<leftarrow> degrees tiny (sentenceValues ! 2) 2;
        let lat = (if sentenceValues ! 3 \<noteq> ''N'' then fp_neg lat else lat);
        lng \<leftarrow> degrees tiny (sentenceValues ! 4) 3;
        let lng = (if sentenceValues ! 5 \<noteq> ''E'' then fp_neg lng else lng);
        altitude \<leftarrow> stof tiny (sentenceValues ! 9);
        dop \<leftarrow> (if sentenceValues ! 8 = '''' then Some NaN else stof tiny (sentenceValues ! 8));
        Some (i\<lparr>latDeg := lat, lngDeg := lng, altitudeMeters := altitude, hDop := dop, hasGGARecord := True\<rparr>)
      })"

definition parseRMCLine :: "(real \<Rightarrow> bool) \<Rightarrow> (tm \<Rightarrow> int) \<Rightarrow> string list \<Rightarrow> nmea \<Rightarrow> nmea option" where
  "parseRMCLine tiny mk sentenceValues i =
     (if length sentenceValues = 0 \<or> sentenceValues ! 0 \<noteq> GPRMC_RECORD_TAG then Some i
      else do {
        speed \<leftarrow> checkAndConvertToFloat tiny (sentenceValues ! 7);
        bearing \<leftarrow> checkAndConvertToFloat tiny (sentenceValues ! 8);
        time \<leftarrow> nmeaPartsToTimestamp mk (sentenceValues ! 1) (sentenceValues ! 9);
        Some (i\<lparr>speedMetersPerSec := speed, bearingDegrees := bearing, timestamp := time, hasGMCRecord := True\<rparr>)
      })"

section \<open>The location of a text\<close>

record gnss_location =
  gnssLocationFlags :: nat
  latitudeDegrees :: fp
  longitudeDegrees :: fp
  loc_altitudeMeters :: fp
  loc_speedMetersPerSec :: fp
  loc_bearingDegrees :: fp
  horizontalAccuracyMeters :: fp
  verticalAccuracyMeters :: fp
  speedAccuracyMetersPerSecond :: fp
  bearingAccuracyDegrees :: fp
  loc_timestamp :: int
  timestampNs :: u64
  timeUncertaintyNs :: u64

text \<open>\<open>now\<close> is \<open>elapsedRealtimeNano()\<close>; both flags of the elapsed time are always set.\<close>

definition toGnssLocation :: "int \<Rightarrow> nmea \<Rightarrow> gnss_location" where
  "toGnssLocation now i =
     \<lparr>gnssLocationFlags = 0xFF, latitudeDegrees = latDeg i, longitudeDegrees = lngDeg i,
      loc_altitudeMeters = altitudeMeters i, loc_speedMetersPerSec = speedMetersPerSec i,
      loc_bearingDegrees = bearingDegrees i, horizontalAccuracyMeters = kMockHorizontalAccuracyMeters,
      verticalAccuracyMeters = kMockVerticalAccuracyMeters,
      speedAccuracyMetersPerSecond = kMockSpeedAccuracyMetersPerSecond,
      bearingAccuracyDegrees = kMockBearingAccuracyDegrees, loc_timestamp = timestamp i,
      timestampNs = of_int now, timeUncertaintyNs = 1000000\<rparr>"

definition has_tag :: "string \<Rightarrow> string \<Rightarrow> bool" where
  "has_tag tag line = (take (length tag) line = tag)"

text \<open>
  The body of the loop over the lines: the last fix, the candidate and the number of the next one.
  \<open>lastTimeStamp\<close> is 0 for ever.
\<close>

definition nmea_line ::
  "(real \<Rightarrow> bool) \<Rightarrow> (tm \<Rightarrow> int) \<Rightarrow> string \<Rightarrow> nmea \<times> nmea \<times> u32 \<Rightarrow> (nmea \<times> nmea \<times> u32) option" where
  "nmea_line tiny mk line st = (case st of (found, candidate, n) \<Rightarrow>
     (if \<not> has_tag GPGA_RECORD_TAG line \<and> \<not> has_tag GPRMC_RECORD_TAG line then Some st
      else let sentenceValues = splitStr line COMMA_SEPARATOR
        in if length sentenceValues < MIN_COL_NUM then Some st
           else do {
             t \<leftarrow> stof tiny (sentenceValues ! 1);
             let (found, candidate, n) =
               (if fp_greater (fp_sub double (convert double t) (Num 0)) TIMESTAMP_EPSILON \<and> isValidFix candidate
                then (nmea_assign found candidate, reset candidate, n + 1) else (found, candidate, n));
             candidate \<leftarrow> (if has_tag GPGA_RECORD_TAG line
               then parseGGALine tiny sentenceValues (candidate\<lparr>fixId := n\<rparr>)
               else parseRMCLine tiny mk sentenceValues candidate);
             Some (found, candidate, n)
           }))"

fun nmea_lines ::
  "(real \<Rightarrow> bool) \<Rightarrow> (tm \<Rightarrow> int) \<Rightarrow> string list \<Rightarrow> nmea \<times> nmea \<times> u32 \<Rightarrow> (nmea \<times> nmea \<times> u32) option" where
  "nmea_lines tiny mk [] st = Some st"
| "nmea_lines tiny mk (line # ls) st = do { st \<leftarrow> nmea_line tiny mk line st; nmea_lines tiny mk ls st }"

text \<open>Behind the loop; the inner \<open>None\<close> is the null pointer.\<close>

definition last_fix :: "nmea \<times> nmea \<times> u32 \<Rightarrow> nmea" where
  "last_fix st = (case st of (found, candidate, n) \<Rightarrow> if isValidFix candidate then nmea_assign found candidate else found)"

definition getLocationFromInputStr ::
  "(real \<Rightarrow> bool) \<Rightarrow> (tm \<Rightarrow> int) \<Rightarrow> int \<Rightarrow> nmea \<Rightarrow> nmea \<Rightarrow> string \<Rightarrow> gnss_location option option" where
  "getLocationFromInputStr tiny mk now g1 g2 inputStr = do {
     st \<leftarrow> nmea_lines tiny mk (splitStr inputStr LINE_SEPARATOR) (NmeaFixInfo_new g1, NmeaFixInfo_new g2, 0);
     Some (if isValidFix (last_fix st) then Some (toGnssLocation now (last_fix st)) else None)
   }"


section \<open>What the parser does\<close>

lemma nmea_assign [simp]: "nmea_assign i rhs = rhs"
  by (simp add: nmea_assign_def)

lemma splitStr_head: "splitStr line d ! 0 = takeWhile (\<lambda>c. c \<noteq> d) line" if "splitStr line d \<noteq> []"
  using that by (subst splitStr.simps) (auto simp: splitStr.simps [of "''''"])

lemma first_field_tag:
  "splitStr line d \<noteq> [] \<Longrightarrow> splitStr line d ! 0 = tag \<Longrightarrow> has_tag tag line"
  by (metis has_tag_def splitStr_head takeWhile_eq_take)

lemma nmea_lines_append:
  "nmea_lines tiny mk (xs @ ys) st = do { st \<leftarrow> nmea_lines tiny mk xs st; nmea_lines tiny mk ys st }"
  by (induction xs arbitrary: st) (auto split: Option.bind_splits)

lemma nmea_lines_throws:
  assumes "line \<in> set ls" and "\<And>st. nmea_line tiny mk line st = None"
  shows "nmea_lines tiny mk ls st = None"
  using assms(1)
proof (induction ls arbitrary: st)
  case (Cons l ls)
  show ?case
  proof (cases "nmea_line tiny mk l st")
    case (Some st')
    then have "l \<noteq> line" using assms(2) [of st] by auto
    with Cons Some show ?thesis by simp
  qed simp
qed simp

text \<open>
  C36. A GGA sentence without a position, which a receiver sends as long as it has no fix, makes the
  parser throw whatever the other sentences are: the empty latitude is given to \<open>stof\<close>.
\<close>

theorem gga_without_position_throws:
  assumes "line \<in> set (splitStr inputStr LINE_SEPARATOR)"
    and "MIN_COL_NUM \<le> length (splitStr line COMMA_SEPARATOR)"
    and "splitStr line COMMA_SEPARATOR ! 0 = GPGA_RECORD_TAG" "splitStr line COMMA_SEPARATOR ! 2 = ''''"
  shows "getLocationFromInputStr tiny mk now g1 g2 inputStr = None"
proof -
  have "splitStr line COMMA_SEPARATOR \<noteq> []" using assms(2) by (auto simp: MIN_COL_NUM_def)
  with assms(3) have tag: "has_tag GPGA_RECORD_TAG line" by (intro first_field_tag)
  have "degrees tiny '''' 2 = None"
    by (simp add: degrees_def substr_def stof_def strtof_parse_def scan_number_def take_sign_def)
  then have "parseGGALine tiny (splitStr line COMMA_SEPARATOR) i = None" for i
    using assms(3,4) \<open>splitStr line COMMA_SEPARATOR \<noteq> []\<close> by (simp add: parseGGALine_def)
  then have "nmea_line tiny mk line st = None" for st
    using tag assms(2) by (cases st) (auto simp: nmea_line_def Let_def bind_eq_None_conv split: prod.splits)
  from nmea_lines_throws [OF assms(1) this] show ?thesis by (simp add: getLocationFromInputStr_def)
qed

text \<open>One sentence of each kind.\<close>

lemma tags_differ: "has_tag GPRMC_RECORD_TAG line \<Longrightarrow> \<not> has_tag GPGA_RECORD_TAG line"
  by (auto simp: has_tag_def GPRMC_RECORD_TAG_def GPGA_RECORD_TAG_def)

lemma gga_line:
  assumes "MIN_COL_NUM \<le> length (splitStr gga COMMA_SEPARATOR)" "splitStr gga COMMA_SEPARATOR ! 0 = GPGA_RECORD_TAG"
    and "stof tiny (splitStr gga COMMA_SEPARATOR ! 1) = Some t"
  shows "nmea_line tiny mk gga (found, candidate, n) =
    (let (found, candidate, n) =
       (if fp_greater (fp_sub double (convert double t) (Num 0)) TIMESTAMP_EPSILON \<and> isValidFix candidate
        then (candidate, reset candidate, n + 1) else (found, candidate, n))
     in map_option (\<lambda>candidate. (found, candidate, n))
          (parseGGALine tiny (splitStr gga COMMA_SEPARATOR) (candidate\<lparr>fixId := n\<rparr>)))"
proof -
  have "has_tag GPGA_RECORD_TAG gga" using assms by (intro first_field_tag) (auto simp: MIN_COL_NUM_def)
  then show ?thesis using assms by (auto simp: nmea_line_def Let_def map_conv_bind_option comp_def)
qed

lemma rmc_line:
  assumes "MIN_COL_NUM \<le> length (splitStr rmc COMMA_SEPARATOR)" "splitStr rmc COMMA_SEPARATOR ! 0 = GPRMC_RECORD_TAG"
    and "stof tiny (splitStr rmc COMMA_SEPARATOR ! 1) = Some t" and "\<not> isValidFix candidate"
  shows "nmea_line tiny mk rmc (found, candidate, n) =
     map_option (\<lambda>candidate. (found, candidate, n)) (parseRMCLine tiny mk (splitStr rmc COMMA_SEPARATOR) candidate)"
proof -
  have "has_tag GPRMC_RECORD_TAG rmc" using assms by (intro first_field_tag) (auto simp: MIN_COL_NUM_def)
  with tags_differ assms show ?thesis by (auto simp: nmea_line_def Let_def map_conv_bind_option comp_def)
qed

text \<open>
  C35. When the text ends with a GGA and an RMC sentence whose fields can be read (the dilution of
  precision, the speed and the bearing may also be empty), the GGA at a time above the epsilon, and
  the sentences before can be read and leave a fix begun with both of its sentences or with none,
  the location is that of the last two sentences: the latitude is positive in the north and the
  longitude in the east, whatever the comments of the code say, and the accuracies are constants.
  The dilution of precision is read but not reported.
\<close>

theorem latest_fix_reported:
  assumes "splitStr inputStr LINE_SEPARATOR = ls @ [gga, rmc]"
    and "splitStr gga COMMA_SEPARATOR = G" "MIN_COL_NUM \<le> length G" "G ! 0 = GPGA_RECORD_TAG"
    and "splitStr rmc COMMA_SEPARATOR = R" "MIN_COL_NUM \<le> length R" "R ! 0 = GPRMC_RECORD_TAG"
    and "stof tiny (G ! 1) = Some tg" "fp_greater (fp_sub double (convert double tg) (Num 0)) TIMESTAMP_EPSILON"
    and "stof tiny (R ! 1) = Some tr"
    and "nmea_lines tiny mk ls (NmeaFixInfo_new g1, NmeaFixInfo_new g2, 0) = Some (found, candidate, n)"
    and "hasGMCRecord candidate = hasGGARecord candidate"
    and "degrees tiny (G ! 2) 2 = Some lat" "degrees tiny (G ! 4) 3 = Some lng" "stof tiny (G ! 9) = Some altitude"
    and "checkAndConvertToFloat tiny (G ! 8) = Some dop" and "checkAndConvertToFloat tiny (R ! 7) = Some speed"
    and "checkAndConvertToFloat tiny (R ! 8) = Some bearing" "nmeaPartsToTimestamp mk (R ! 1) (R ! 9) = Some time"
  shows "getLocationFromInputStr tiny mk now g1 g2 inputStr = Some (Some
     \<lparr>gnssLocationFlags = 0xFF, latitudeDegrees = (if G ! 3 = ''N'' then lat else fp_neg lat),
      longitudeDegrees = (if G ! 5 = ''E'' then lng else fp_neg lng), loc_altitudeMeters = altitude,
      loc_speedMetersPerSec = speed, loc_bearingDegrees = bearing, horizontalAccuracyMeters = Num 5,
      verticalAccuracyMeters = Num 5, speedAccuracyMetersPerSecond = Num 1, bearingAccuracyDegrees = Num 90,
      loc_timestamp = time, timestampNs = of_int now, timeUncertaintyNs = 1000000\<rparr>)"
proof -
  define start where "start = (if isValidFix candidate then (candidate, reset candidate, n + 1) else (found, candidate, n))"
  obtain found' cand' n' where start: "start = (found', cand', n')" by (cases start)
  then have none: "\<not> hasGMCRecord cand'"
    using assms(12) by (auto simp: start_def isValidFix_def reset_def split: if_splits)
  let ?gga = "cand'\<lparr>fixId := n', latDeg := if G ! 3 \<noteq> ''N'' then fp_neg lat else lat,
     lngDeg := if G ! 5 \<noteq> ''E'' then fp_neg lng else lng, altitudeMeters := altitude, hDop := dop, hasGGARecord := True\<rparr>"
  let ?rmc = "?gga\<lparr>speedMetersPerSec := speed, bearingDegrees := bearing, timestamp := time, hasGMCRecord := True\<rparr>"
  have dop: "(if G ! 8 = '''' then Some NaN else stof tiny (G ! 8)) = Some dop"
    using assms(16) by (simp only: checkAndConvertToFloat_def)
  have "length G \<noteq> 0" using assms(3) by (auto simp: MIN_COL_NUM_def)
  then have "parseGGALine tiny G (cand'\<lparr>fixId := n'\<rparr>) = Some ?gga"
    using assms(4,13-15) unfolding parseGGALine_def dop by (simp add: Let_def)
  then have "nmea_line tiny mk gga (found, candidate, n) = Some (found', ?gga, n')"
    using gga_line [of gga tiny tg mk found candidate n] assms(2-4,8,9) start [unfolded start_def]
    by (simp add: Let_def)
  moreover have "nmea_line tiny mk rmc (found', ?gga, n') = Some (found', ?rmc, n')"
    using rmc_line [of rmc tiny tr ?gga mk found' n'] assms none
    by (auto simp: isValidFix_def parseRMCLine_def MIN_COL_NUM_def)
  ultimately have "nmea_lines tiny mk (splitStr inputStr LINE_SEPARATOR) (NmeaFixInfo_new g1, NmeaFixInfo_new g2, 0) =
      Some (found', ?rmc, n')"
    using assms(1,11) by (simp add: nmea_lines_append)
  then show ?thesis
    by (simp add: getLocationFromInputStr_def last_fix_def isValidFix_def toGnssLocation_def
        kMockHorizontalAccuracyMeters_def kMockVerticalAccuracyMeters_def
        kMockSpeedAccuracyMetersPerSecond_def kMockBearingAccuracyDegrees_def)
qed


section \<open>Witnesses\<close>

definition demo_gga :: string where
  "demo_gga = ''$GPGGA,213204.00,3725.371240,N,12205.589239,W,7,,0.6,200.0,M,,M,1''"

definition demo_rmc :: string where
  "demo_rmc = ''$GPRMC,213204.00,A,3725.371240,N,12205.589239,W,000.0,000.0,290819,,,A*49''"

definition demo_text :: string where "demo_text = demo_gga @ [CHR 0x0A] @ demo_rmc"

lemma demo_lines: "splitStr demo_text LINE_SEPARATOR = [demo_gga, demo_rmc]"
  by (simp add: demo_text_def demo_gga_def demo_rmc_def LINE_SEPARATOR_def splitStr.simps)

lemma sentence_fields:
  "splitStr demo_gga COMMA_SEPARATOR =
     [''$GPGGA'', ''213204.00'', ''3725.371240'', ''N'', ''12205.589239'', ''W'', ''7'', '''', ''0.6'', ''200.0'', ''M'', '''', ''M'', ''1'']"
  "splitStr demo_rmc COMMA_SEPARATOR =
     [''$GPRMC'', ''213204.00'', ''A'', ''3725.371240'', ''N'', ''12205.589239'', ''W'', ''000.0'', ''000.0'', ''290819'', '''', '''', ''A*49'']"
  by (simp_all add: demo_gga_def demo_rmc_def COMMA_SEPARATOR_def splitStr.simps)

lemma demo_degrees:
  "degrees tiny ''3725.371240'' 2 = Some (Num (9810177 / 262144))"
  "degrees tiny ''12205.589239'' 3 = Some (Num (8001497 / 65536))"
  by (simp_all add: degrees_def float_eval Let_def)

text \<open>A receiver without a position, and the text above.\<close>

definition lost_gga :: string where
  "lost_gga = ''$GPGGA,213204.00,,N,,W,0,,,,M,,M,1''"

lemma lost_lines: "splitStr lost_gga LINE_SEPARATOR = [lost_gga]"
  by (simp add: lost_gga_def LINE_SEPARATOR_def splitStr.simps)

lemma lost_fields:
  "splitStr lost_gga COMMA_SEPARATOR =
     [''$GPGGA'', ''213204.00'', '''', ''N'', '''', ''W'', ''0'', '''', '''', '''', ''M'', '''', ''M'', ''1'']"
  by (simp add: lost_gga_def COMMA_SEPARATOR_def splitStr.simps)

theorem gga_without_position_throws_witness:
  "getLocationFromInputStr (\<lambda>x. False) tm_year 0
     \<lparr>altitudeMeters = Num 0, bearingDegrees = Num 0, fixId = 0, hasGMCRecord = False, hasGGARecord = False,
      hDop = Num 0, vDop = Num 0, latDeg = Num 0, lngDeg = Num 0, satelliteCount = 0, speedMetersPerSec = Num 0,
      timestamp = 0\<rparr>
     \<lparr>altitudeMeters = Num 0, bearingDegrees = Num 0, fixId = 0, hasGMCRecord = False, hasGGARecord = False,
      hDop = Num 0, vDop = Num 0, latDeg = Num 0, lngDeg = Num 0, satelliteCount = 0, speedMetersPerSec = Num 0,
      timestamp = 0\<rparr> lost_gga = None"
  by (rule gga_without_position_throws [where line = lost_gga])
    (simp_all add: lost_lines lost_fields MIN_COL_NUM_def GPGA_RECORD_TAG_def)

lemma demo_numbers:
  "stof tiny ''213204.00'' = Some (Num 213204)" "stof tiny ''200.0'' = Some (Num 200)"
  "stof tiny ''000.0'' = Some (Num 0)" "stof tiny ''0.6'' = Some (Num (5033165 / 8388608))"
  "fp_greater (fp_sub double (convert double (Num 213204)) (Num 0)) TIMESTAMP_EPSILON"
  by (simp_all add: TIMESTAMP_EPSILON_def float_eval Let_def)

lemma demo_timestamp:
  "nmeaPartsToTimestamp mk ''213204.00'' ''290819'' =
     Some (mk \<lparr>tm_mday = 29, tm_mon = 7, tm_year = 119, tm_hour = 21, tm_min = 32, tm_sec = 4\<rparr>)"
  by (simp add: nmeaPartsToTimestamp_def two_digits_def float_eval Let_def)

theorem latest_fix_reported_witness:
  "\<forall>now g1 g2. getLocationFromInputStr (\<lambda>x. False) tm_year now g1 g2 demo_text = Some (Some
     \<lparr>gnssLocationFlags = 0xFF, latitudeDegrees = Num (9810177 / 262144),
      longitudeDegrees = Num (- 8001497 / 65536), loc_altitudeMeters = Num 200,
      loc_speedMetersPerSec = Num 0, loc_bearingDegrees = Num 0, horizontalAccuracyMeters = Num 5,
      verticalAccuracyMeters = Num 5, speedAccuracyMetersPerSecond = Num 1, bearingAccuracyDegrees = Num 90,
      loc_timestamp = 119, timestampNs = of_int now, timeUncertaintyNs = 1000000\<rparr>)"
  (is "\<forall>now g1 g2. ?P now g1 g2")
proof (intro allI)
  fix now :: int and g1 g2 :: nmea
  show "?P now g1 g2"
    using latest_fix_reported [of demo_text "[]" demo_gga demo_rmc, OF _ sentence_fields(1) _ _ sentence_fields(2),
        of "\<lambda>x. False" "Num 213204" "Num 213204" tm_year g1 g2 "NmeaFixInfo_new g1" "NmeaFixInfo_new g2" 0
          "Num (9810177 / 262144)" "Num (8001497 / 65536)" "Num 200" "Num (5033165 / 8388608)" "Num 0" "Num 0" 119 now]
    by (simp add: demo_lines demo_numbers demo_degrees demo_timestamp checkAndConvertToFloat_def MIN_COL_NUM_def
        GPGA_RECORD_TAG_def GPRMC_RECORD_TAG_def NmeaFixInfo_new_def)
qed

end
