(* ===== verification/Locations.thy ===== *)
theory Locations
  imports Nmea World
begin

text \<open>
  The locations the GNSS service reports (\<open>getLocationFromHW\<close>, \<open>setLocation\<close> and \<open>debug\<close> of
  \<open>gps/gnss/common/utils/default/include/v2_1/GnssTemplate.h\<close>, \<open>MockLocation.cpp\<close>, and
  \<open>getMockLocation\<close> of \<open>Utils.cpp\<close>).  An inner \<open>None\<close> is an exception; an outer one is a file that
  is read for ever.  The globals of the mock location are passed as a record.
\<close>

section \<open>The mock location\<close>

definition kMockTimestamp :: int where "kMockTimestamp = 1519930775453"

record mock_location =
  gMockLatitudeDegrees :: fp
  gMockLongitudeDegrees :: fp
  gMockAltitudeMeters :: fp
  gMockBearingDegrees :: fp
  gMockSpeedMetersPerSec :: fp

definition mock_location_init :: mock_location where
  "mock_location_init =
     \<lparr>gMockLatitudeDegrees = round_fp single False (374219999 / 10 ^ 7),
      gMockLongitudeDegrees = round_fp single False (- 1220840575 / 10 ^ 7),
      gMockAltitudeMeters = round_fp single False (160062531 / 10 ^ 8),
      gMockBearingDegrees = Num 0, gMockSpeedMetersPerSec = Num 0\<rparr>"

text \<open>
  The location of version 1.0 has no elapsed time; its fields are 0 here.  The timestamp is computed in
  double precision and truncated.
\<close>

definition getMockLocationV1_0 :: "mock_location \<Rightarrow> int \<Rightarrow> gnss_location" where
  "getMockLocationV1_0 g elapsed =
     \<lparr>gnssLocationFlags = 0xFF, latitudeDegrees = gMockLatitudeDegrees g, longitudeDegrees = gMockLongitudeDegrees g,
      loc_altitudeMeters = gMockAltitudeMeters g, loc_speedMetersPerSec = gMockSpeedMetersPerSec g,
      loc_bearingDegrees = gMockBearingDegrees g, horizontalAccuracyMeters = kMockHorizontalAccuracyMeters,
      verticalAccuracyMeters = kMockVerticalAccuracyMeters,
      speedAccuracyMetersPerSecond = kMockSpeedAccuracyMetersPerSecond,
      bearingAccuracyDegrees = kMockBearingAccuracyDegrees,
      loc_timestamp = fp_truncate (fp_add double (round_fp double False (of_int kMockTimestamp))
        (fp_div_const double (round_fp double False (of_int elapsed)) 1000000)),
      timestampNs = 0, timeUncertaintyNs = 0\<rparr>"

definition getMockLocationV2_0 :: "mock_location \<Rightarrow> int \<Rightarrow> int \<Rightarrow> gnss_location" where
  "getMockLocationV2_0 g elapsed elapsed' =
     (getMockLocationV1_0 g elapsed')\<lparr>timestampNs := of_int elapsed, timeUncertaintyNs := 1000000\<rparr>"

section \<open>The location of the device file\<close>

definition GNSS_PATH :: string where "GNSS_PATH = ''/data/vendor/gps/gnss''"
definition INPUT_BUFFER_SIZE :: nat where "INPUT_BUFFER_SIZE = 128"
definition O_RDONLY :: int where "O_RDONLY = 0"

text \<open>The buffer is cleared before every \<open>read\<close>.\<close>

partial_function (option) read_input :: "kernel \<Rightarrow> int \<Rightarrow> string \<Rightarrow> trace \<Rightarrow> (string \<times> trace) option" where
  "read_input k fd inputStr t =
     (let (a, t) = run_state (sys k (ReadFile fd INPUT_BUFFER_SIZE)) t; bytes_read = ret a
      in if bytes_read \<le> 0 then Some (inputStr, t)
         else let inputBuffer = store (\<lambda>_. 0) 0 (take INPUT_BUFFER_SIZE (data a))
           in read_input k fd (inputStr @ bytes_string (load inputBuffer 0 (nat bytes_read))) t)"

text \<open>One line of the file: the local variables of the function are the fields of the location.\<close>

definition with_float :: "(real \<Rightarrow> bool) \<Rightarrow> string \<Rightarrow> string \<Rightarrow> (fp \<Rightarrow> gnss_location) \<Rightarrow> gnss_location option" where
  "with_float tiny key item f = map_option f (stof tiny (drop (length key) item))"

definition location_line :: "(real \<Rightarrow> bool) \<Rightarrow> string \<Rightarrow> gnss_location \<Rightarrow> gnss_location option" where
  "location_line tiny item l =
     (if has_tag ''LatitudeDegrees='' item then
        with_float tiny ''LatitudeDegrees='' item (\<lambda>v. l\<lparr>latitudeDegrees := v\<rparr>)
      else if has_tag ''LongitudeDegrees='' item then
        with_float tiny ''LongitudeDegrees='' item (\<lambda>v. l\<lparr>longitudeDegrees := v\<rparr>)
      else if has_tag ''AltitudeMeters='' item then
        with_float tiny ''AltitudeMeters='' item (\<lambda>v. l\<lparr>loc_altitudeMeters := v\<rparr>)
      else if has_tag ''SpeedMetersPerSec='' item then
        with_float tiny ''SpeedMetersPerSec='' item (\<lambda>v. l\<lparr>loc_speedMetersPerSec := v\<rparr>)
      else if has_tag ''BearingDegrees='' item then
        with_float tiny ''BearingDegrees='' item (\<lambda>v. l\<lparr>loc_bearingDegrees := v\<rparr>)
      else if has_tag ''HorizontalAccuracyMeters='' item then
        with_float tiny ''HorizontalAccuracyMeters='' item (\<lambda>v. l\<lparr>horizontalAccuracyMeters := v\<rparr>)
      else if has_tag ''VerticalAccuracyMeters='' item then
        with_float tiny ''VerticalAccuracyMeters='' item (\<lambda>v. l\<lparr>verticalAccuracyMeters := v\<rparr>)
      else if has_tag ''SpeedAccuracyMetersPerSecond='' item then
        with_float tiny ''SpeedAccuracyMetersPerSecond='' item (\<lambda>v. l\<lparr>speedAccuracyMetersPerSecond := v\<rparr>)
      else if has_tag ''BearingAccuracyDegrees='' item then
        with_float tiny ''BearingAccuracyDegrees='' item (\<lambda>v. l\<lparr>bearingAccuracyDegrees := v\<rparr>)
      else if has_tag ''Timestamp='' item then
        map_option (\<lambda>v. l\<lparr>loc_timestamp := v\<rparr>) (stol (drop (length ''Timestamp='') item))
      else Some l)"

fun location_lines :: "(real \<Rightarrow> bool) \<Rightarrow> string list \<Rightarrow> gnss_location \<Rightarrow> gnss_location option" where
  "location_lines tiny [] l = Some l"
| "location_lines tiny (item # items) l = do { l \<leftarrow> location_line tiny item l; location_lines tiny items l }"

text \<open>The local variables before the file is read.\<close>

definition location_default :: "mock_location \<Rightarrow> int \<Rightarrow> gnss_location" where
  "location_default g seconds =
     \<lparr>gnssLocationFlags = 0xFF, latitudeDegrees = gMockLatitudeDegrees g, longitudeDegrees = gMockLongitudeDegrees g,
      loc_altitudeMeters = gMockAltitudeMeters g, loc_speedMetersPerSec = gMockSpeedMetersPerSec g,
      loc_bearingDegrees = gMockBearingDegrees g, horizontalAccuracyMeters = kMockHorizontalAccuracyMeters,
      verticalAccuracyMeters = kMockVerticalAccuracyMeters,
      speedAccuracyMetersPerSecond = kMockSpeedAccuracyMetersPerSecond,
      bearingAccuracyDegrees = kMockBearingAccuracyDegrees, loc_timestamp = seconds,
      timestampNs = 0, timeUncertaintyNs = 0\<rparr>"

text \<open>\<open>elapsed\<close>: the location with the elapsed time of the end of the function.\<close>

definition elapsed_location :: "kernel \<Rightarrow> gnss_location \<Rightarrow> (trace, gnss_location) state" where
  "elapsed_location k l = do {
     a \<leftarrow> sys k ElapsedRealtimeNano;
     State_Monad.return (l\<lparr>timestampNs := of_int (ret a), timeUncertaintyNs := 1000000\<rparr>)
   }"

definition getLocationFromHW ::
  "kernel \<Rightarrow> (real \<Rightarrow> bool) \<Rightarrow> mock_location \<Rightarrow> trace \<Rightarrow> (gnss_location option \<times> trace) option" where
  "getLocationFromHW k tiny g t =
     (let (a, t) = run_state (sys k Time) t;
          l = location_default g (ret a - 1);
          (a, t) = run_state (sys k (OpenFile GNSS_PATH O_RDONLY 0)) t;
          gnss_fd = ret a
      in if gnss_fd \<noteq> -1 then do {
           (inputStr, t) \<leftarrow> read_input k gnss_fd '''' t;
           Some (case location_lines tiny (splitStr inputStr LINE_SEPARATOR) l of
                   None \<Rightarrow> (None, t)
                 | Some l \<Rightarrow> let (_, t) = run_state (sys k (Close gnss_fd)) t
                     in map_prod Some id (run_state (elapsed_location k l) t))
         }
         else Some (map_prod Some id (run_state (elapsed_location k l) t)))"

section \<open>The debug command\<close>

text \<open>\<open>%f\<close> of \<open>printf\<close>: six digits, correctly rounded.\<close>

definition percent_f :: "fp \<Rightarrow> string" where
  "percent_f a =
     (case a of
        Num x \<Rightarrow> let n = nat (half_even (\<bar>x\<bar> * 10 ^ 6)); frac = decimal (n mod 10 ^ 6)
          in (if x < 0 then ''-'' else '''') @ decimal (n div 10 ^ 6) @ ''.'' @ replicate (6 - length frac) (CHR ''0'') @ frac
      | NegZero \<Rightarrow> ''-0.000000''
      | Inf negative \<Rightarrow> (if negative then ''-inf'' else ''inf'')
      | NaN \<Rightarrow> ''nan'')"

text \<open>The options behind the first; the inner \<open>None\<close> is an option that is not supported.\<close>

definition location_option :: "(real \<Rightarrow> bool) \<Rightarrow> string \<Rightarrow> mock_location \<Rightarrow> mock_location option option" where
  "location_option tiny option g =
     (if has_tag ''lat='' option then Some (map_option (\<lambda>v. g\<lparr>gMockLatitudeDegrees := v\<rparr>) (stof tiny (drop 4 option)))
      else if has_tag ''lon='' option then Some (map_option (\<lambda>v. g\<lparr>gMockLongitudeDegrees := v\<rparr>) (stof tiny (drop 4 option)))
      else if has_tag ''ele='' option then Some (map_option (\<lambda>v. g\<lparr>gMockAltitudeMeters := v\<rparr>) (stof tiny (drop 4 option)))
      else if has_tag ''bea='' option then Some (map_option (\<lambda>v. g\<lparr>gMockBearingDegrees := v\<rparr>) (stof tiny (drop 4 option)))
      else if has_tag ''spd='' option then Some (map_option (\<lambda>v. g\<lparr>gMockSpeedMetersPerSec := v\<rparr>) (stof tiny (drop 4 option)))
      else None)"

definition dprintf :: "kernel \<Rightarrow> int \<Rightarrow> string \<Rightarrow> (trace, unit) state" where
  "dprintf k fd text = do { _ \<leftarrow> sys k (WriteFile fd (string_bytes text)); State_Monad.return () }"

fun location_options ::
  "kernel \<Rightarrow> (real \<Rightarrow> bool) \<Rightarrow> int \<Rightarrow> string list \<Rightarrow> mock_location \<Rightarrow> (trace, mock_location option) state" where
  "location_options k tiny fd [] g = State_Monad.return (Some g)"
| "location_options k tiny fd (option # options) g =
     (case location_option tiny option g of
        None \<Rightarrow> do {
          _ \<leftarrow> dprintf k fd (''unsupported location argument: '' @ takeWhile (\<lambda>c. c \<noteq> CHR 0x00) option @ [CHR 0x0A]);
          location_options k tiny fd options g
        }
      | Some None \<Rightarrow> State_Monad.return None
      | Some (Some g) \<Rightarrow> location_options k tiny fd options g)"

text \<open>The globals afterwards; whether the function throws is the second component.\<close>

definition setLocation ::
  "kernel \<Rightarrow> (real \<Rightarrow> bool) \<Rightarrow> int \<Rightarrow> string list \<Rightarrow> mock_location \<Rightarrow> (trace, mock_location \<times> bool) state" where
  "setLocation k tiny fd options g = do {
     values \<leftarrow> location_options k tiny fd (drop 1 options) g;
     case values of
       None \<Rightarrow> State_Monad.return (g, True)
     | Some g \<Rightarrow> do {
         _ \<leftarrow> dprintf k fd (''mock location updated to lat='' @ percent_f (gMockLatitudeDegrees g) @
                '' lon='' @ percent_f (gMockLongitudeDegrees g) @ '' ele='' @ percent_f (gMockAltitudeMeters g) @
                '' bea='' @ percent_f (gMockBearingDegrees g) @ '' spd='' @ percent_f (gMockSpeedMetersPerSec g) @
                [CHR 0x0A]);
         State_Monad.return (g, False)
       }
   }"

definition GnssTemplate_help :: "kernel \<Rightarrow> int \<Rightarrow> (trace, unit) state" where
  "GnssTemplate_help k fd = dprintf k fd (''invalid option for Gnss HAL; valid options are:'' @ [CHR 0x0A] @
     ''location [lat=..] [lon=..] [ele=..] [bea=..] [spd=..]'' @ [CHR 0x0A])"

text \<open>The handle: \<open>None\<close> is the null pointer, else its descriptors.\<close>

definition debug ::
  "kernel \<Rightarrow> (real \<Rightarrow> bool) \<Rightarrow> int list option \<Rightarrow> string list \<Rightarrow> mock_location \<Rightarrow> (trace, mock_location \<times> bool) state" where
  "debug k tiny handle options g =
     (case handle of
        None \<Rightarrow> State_Monad.return (g, False)
      | Some [] \<Rightarrow> State_Monad.return (g, False)
      | Some (fd # _) \<Rightarrow>
          if length options = 0 then do { _ \<leftarrow> GnssTemplate_help k fd; State_Monad.return (g, False) }
          else if options ! 0 = ''location'' then setLocation k tiny fd options g
          else do { _ \<leftarrow> GnssTemplate_help k fd; State_Monad.return (g, False) })"


section \<open>What is read\<close>

text \<open>The values a file gives for a key, in the order of its lines.\<close>

definition given :: "string \<Rightarrow> string list \<Rightarrow> string list" where
  "given key items = map (drop (length key)) (filter (has_tag key) items)"

definition readable :: "(string \<Rightarrow> 'a option) \<Rightarrow> string \<Rightarrow> string list \<Rightarrow> bool" where
  "readable f key items \<longleftrightarrow> (\<forall>v \<in> set (given key items). f v \<noteq> None)"

definition last_value :: "(string \<Rightarrow> 'a option) \<Rightarrow> string \<Rightarrow> string list \<Rightarrow> 'a \<Rightarrow> 'a" where
  "last_value f key items d = (if given key items = [] then d else the (f (last (given key items))))"

lemma given_simps [simp]:
  "given key [] = []"
  "given key (item # items) = (if has_tag key item then drop (length key) item # given key items else given key items)"
  by (simp_all add: given_def)

lemma readable_simps [simp]:
  "readable f key []"
  "readable f key (item # items) \<longleftrightarrow> (has_tag key item \<longrightarrow> f (drop (length key) item) \<noteq> None) \<and> readable f key items"
  by (auto simp: readable_def)

lemma last_value_simps [simp]:
  "last_value f key [] d = d"
  "last_value f key (item # items) d =
     last_value f key items (if has_tag key item then the (f (drop (length key) item)) else d)"
  by (simp_all add: last_value_def)

text \<open>A line has one key, so that the order in which the code asks for the keys does not matter.\<close>

definition line_key :: "string \<Rightarrow> string option" where
  "line_key item = (if CHR ''='' \<in> set item then Some (takeWhile (\<lambda>c. c \<noteq> CHR ''='') item) else None)"

lemma has_tag_key: "CHR ''='' \<notin> set name \<Longrightarrow> has_tag (name @ ''='') item \<longleftrightarrow> line_key item = Some name"
proof (induction name arbitrary: item)
  case Nil
  then show ?case by (cases item) (auto simp: has_tag_def line_key_def)
next
  case (Cons c name)
  then show ?case by (cases item) (auto simp: has_tag_def line_key_def split: if_splits)
qed

lemmas has_key =
  has_tag_key [of "''LatitudeDegrees''", simplified] has_tag_key [of "''LongitudeDegrees''", simplified]
  has_tag_key [of "''AltitudeMeters''", simplified] has_tag_key [of "''SpeedMetersPerSec''", simplified]
  has_tag_key [of "''BearingDegrees''", simplified] has_tag_key [of "''HorizontalAccuracyMeters''", simplified]
  has_tag_key [of "''VerticalAccuracyMeters''", simplified] has_tag_key [of "''SpeedAccuracyMetersPerSecond''", simplified]
  has_tag_key [of "''BearingAccuracyDegrees''", simplified] has_tag_key [of "''Timestamp''", simplified]

definition float_keys :: "string list" where
  "float_keys = [''LatitudeDegrees='', ''LongitudeDegrees='', ''AltitudeMeters='', ''SpeedMetersPerSec='',
     ''BearingDegrees='', ''HorizontalAccuracyMeters='', ''VerticalAccuracyMeters='',
     ''SpeedAccuracyMetersPerSecond='', ''BearingAccuracyDegrees='']"

definition file_readable :: "(real \<Rightarrow> bool) \<Rightarrow> string list \<Rightarrow> bool" where
  "file_readable tiny items \<longleftrightarrow>
     (\<forall>key \<in> set float_keys. readable (stof tiny) key items) \<and> readable stol ''Timestamp='' items"

definition file_values :: "(real \<Rightarrow> bool) \<Rightarrow> string list \<Rightarrow> gnss_location \<Rightarrow> gnss_location" where
  "file_values tiny items l =
     (let value = (\<lambda>key. last_value (stof tiny) key items)
      in l\<lparr>latitudeDegrees := value ''LatitudeDegrees='' (latitudeDegrees l),
           longitudeDegrees := value ''LongitudeDegrees='' (longitudeDegrees l),
           loc_altitudeMeters := value ''AltitudeMeters='' (loc_altitudeMeters l),
           loc_speedMetersPerSec := value ''SpeedMetersPerSec='' (loc_speedMetersPerSec l),
           loc_bearingDegrees := value ''BearingDegrees='' (loc_bearingDegrees l),
           horizontalAccuracyMeters := value ''HorizontalAccuracyMeters='' (horizontalAccuracyMeters l),
           verticalAccuracyMeters := value ''VerticalAccuracyMeters='' (verticalAccuracyMeters l),
           speedAccuracyMetersPerSecond := value ''SpeedAccuracyMetersPerSecond='' (speedAccuracyMetersPerSecond l),
           bearingAccuracyDegrees := value ''BearingAccuracyDegrees='' (bearingAccuracyDegrees l),
           loc_timestamp := last_value stol ''Timestamp='' items (loc_timestamp l)\<rparr>)"

lemma line_throws: "location_line tiny item l = None \<Longrightarrow> \<not> file_readable tiny (item # items)"
  by (auto simp: location_line_def with_float_def file_readable_def float_keys_def split: if_splits)

lemma line_readable:
  "location_line tiny item l = Some l' \<Longrightarrow> file_readable tiny (item # items) = file_readable tiny items"
  by (auto simp: location_line_def with_float_def file_readable_def float_keys_def has_key split: if_splits)

lemma line_values:
  "location_line tiny item l = Some l' \<Longrightarrow> file_values tiny (item # items) l = file_values tiny items l'"
  by (simp only: location_line_def with_float_def split: if_split_asm; clarsimp simp: file_values_def has_key)

lemma location_lines_eq:
  "location_lines tiny items l = (if file_readable tiny items then Some (file_values tiny items l) else None)"
proof (induction items arbitrary: l)
  case Nil
  show ?case by (simp add: file_readable_def file_values_def)
next
  case (Cons item items)
  then show ?case by (cases "location_line tiny item l") (simp_all add: line_throws line_readable line_values)
qed

lemmas mock_accuracies = kMockHorizontalAccuracyMeters_def kMockVerticalAccuracyMeters_def
  kMockSpeedAccuracyMetersPerSecond_def kMockBearingAccuracyDegrees_def

text \<open>
  C37. The location the service reports from its device file: for every field the last line that gives
  it counts, whatever the order of the lines and whatever else the file holds.  A coordinate, speed
  or bearing no line gives is that of the mock location, an accuracy no line gives is the constant
  of the mock locations, and a missing timestamp is one second before \<open>time\<close>.  A single value that
  is no number, in any line, makes the reporting thread throw with the file still open.
\<close>

theorem hardware_location:
  assumes "ret (k (t @ [Time, OpenFile GNSS_PATH O_RDONLY 0])) = fd" "fd \<noteq> -1"
    and "read_input k fd '''' (t @ [Time, OpenFile GNSS_PATH O_RDONLY 0]) = Some (inputStr, t')"
    and "items = splitStr inputStr LINE_SEPARATOR"
  shows "getLocationFromHW k tiny g t =
    Some (if file_readable tiny items
      then
        let value = (\<lambda>key. last_value (stof tiny) key items)
        in (Some \<lparr>gnssLocationFlags = 0xFF,
              latitudeDegrees = value ''LatitudeDegrees='' (gMockLatitudeDegrees g),
              longitudeDegrees = value ''LongitudeDegrees='' (gMockLongitudeDegrees g),
              loc_altitudeMeters = value ''AltitudeMeters='' (gMockAltitudeMeters g),
              loc_speedMetersPerSec = value ''SpeedMetersPerSec='' (gMockSpeedMetersPerSec g),
              loc_bearingDegrees = value ''BearingDegrees='' (gMockBearingDegrees g),
              horizontalAccuracyMeters = value ''HorizontalAccuracyMeters='' (Num 5),
              verticalAccuracyMeters = value ''VerticalAccuracyMeters='' (Num 5),
              speedAccuracyMetersPerSecond = value ''SpeedAccuracyMetersPerSecond='' (Num 1),
              bearingAccuracyDegrees = value ''BearingAccuracyDegrees='' (Num 90),
              loc_timestamp = last_value stol ''Timestamp='' items (ret (k (t @ [Time])) - 1),
              timestampNs = of_int (ret (k (t' @ [Close fd, ElapsedRealtimeNano]))),
              timeUncertaintyNs = 1000000\<rparr>,
            t' @ [Close fd, ElapsedRealtimeNano])
      else (None, t'))"
  using assms by (simp add: getLocationFromHW_def elapsed_location_def location_lines_eq file_values_def
      location_default_def mock_accuracies Let_def)

text \<open>A file without a final newline, whose first line is overridden.\<close>

definition demo_file :: string where
  "demo_file = ''LatitudeDegrees=1'' @ [CHR 0x0A] @ ''Timestamp=7'' @ [CHR 0x0A] @ ''LatitudeDegrees=-2.5''"

definition demo_kernel :: kernel where
  "demo_kernel t =
     (if last t = OpenFile GNSS_PATH O_RDONLY 0 then idle_answer\<lparr>ret := 3\<rparr>
      else if t = [Time, OpenFile GNSS_PATH O_RDONLY 0, ReadFile 3 128]
        then idle_answer\<lparr>ret := int (length demo_file), data := string_bytes demo_file\<rparr>
      else idle_answer)"

lemma demo_read:
  "read_input demo_kernel 3 '''' [Time, OpenFile GNSS_PATH O_RDONLY 0] =
     Some (demo_file, [Time, OpenFile GNSS_PATH O_RDONLY 0, ReadFile 3 128, ReadFile 3 128])"
proof -
  have "length demo_file = 50" by (simp add: demo_file_def)
  moreover have "load (store (\<lambda>_. 0) 0 (string_bytes demo_file)) 0 50 = string_bytes demo_file"
    using calculation by (simp add: load_store_same)
  ultimately show ?thesis
    by (simp add: read_input.simps demo_kernel_def INPUT_BUFFER_SIZE_def idle_answer_def GNSS_PATH_def Let_def)
qed

lemma demo_items:
  "splitStr demo_file LINE_SEPARATOR = [''LatitudeDegrees=1'', ''Timestamp=7'', ''LatitudeDegrees=-2.5'']"
  by (simp add: demo_file_def LINE_SEPARATOR_def splitStr.simps)

lemma demo_values:
  "file_readable tiny [''LatitudeDegrees=1'', ''Timestamp=7'', ''LatitudeDegrees=-2.5'']"
  "file_values tiny [''LatitudeDegrees=1'', ''Timestamp=7'', ''LatitudeDegrees=-2.5''] l =
     l\<lparr>latitudeDegrees := Num (- 5 / 2), loc_timestamp := 7\<rparr>"
  by (simp_all add: file_readable_def file_values_def float_keys_def has_tag_def float_eval Let_def)

text \<open>A mock location whose five numbers differ, to tell the defaults apart.\<close>

definition demo_mock :: mock_location where
  "demo_mock = \<lparr>gMockLatitudeDegrees = Num 10, gMockLongitudeDegrees = Num 20, gMockAltitudeMeters = Num 30,
     gMockBearingDegrees = Num 40, gMockSpeedMetersPerSec = Num 50\<rparr>"

lemma demo_last_values:
  defines "items \<equiv> [''LatitudeDegrees=1'', ''Timestamp=7'', ''LatitudeDegrees=-2.5'']"
  shows "last_value (stof tiny) ''LatitudeDegrees='' items d = Num (- 5 / 2)"
    "last_value (stof tiny) ''LongitudeDegrees='' items d = d" "last_value (stof tiny) ''AltitudeMeters='' items d = d"
    "last_value (stof tiny) ''SpeedMetersPerSec='' items d = d" "last_value (stof tiny) ''BearingDegrees='' items d = d"
    "last_value stol ''Timestamp='' items x = 7"
  by (simp_all add: items_def has_tag_def float_eval Let_def)

theorem hardware_location_witness:
  "map_option (map_option (\<lambda>l. (latitudeDegrees l, longitudeDegrees l, loc_altitudeMeters l, loc_bearingDegrees l,
      loc_speedMetersPerSec l, loc_timestamp l)) \<circ> fst)
     (getLocationFromHW demo_kernel (\<lambda>x. False) demo_mock []) =
   Some (Some (Num (- 5 / 2), Num 20, Num 30, Num 40, Num 50, 7))"
proof -
  let ?t = "[Time, OpenFile GNSS_PATH O_RDONLY 0]"
  have "ret (demo_kernel ([] @ ?t)) = 3" by (simp add: demo_kernel_def)
  from hardware_location [where k = demo_kernel and t = "[]" and fd = 3 and tiny = "\<lambda>x. False" and
      g = demo_mock, OF this _ _ refl] demo_read
  show ?thesis
    by (simp add: demo_items demo_values demo_last_values demo_mock_def Let_def del: last_value_simps)
qed

section \<open>The debug command\<close>

definition option_values :: "(real \<Rightarrow> bool) \<Rightarrow> string list \<Rightarrow> mock_location \<Rightarrow> mock_location" where
  "option_values tiny options g =
     (let value = (\<lambda>key. last_value (stof tiny) key options)
      in \<lparr>gMockLatitudeDegrees = value ''lat='' (gMockLatitudeDegrees g),
          gMockLongitudeDegrees = value ''lon='' (gMockLongitudeDegrees g),
          gMockAltitudeMeters = value ''ele='' (gMockAltitudeMeters g),
          gMockBearingDegrees = value ''bea='' (gMockBearingDegrees g),
          gMockSpeedMetersPerSec = value ''spd='' (gMockSpeedMetersPerSec g)\<rparr>)"

definition options_readable :: "(real \<Rightarrow> bool) \<Rightarrow> string list \<Rightarrow> bool" where
  "options_readable tiny options \<longleftrightarrow>
     (\<forall>key \<in> {''lat='', ''lon='', ''ele='', ''bea='', ''spd=''}. readable (stof tiny) key options)"

lemmas has_option =
  has_tag_key [of "''lat''", simplified] has_tag_key [of "''lon''", simplified] has_tag_key [of "''ele''", simplified]
  has_tag_key [of "''bea''", simplified] has_tag_key [of "''spd''", simplified]

lemma option_cases:
  "location_option tiny item g = None \<Longrightarrow>
     options_readable tiny (item # options) = options_readable tiny options \<and>
     option_values tiny (item # options) g = option_values tiny options g"
  "location_option tiny item g = Some None \<Longrightarrow> \<not> options_readable tiny (item # options)"
  "location_option tiny item g = Some (Some g') \<Longrightarrow>
     options_readable tiny (item # options) = options_readable tiny options \<and>
     option_values tiny (item # options) g = option_values tiny options g'"
  by (auto simp: location_option_def options_readable_def option_values_def has_option eval_nat_numeral split: if_splits)

lemma location_options_eq:
  "fst (run_state (location_options k tiny fd options g) t) =
     (if options_readable tiny options then Some (option_values tiny options g) else None)"
proof (induction options arbitrary: g t)
  case Nil
  show ?case by (simp add: options_readable_def option_values_def)
next
  case (Cons item options)
  then show ?case
    by (cases "location_option tiny item g"; cases "the (location_option tiny item g)")
      (auto simp: option_cases dprintf_def split: prod.splits)
qed

lemma debug_values:
  "fst (run_state (debug k tiny handle options g) t) =
     (case handle of
        Some (fd # _) \<Rightarrow>
          if options \<noteq> [] \<and> hd options = ''location''
          then if options_readable tiny (tl options) then (option_values tiny (tl options) g, False) else (g, True)
          else (g, False)
      | _ \<Rightarrow> (g, False))"
proof -
  have "fst (run_state (setLocation k tiny fd options g) t) =
      (if options_readable tiny (tl options) then (option_values tiny (tl options) g, False) else (g, True))" for fd
    using location_options_eq [of k tiny fd "tl options" g t]
    by (auto simp: setLocation_def drop_Suc dprintf_def split: prod.splits option.splits if_splits)
  then show ?thesis
    by (auto simp: debug_def hd_conv_nth GnssTemplate_help_def dprintf_def split: option.splits list.splits prod.splits)
qed

text \<open>
  C38. \<open>debug\<close> with \<open>location\<close> and arguments changes all or nothing: when every value of a known argument
  is a number, the mock location takes the last value of each, and keeps what is not given; unknown
  arguments are skipped; when a single one is no number, the command throws and nothing has changed.
  Every other command changes nothing.
\<close>

theorem debug_changes_all_or_nothing:
  "fst (run_state (debug k tiny handle options g) t) =
     (case handle of
        Some (fd # _) \<Rightarrow>
          if options \<noteq> [] \<and> hd options = ''location''
          then if options_readable tiny (tl options) then (option_values tiny (tl options) g, False) else (g, True)
          else (g, False)
      | _ \<Rightarrow> (g, False))"
  by (rule debug_values)

text \<open>
  What the debug command sets is what the service then reports when it has no device file: each of
  the five coordinates is the last value given for it, or what it was before.
\<close>

theorem debug_location_reported:
  assumes "options_readable tiny options"
    and "run_state (debug k tiny (Some (fd # fds)) (''location'' # options) g) t = ((g', threw), t')"
    and "ret (k (t' @ [Time, OpenFile GNSS_PATH O_RDONLY 0])) = -1"
  shows "\<exists>l t''. getLocationFromHW k tiny g' t' = Some (Some l, t'') \<and>
    latitudeDegrees l = last_value (stof tiny) ''lat='' options (gMockLatitudeDegrees g) \<and>
    longitudeDegrees l = last_value (stof tiny) ''lon='' options (gMockLongitudeDegrees g) \<and>
    loc_altitudeMeters l = last_value (stof tiny) ''ele='' options (gMockAltitudeMeters g) \<and>
    loc_bearingDegrees l = last_value (stof tiny) ''bea='' options (gMockBearingDegrees g) \<and>
    loc_speedMetersPerSec l = last_value (stof tiny) ''spd='' options (gMockSpeedMetersPerSec g)"
proof -
  have "g' = option_values tiny options g"
    using debug_values [of k tiny "Some (fd # fds)" "''location'' # options" g t] assms(1,2) by simp
  then show ?thesis
    using assms(3) by (simp add: getLocationFromHW_def elapsed_location_def location_default_def option_values_def Let_def)
qed

definition no_file_kernel :: kernel where
  "no_file_kernel t = (if last t = OpenFile GNSS_PATH O_RDONLY 0 then idle_answer\<lparr>ret := -1\<rparr> else idle_answer)"

theorem debug_location_reported_witness:
  "let ((g, threw), t) = run_state (debug no_file_kernel (\<lambda>x. False) (Some [5]) [''location'', ''lat=1.5'', ''lon=-2''] mock_location_init) []
   in \<exists>l t'. getLocationFromHW no_file_kernel (\<lambda>x. False) g t = Some (Some l, t') \<and>
     latitudeDegrees l = Num (3 / 2) \<and> longitudeDegrees l = Num (- 2)"
proof -
  let ?o = "[''lat=1.5'', ''lon=-2'']" and ?tiny = "\<lambda>x :: real. False"
  have r: "options_readable ?tiny ?o"
    and v: "last_value (stof ?tiny) ''lat='' ?o a = Num (3 / 2)" "last_value (stof ?tiny) ''lon='' ?o b = Num (- 2)" for a b
    by (simp_all add: options_readable_def has_tag_def float_eval Let_def)
  obtain g threw t where d: "run_state (debug no_file_kernel ?tiny (Some [5]) (''location'' # ?o) mock_location_init) [] = ((g, threw), t)"
    by (metis prod.exhaust)
  have "ret (no_file_kernel (t @ [Time, OpenFile GNSS_PATH O_RDONLY 0])) = -1" by (simp add: no_file_kernel_def)
  from debug_location_reported [OF r d this] show ?thesis unfolding d by (auto simp: v simp del: last_value_simps)
qed

end
