(* ===== verification/Session.thy ===== *)
theory Session
  imports Locations
begin

text \<open>
  The session of the GNSS service (\<open>gps/gnss/common/utils/default/include/v2_1/GnssTemplate.h\<close>, whose
  only subclass is \<open>gps/gnss/aidl/default/GnssHidlHal.cpp\<close>): the thread of its interface, which is one
  (\<open>configureRpcThreadpool(1, true)\<close> in \<open>gps/gnss/aidl/default/service.cpp\<close>), and the thread that
  reports.  Every access to an atomic, the mutex and the static callbacks, and every callback invoked,
  is a step of its own; the assignment of a callback is two, as it also releases the old one, and so is
  a virtual call, whose target is looked up before it runs.  An object that is freed stays so: a later
  one is another.  What the messages hold is in the theories \<open>Blocklist\<close> and \<open>Locations\<close>; whether an
  invocation of a callback fails is only logged by the code.  A device file that is read for ever, which
  keeps the reporter from going on, is not in the machine.
\<close>

section \<open>The machine\<close>

datatype hal_version = V1_0 | V1_1 | V2_0 | V2_1

datatype event =
    Capabilities | SystemInfo nat | Name string
  | SessionBegin | SessionEnd | SvStatus | Location

text \<open>What a client of each version is told when it sets its callback.\<close>

definition setCallback_greeting :: "event list" where
  "setCallback_greeting = [Capabilities, SystemInfo 2018]"

definition setCallback_1_1_greeting :: "event list" where
  "setCallback_1_1_greeting = [Capabilities, SystemInfo 2018, Name ''Google Mock GNSS Implementation v2.1'']"

definition setCallback_2_0_greeting :: "event list" where
  "setCallback_2_0_greeting = [Capabilities, SystemInfo 2019, Name ''Google Mock GNSS Implementation v2.1'']"

definition setCallback_2_1_greeting :: "event list" where
  "setCallback_2_1_greeting = [Capabilities, SystemInfo 2020, Name ''Android Mock GNSS Implementation v2.1'']"

fun greeting :: "hal_version \<Rightarrow> event list" where
  "greeting V1_0 = setCallback_greeting"
| "greeting V1_1 = setCallback_1_1_greeting"
| "greeting V2_0 = setCallback_2_0_greeting"
| "greeting V2_1 = setCallback_2_1_greeting"

lemmas greeting_defs [simp] =
  setCallback_greeting_def setCallback_1_1_greeting_def setCallback_2_0_greeting_def setCallback_2_1_greeting_def

text \<open>
  The points of the functions that report, all under the mutex: the callbacks still to be tested, the
  load of one's pointer, and the call of the object it points to.
\<close>

datatype point = Lock | Test "hal_version list" | Use hal_version | Call hal_version nat | Unlock

text \<open>
  \<open>reportSvStatus\<close> and the two overloads of \<open>reportLocation\<close>, for \<open>V2_0\<close> and for \<open>V1_0\<close>: the callbacks
  they test, in their order, and what they tell.  \<open>reportGnssStatusValue\<close> tests \<open>V2_1\<close> only.
\<close>

datatype report_fun = Sv | Loc | OldLoc

fun tested :: "report_fun \<Rightarrow> hal_version list" where
  "tested Sv = [V2_1]"
| "tested Loc = [V2_1, V2_0]"
| "tested OldLoc = [V1_1, V1_0]"

fun reported :: "report_fun \<Rightarrow> event" where
  "reported Sv = SvStatus"
| "reported Loc = Location"
| "reported OldLoc = Location"

datatype after_stop = Return | Restart | Destroy

text \<open>
  The points of the thread of the interface.  \<open>Assign v p\<close> assigns the pointer \<open>p\<close> to a static callback,
  in \<open>setCallback\<close> (\<open>p\<close> is not null) or in \<open>cleanup\<close>; it ends with \<open>Store\<close> or with \<open>Release\<close> of the
  old one.
\<close>

datatype session_call =
    Ready
  | Assign hal_version "nat option" | Store hal_version "nat option" | Release hal_version "nat option" "nat option"
  | Greet hal_version "event list"
  | StartTest | StartActive | Spawn        \<comment> \<open>\<open>start()\<close>\<close>
  | BeginStatus point
  | StopClear after_stop                   \<comment> \<open>\<open>stop()\<close>, and what is done behind it\<close>
  | EndStatus point after_stop
  | Join after_stop | CloseFd after_stop
  | Destroying                             \<comment> \<open>between the members of the subclass and \<open>~GnssTemplate\<close>\<close>
  | Gone
  | Terminated                             \<comment> \<open>a thread is assigned to a joinable one, or a bad callback used\<close>

text \<open>How \<open>getLocationFromHW\<close> may end.\<close>

datatype located = Threw | NullPointer | Found

text \<open>
  The points of the reporting thread.  \<open>Filter\<close> and \<open>Note\<close> are the calls of the virtual functions
  \<open>filterBlocklistedSatellitesV2_1\<close> and \<open>notePowerConsumption\<close>, whose overriding ones use members of
  \<open>GnssHidlHal\<close>.  \<open>Crashed\<close>: an exception leaves the thread, or the behaviour is undefined, as a null
  callback, a freed one or a destroyed member is used.
\<close>

datatype session_reporter =
    Check | Filter | FilterMembers | Report report_fun point | Locate
  | Note located | NoteMembers located | Decide located | MockTest "hal_version list"
  | Asleep | Finished | Crashed

datatype session_holder = CallingThread | ReporterThread

text \<open>
  The object: whole; its subclass's members destroyed; or a \<open>GnssTemplate\<close> whose destructor runs, and
  whose virtual functions are those of the template.
\<close>

datatype lifetime = Alive | MembersGone | BaseOnly

record session =
  mIsActive :: bool
  mMutex :: "session_holder option"
  sGnssCallback :: "hal_version \<Rightarrow> nat option"
  mMinIntervalMs :: u32
  mGnssFd :: int
  mHardwareModeChecked :: bool
  mThread :: "session_reporter option"             \<comment> \<open>\<open>None\<close>: not joinable\<close>
  caller :: session_call
  object :: lifetime
  freed :: "nat set"                               \<comment> \<open>callbacks that are no more\<close>
  told :: "(hal_version \<times> nat \<times> event) list"      \<comment> \<open>what the clients were told\<close>
  registered :: "(hal_version \<times> nat) list"         \<comment> \<open>the callbacks \<open>setCallback\<close> was given\<close>

text \<open>
  What the machine does not decide: whether \<open>getLocationFromHW\<close> may throw or return a null pointer, and
  whether the assignment of an \<open>sp\<close>, which is not part of the repository, releases the old object before
  it stores the new pointer or after.
\<close>

record session_env =
  throws :: bool
  returns_null :: bool
  release_first :: bool

text \<open>The constructor leaves \<open>mIsActive\<close> as it finds it.\<close>

definition GnssTemplate_new :: "bool \<Rightarrow> session" where
  "GnssTemplate_new active =
     \<lparr>mIsActive = active, mMutex = None, sGnssCallback = (\<lambda>_. None), mMinIntervalMs = 1000, mGnssFd = -1,
      mHardwareModeChecked = False, mThread = None, caller = Ready, object = Alive, freed = {}, told = [],
      registered = []\<rparr>"

definition tell :: "hal_version \<Rightarrow> nat \<Rightarrow> event \<Rightarrow> session \<Rightarrow> session" where
  "tell v cb e s = s\<lparr>told := told s @ [(v, cb, e)]\<rparr>"

definition setPositionMode :: "u32 \<Rightarrow> session \<Rightarrow> session" where
  "setPositionMode minIntervalMs s = s\<lparr>mMinIntervalMs := minIntervalMs\<rparr>"

definition setPositionMode_1_1 :: "u32 \<Rightarrow> session \<Rightarrow> session" where
  "setPositionMode_1_1 minIntervalMs s = s\<lparr>mMinIntervalMs := minIntervalMs\<rparr>"

definition stopped :: "after_stop \<Rightarrow> session_call" where
  "stopped k = (case k of Return \<Rightarrow> Ready | Restart \<Rightarrow> StartActive | Destroy \<Rightarrow> Gone)"

text \<open>What follows an assignment: the greeting; in \<open>cleanup\<close> the other assignment, or its return.\<close>

definition assigned :: "hal_version \<Rightarrow> nat option \<Rightarrow> session_call" where
  "assigned v p =
     (case p of Some cb \<Rightarrow> Greet v (greeting v) | None \<Rightarrow> if v = V2_1 then Assign V2_0 None else Ready)"

text \<open>
  The callback that the release of \<open>old\<close> may free: not the one assigned, which the caller holds, nor one
  that another static callback holds.  Somebody else may hold it, so that it may also live on.
\<close>

definition released :: "hal_version \<Rightarrow> nat option \<Rightarrow> nat option \<Rightarrow> session \<Rightarrow> nat set" where
  "released v p old s = {cb. old = Some cb \<and> old \<noteq> p \<and> (\<forall>w. w \<noteq> v \<longrightarrow> sGnssCallback s w \<noteq> Some cb)}"

text \<open>The thread of the interface, the only one that changes the callbacks, invokes one of them.\<close>

definition invoke :: "hal_version \<Rightarrow> event \<Rightarrow> session_call \<Rightarrow> session \<Rightarrow> session" where
  "invoke v e c s =
     (case sGnssCallback s v of
        Some cb \<Rightarrow> if cb \<in> freed s then s\<lparr>caller := Terminated\<rparr> else (tell v cb e s)\<lparr>caller := c\<rparr>
      | None \<Rightarrow> s\<lparr>caller := Terminated\<rparr>)"

text \<open>
  The thread of the interface.  A callback that is null is refused, and nothing changes; the other
  functions of the interface that change nothing are no steps.
\<close>

inductive session_caller_step :: "session_env \<Rightarrow> session \<Rightarrow> session \<Rightarrow> bool" for env where
  set_call: "caller s = Ready \<Longrightarrow> cb \<notin> freed s \<Longrightarrow>
    session_caller_step env s (s\<lparr>registered := registered s @ [(v, cb)], caller := Assign v (Some cb)\<rparr>)"
| cleanup: "caller s = Ready \<Longrightarrow> session_caller_step env s (s\<lparr>caller := Assign V2_1 None\<rparr>)"
| assign_release: "caller s = Assign v p \<Longrightarrow> release_first env \<Longrightarrow> cbs \<subseteq> released v p (sGnssCallback s v) s \<Longrightarrow>
    session_caller_step env s (s\<lparr>freed := freed s \<union> cbs, caller := Store v p\<rparr>)"
| store: "caller s = Store v p \<Longrightarrow>
    session_caller_step env s (s\<lparr>sGnssCallback := (sGnssCallback s)(v := p), caller := assigned v p\<rparr>)"
| assign_store: "caller s = Assign v p \<Longrightarrow> \<not> release_first env \<Longrightarrow>
    session_caller_step env s
      (s\<lparr>sGnssCallback := (sGnssCallback s)(v := p), caller := Release v p (sGnssCallback s v)\<rparr>)"
| release: "caller s = Release v p old \<Longrightarrow> cbs \<subseteq> released v p old s \<Longrightarrow>
    session_caller_step env s (s\<lparr>freed := freed s \<union> cbs, caller := assigned v p\<rparr>)"
| greet: "caller s = Greet v (e # es) \<Longrightarrow> session_caller_step env s (invoke v e (Greet v es) s)"
| greeted: "caller s = Greet v [] \<Longrightarrow> session_caller_step env s (s\<lparr>caller := Ready\<rparr>)"
| set_position_mode: "caller s = Ready \<Longrightarrow> session_caller_step env s (setPositionMode minIntervalMs s)"
| set_position_mode_1_1: "caller s = Ready \<Longrightarrow> session_caller_step env s (setPositionMode_1_1 minIntervalMs s)"
| start: "caller s = Ready \<Longrightarrow> session_caller_step env s (s\<lparr>caller := StartTest\<rparr>)"
| start_test: "caller s = StartTest \<Longrightarrow>
    session_caller_step env s (s\<lparr>caller := if mIsActive s then StopClear Restart else StartActive\<rparr>)"
| start_active: "caller s = StartActive \<Longrightarrow>
    session_caller_step env s (s\<lparr>mIsActive := True, caller := BeginStatus Lock\<rparr>)"
| begin_lock: "caller s = BeginStatus Lock \<Longrightarrow> mMutex s = None \<Longrightarrow>
    session_caller_step env s (s\<lparr>mMutex := Some CallingThread, caller := BeginStatus (Test [V2_1])\<rparr>)"
| begin_test: "caller s = BeginStatus (Test [V2_1]) \<Longrightarrow>
    session_caller_step env s (s\<lparr>caller := BeginStatus (if sGnssCallback s V2_1 = None then Unlock else Use V2_1)\<rparr>)"
| begin_use: "caller s = BeginStatus (Use V2_1) \<Longrightarrow>
    session_caller_step env s (invoke V2_1 SessionBegin (BeginStatus Unlock) s)"
| begin_unlock: "caller s = BeginStatus Unlock \<Longrightarrow> session_caller_step env s (s\<lparr>mMutex := None, caller := Spawn\<rparr>)"
| spawn: "caller s = Spawn \<Longrightarrow>
    session_caller_step env s (if mThread s = None then s\<lparr>mThread := Some Check, caller := Ready\<rparr> else s\<lparr>caller := Terminated\<rparr>)"
| stop: "caller s = Ready \<Longrightarrow> session_caller_step env s (s\<lparr>caller := StopClear Return\<rparr>)"
| stop_clear: "caller s = StopClear k \<Longrightarrow>
    session_caller_step env s (s\<lparr>mIsActive := False, caller := EndStatus Lock k\<rparr>)"
| end_lock: "caller s = EndStatus Lock k \<Longrightarrow> mMutex s = None \<Longrightarrow>
    session_caller_step env s (s\<lparr>mMutex := Some CallingThread, caller := EndStatus (Test [V2_1]) k\<rparr>)"
| end_test: "caller s = EndStatus (Test [V2_1]) k \<Longrightarrow>
    session_caller_step env s (s\<lparr>caller := EndStatus (if sGnssCallback s V2_1 = None then Unlock else Use V2_1) k\<rparr>)"
| end_use: "caller s = EndStatus (Use V2_1) k \<Longrightarrow>
    session_caller_step env s (invoke V2_1 SessionEnd (EndStatus Unlock k) s)"
| end_unlock: "caller s = EndStatus Unlock k \<Longrightarrow> session_caller_step env s (s\<lparr>mMutex := None, caller := Join k\<rparr>)"
| join: "caller s = Join k \<Longrightarrow> mThread s = None \<or> mThread s = Some Finished \<Longrightarrow>
    session_caller_step env s (s\<lparr>mThread := None, caller := CloseFd k\<rparr>)"
| close_fd: "caller s = CloseFd k \<Longrightarrow>
    session_caller_step env s ((if mGnssFd s \<noteq> -1 then s\<lparr>mGnssFd := -1, mHardwareModeChecked := False\<rparr> else s)\<lparr>caller := stopped k\<rparr>)"
| destroy: "caller s = Ready \<Longrightarrow> session_caller_step env s (s\<lparr>object := MembersGone, caller := Destroying\<rparr>)"
| destroy_base: "caller s = Destroying \<Longrightarrow>
    session_caller_step env s (s\<lparr>object := BaseOnly, caller := StopClear Destroy\<rparr>)"

text \<open>The reporting thread.\<close>

inductive session_reporter_step :: "session_env \<Rightarrow> session \<Rightarrow> session \<Rightarrow> bool" for env where
  check: "mThread s = Some Check \<Longrightarrow>
    session_reporter_step env s (s\<lparr>mThread := Some (if mIsActive s then Filter else Finished)\<rparr>)"
| filter_call: "mThread s = Some Filter \<Longrightarrow>
    session_reporter_step env s (s\<lparr>mThread := Some (if object s = BaseOnly then Report Sv Lock else FilterMembers)\<rparr>)"
| filter_members: "mThread s = Some FilterMembers \<Longrightarrow>
    session_reporter_step env s (s\<lparr>mThread := Some (if object s = Alive then Report Sv Lock else Crashed)\<rparr>)"
| report_lock: "mThread s = Some (Report f Lock) \<Longrightarrow> mMutex s = None \<Longrightarrow>
    session_reporter_step env s (s\<lparr>mMutex := Some ReporterThread, mThread := Some (Report f (Test (tested f)))\<rparr>)"
| report_test: "mThread s = Some (Report f (Test (v # vs))) \<Longrightarrow>
    session_reporter_step env s (s\<lparr>mThread := Some (Report f (if sGnssCallback s v = None then Test vs else Use v))\<rparr>)"
| report_none: "mThread s = Some (Report f (Test [])) \<Longrightarrow>
    session_reporter_step env s (s\<lparr>mThread := Some (Report f Unlock)\<rparr>)"
| report_load: "mThread s = Some (Report f (Use v)) \<Longrightarrow>
    session_reporter_step env s
      (s\<lparr>mThread := Some (case sGnssCallback s v of None \<Rightarrow> Crashed | Some cb \<Rightarrow> Report f (Call v cb))\<rparr>)"
| report_call: "mThread s = Some (Report f (Call v cb)) \<Longrightarrow>
    session_reporter_step env s
      (if cb \<in> freed s then s\<lparr>mThread := Some Crashed\<rparr>
       else (tell v cb (reported f) s)\<lparr>mThread := Some (Report f Unlock)\<rparr>)"
| report_unlock: "mThread s = Some (Report f Unlock) \<Longrightarrow>
    session_reporter_step env s (s\<lparr>mMutex := None, mThread := Some (if f = Sv then Locate else Asleep)\<rparr>)"
| locate: "mThread s = Some Locate \<Longrightarrow> session_reporter_step env s (s\<lparr>mThread := Some (Note Found)\<rparr>)"
| locate_null: "mThread s = Some Locate \<Longrightarrow> returns_null env \<Longrightarrow>
    session_reporter_step env s (s\<lparr>mThread := Some (Note NullPointer)\<rparr>)"
| locate_throws: "mThread s = Some Locate \<Longrightarrow> throws env \<Longrightarrow>
    session_reporter_step env s (s\<lparr>mThread := Some Crashed\<rparr>)"
| note_call: "mThread s = Some (Note r) \<Longrightarrow>
    session_reporter_step env s (s\<lparr>mThread := Some (if object s = BaseOnly then Decide r else NoteMembers r)\<rparr>)"
| note_members: "mThread s = Some (NoteMembers r) \<Longrightarrow>
    session_reporter_step env s (s\<lparr>mThread := Some (if object s = Alive then Decide r else Crashed)\<rparr>)"
| decide: "mThread s = Some (Decide r) \<Longrightarrow>
    session_reporter_step env s (s\<lparr>mThread := Some (if r = Found then Report Loc Lock else MockTest [V2_1, V2_0])\<rparr>)"
| mock_test: "mThread s = Some (MockTest (v # vs)) \<Longrightarrow>
    session_reporter_step env s
      (s\<lparr>mThread := Some (if sGnssCallback s v \<noteq> None then Report Loc Lock else MockTest vs)\<rparr>)"
| mock_old: "mThread s = Some (MockTest []) \<Longrightarrow> session_reporter_step env s (s\<lparr>mThread := Some (Report OldLoc Lock)\<rparr>)"
| wake: "mThread s = Some Asleep \<Longrightarrow> session_reporter_step env s (s\<lparr>mThread := Some Check\<rparr>)"

text \<open>A crash of the reporter is the end of the process.\<close>

definition session_step :: "session_env \<Rightarrow> session \<Rightarrow> session \<Rightarrow> bool" where
  "session_step env s s' \<longleftrightarrow>
     mThread s \<noteq> Some Crashed \<and> (session_caller_step env s s' \<or> session_reporter_step env s s')"

text \<open>
  The service with a device file: how the calls of \<open>getLocationFromHW\<close> may end.  The object its last
  line allocates is never a null pointer.
\<close>

fun located_as :: "(gnss_location option \<times> trace) option \<Rightarrow> located option" where
  "located_as None = None"
| "located_as (Some (None, t)) = Some Threw"
| "located_as (Some (Some l, t)) = Some Found"

definition may_end :: "kernel \<Rightarrow> (real \<Rightarrow> bool) \<Rightarrow> located \<Rightarrow> bool" where
  "may_end k tiny r \<longleftrightarrow> (\<exists>g t. located_as (getLocationFromHW k tiny g t) = Some r)"

definition service_env :: "kernel \<Rightarrow> (real \<Rightarrow> bool) \<Rightarrow> bool \<Rightarrow> session_env" where
  "service_env k tiny rf =
     \<lparr>throws = may_end k tiny Threw, returns_null = may_end k tiny NullPointer, release_first = rf\<rparr>"

lemma located_not_null: "located_as x \<noteq> Some NullPointer"
  by (cases x rule: located_as.cases) simp_all

lemma service_never_null: "\<not> returns_null (service_env k tiny rf)"
  by (simp add: service_env_def may_end_def located_not_null)

declare setPositionMode_def [simp] setPositionMode_1_1_def [simp]

section \<open>The invariant\<close>

fun caller_holds :: "session_call \<Rightarrow> bool" where
  "caller_holds (BeginStatus p) = (p \<noteq> Lock)"
| "caller_holds (EndStatus p _) = (p \<noteq> Lock)"
| "caller_holds _ = False"

fun reporter_holds :: "session_reporter option \<Rightarrow> bool" where
  "reporter_holds (Some (Report f p)) = (p \<noteq> Lock)"
| "reporter_holds _ = False"

text \<open>The points without a reporter, those behind the store of \<open>stop()\<close>, and those behind that of \<open>start()\<close>.\<close>

fun no_reporter :: "session_call \<Rightarrow> bool" where
  "no_reporter StartActive = True"
| "no_reporter (BeginStatus _) = True"
| "no_reporter Spawn = True"
| "no_reporter (CloseFd _) = True"
| "no_reporter Gone = True"
| "no_reporter _ = False"

fun stopping :: "session_call \<Rightarrow> bool" where
  "stopping (EndStatus _ _) = True"
| "stopping (Join _) = True"
| "stopping _ = False"

fun starting :: "session_call \<Rightarrow> bool" where
  "starting (BeginStatus _) = True"
| "starting Spawn = True"
| "starting _ = False"

text \<open>The points there are; a call never terminates the process.\<close>

fun caller_ok :: "session_call \<Rightarrow> bool" where
  "caller_ok (BeginStatus p) = (p \<in> {Lock, Test [V2_1], Use V2_1, Unlock})"
| "caller_ok (EndStatus p _) = (p \<in> {Lock, Test [V2_1], Use V2_1, Unlock})"
| "caller_ok Terminated = False"
| "caller_ok _ = True"

text \<open>The callback that is being assigned, and the one the caller is about to invoke.\<close>

fun incoming :: "session_call \<Rightarrow> nat option" where
  "incoming (Assign v p) = p"
| "incoming (Store v p) = p"
| "incoming (Release v p old) = p"
| "incoming _ = None"

fun invoked :: "session_call \<Rightarrow> hal_version option" where
  "invoked (Greet v es) = Some v"
| "invoked (BeginStatus (Use v)) = Some v"
| "invoked (EndStatus (Use v) _) = Some v"
| "invoked _ = None"

text \<open>The pointer whose object has been released, before the new one is stored.\<close>

fun dangling :: "session_call \<Rightarrow> hal_version option" where
  "dangling (Store v p) = Some v"
| "dangling _ = None"

definition live_inv :: "session \<Rightarrow> bool" where
  "live_inv s \<longleftrightarrow>
     (\<forall>v cb. sGnssCallback s v = Some cb \<longrightarrow> dangling (caller s) \<noteq> Some v \<longrightarrow> cb \<notin> freed s) \<and>
     (\<forall>cb. incoming (caller s) = Some cb \<longrightarrow> cb \<notin> freed s) \<and>
     (\<forall>v. invoked (caller s) = Some v \<longrightarrow> sGnssCallback s v \<noteq> None) \<and>
     (\<forall>v p old. caller s = Release v p old \<longrightarrow> sGnssCallback s v = p)"

definition session_inv :: "session \<Rightarrow> bool" where
  "session_inv s \<longleftrightarrow>
     (mThread s \<noteq> Some Crashed \<longrightarrow>
       (mMutex s = Some CallingThread \<longleftrightarrow> caller_holds (caller s)) \<and>
       (mMutex s = Some ReporterThread \<longleftrightarrow> reporter_holds (mThread s))) \<and>
     (no_reporter (caller s) \<longrightarrow> mThread s = None) \<and>
     (mThread s \<noteq> None \<longrightarrow> \<not> stopping (caller s) \<longrightarrow> mIsActive s \<and> mThread s \<noteq> Some Finished) \<and>
     (stopping (caller s) \<longrightarrow> \<not> mIsActive s) \<and>
     (starting (caller s) \<longrightarrow> mIsActive s) \<and>
     caller_ok (caller s) \<and> mGnssFd s = -1"

lemma tell_fields [simp]:
  "mIsActive (tell v cb e s) = mIsActive s" "mMutex (tell v cb e s) = mMutex s" "mThread (tell v cb e s) = mThread s"
  "caller (tell v cb e s) = caller s" "mGnssFd (tell v cb e s) = mGnssFd s" "sGnssCallback (tell v cb e s) = sGnssCallback s"
  "object (tell v cb e s) = object s" "freed (tell v cb e s) = freed s" "registered (tell v cb e s) = registered s"
  "told (tell v cb e s) = told s @ [(v, cb, e)]"
  by (simp_all add: tell_def)

text \<open>A live callback is invoked; only the trace and the point change.\<close>

lemma invoke_live:
  assumes "live_inv s" "invoked (caller s) = Some v"
  shows "invoke v e c s = (tell v (the (sGnssCallback s v)) e s)\<lparr>caller := c\<rparr>"
proof -
  have "dangling (caller s) = None" using assms(2) by (cases "caller s") simp_all
  with assms show ?thesis by (force simp: live_inv_def invoke_def)
qed

lemma assigned_simps [simp]:
  "incoming (assigned v p) = None" "dangling (assigned v p) = None" "assigned v p \<noteq> Release w q old"
  "assigned v p \<noteq> Terminated" "caller_ok (assigned v p)" "caller_holds (assigned v p) = False"
  "no_reporter (assigned v p) = False" "stopping (assigned v p) = False" "starting (assigned v p) = False"
  "assigned v p \<noteq> StartActive" "invoked (assigned v p) = Some w \<longleftrightarrow> p \<noteq> None \<and> v = w"
  by (auto simp: assigned_def split: option.split)

lemma stopped_simps [simp]:
  "incoming (stopped k) = None" "invoked (stopped k) = None" "dangling (stopped k) = None"
  "stopped k \<noteq> Release w q old" "caller_ok (stopped k)" "caller_holds (stopped k) = False"
  "stopping (stopped k) = False" "starting (stopped k) = False" "stopped k \<noteq> Terminated"
  by (simp_all add: stopped_def split: after_stop.split)

lemma released_live:
  assumes "cbs \<subseteq> released v p old s"
  shows "(\<forall>cb. p = Some cb \<longrightarrow> cb \<notin> cbs) \<and> (\<forall>w cb. w \<noteq> v \<longrightarrow> sGnssCallback s w = Some cb \<longrightarrow> cb \<notin> cbs)"
  using assms by (auto simp: released_def)

lemma caller_live: "session_caller_step env s s' \<Longrightarrow> live_inv s \<Longrightarrow> live_inv s'"
proof (induction rule: session_caller_step.induct)
  case (assign_release s v p cbs)
  with released_live [OF assign_release(3)] show ?case by (fastforce simp: live_inv_def)
next
  case (release s v p old cbs)
  with released_live [OF release(2)] show ?case by (fastforce simp: live_inv_def)
next
  case (greet s v e es)
  then show ?case by (simp add: invoke_live) (simp add: live_inv_def)
next
  case (begin_use s)
  then show ?case by (simp add: invoke_live) (simp add: live_inv_def)
next
  case (end_use s k)
  then show ?case by (simp add: invoke_live) (simp add: live_inv_def)
qed (auto simp: live_inv_def)

lemma reporter_live: "session_reporter_step env s s' \<Longrightarrow> live_inv s \<Longrightarrow> live_inv s'"
  by (induction rule: session_reporter_step.induct) (auto simp: live_inv_def)

interpretation living: machine "session_step env" live_inv
  by unfold_locales (auto simp: session_step_def intro: caller_live reporter_live)

lemma live_inv_new: "live_inv (GnssTemplate_new active)"
  by (simp add: live_inv_def GnssTemplate_new_def)

lemma session_caller_step_inv:
  "session_caller_step env s s' \<Longrightarrow> mThread s \<noteq> Some Crashed \<Longrightarrow> live_inv s \<Longrightarrow> session_inv s \<Longrightarrow> session_inv s'"
  by (induction rule: session_caller_step.induct) (auto simp: session_inv_def invoke_live)

lemma session_reporter_step_inv: "session_reporter_step env s s' \<Longrightarrow> session_inv s \<Longrightarrow> session_inv s'"
  by (induction rule: session_reporter_step.induct) (auto simp: session_inv_def split: option.split)

interpretation sessions: machine "session_step env" "\<lambda>s. session_inv s \<and> live_inv s"
  by unfold_locales
    (auto simp: session_step_def intro: caller_live reporter_live session_caller_step_inv session_reporter_step_inv)

lemma session_inv_new: "session_inv (GnssTemplate_new active) \<and> live_inv (GnssTemplate_new active)"
  by (simp add: session_inv_def live_inv_new) (simp add: GnssTemplate_new_def)


section \<open>No deadlock\<close>

lemma session_reporter_moves:
  assumes "mThread s = Some r" "r \<noteq> Finished" "r \<noteq> Crashed" "\<not> reporter_holds (Some r) \<Longrightarrow> mMutex s = None"
  shows "\<exists>s'. session_reporter_step env s s'"
proof (cases r)
  case (Report f p)
  show ?thesis
  proof (cases p)
    case (Test vs)
    then show ?thesis using Report assms by (cases vs) (auto intro: session_reporter_step.intros)
  qed (use Report assms in \<open>auto intro: session_reporter_step.intros\<close>)
next
  case (MockTest vs)
  then show ?thesis using assms by (cases vs) (auto intro: session_reporter_step.intros)
qed (use assms in \<open>auto intro: session_reporter_step.intros\<close>)

lemma session_caller_moves:
  assumes "caller_ok (caller s)" "caller s \<noteq> Gone" "\<not> caller_holds (caller s) \<Longrightarrow> mMutex s = None"
    and "\<And>k. caller s = Join k \<Longrightarrow> mThread s = None \<or> mThread s = Some Finished"
  shows "\<exists>s'. session_caller_step env s s'"
proof (cases "caller s")
  case (Greet v es)
  then show ?thesis by (cases es) (auto intro: session_caller_step.intros)
next
  case (Assign v p)
  then show ?thesis by (cases "release_first env") (auto intro: session_caller_step.intros)
qed (use assms in \<open>auto intro: session_caller_step.intros\<close>)

text \<open>Whoever does not hold the mutex waits for the other thread only, which can go on.\<close>

lemma session_moves:
  assumes inv: "session_inv s" and alive: "mThread s \<noteq> Some Crashed" "caller s \<noteq> Gone"
  shows "\<exists>s'. session_step env s s'"
proof (cases "\<exists>s'. session_reporter_step env s s'")
  case True
  then show ?thesis using alive by (auto simp: session_step_def)
next
  case False
  have ok: "caller_ok (caller s)" using inv by (simp add: session_inv_def)
  have "\<not> reporter_holds (mThread s)"
  proof
    assume holds: "reporter_holds (mThread s)"
    then obtain r where r: "mThread s = Some r" by (cases "mThread s") auto
    with holds have "r \<noteq> Finished" "r \<noteq> Crashed" by auto
    from session_reporter_moves [OF r this, of env] r holds False show False by simp
  qed
  then have free: "mMutex s = None" if "\<not> caller_holds (caller s)"
    using inv alive(1) that by (cases "mMutex s"; cases "the (mMutex s)") (simp_all add: session_inv_def)
  have joined: "mThread s = None \<or> mThread s = Some Finished" if join: "caller s = Join k" for k
  proof (cases "mThread s")
    case (Some r)
    then have "r = Finished" using session_reporter_moves [OF Some, of env] alive(1) False free join by auto
    with Some show ?thesis by simp
  qed simp
  obtain s' where "session_caller_step env s s'" using session_caller_moves [OF ok alive(2)] free joined by blast
  with alive(1) show ?thesis by (auto simp: session_step_def)
qed

text \<open>
  C28. Whatever is called, the two threads never wait for each other: a session that has not crashed and
  whose object is not destroyed goes on, and no call terminates the process, neither by a second thread
  nor by a callback that is null or freed.
\<close>

theorem session_never_deadlocks:
  assumes "(session_step env)\<^sup>*\<^sup>* (GnssTemplate_new active) s"
  shows "((\<exists>s'. session_step env s s') \<longleftrightarrow> mThread s \<noteq> Some Crashed \<and> caller s \<noteq> Gone) \<and> caller s \<noteq> Terminated"
proof -
  have inv: "session_inv s" using sessions.along [OF assms session_inv_new] by simp
  have "mThread s = None" if "caller s = Gone" using inv that by (simp add: session_inv_def)
  moreover have "\<not> session_caller_step env s s'" if "caller s = Gone" for s'
    using that by (auto elim: session_caller_step.cases)
  moreover have "\<not> session_reporter_step env s s'" if "mThread s = None" for s'
    using that by (auto elim: session_reporter_step.cases)
  ultimately show ?thesis
    using session_moves [OF inv] inv by (auto simp: session_inv_def session_step_def)
qed

section \<open>The end of a session\<close>

text \<open>What a reporter may still report when it finds the session inactive the next time.\<close>

fun svs_left :: "session_reporter option \<Rightarrow> nat" where
  "svs_left (Some Filter) = 1"
| "svs_left (Some FilterMembers) = 1"
| "svs_left (Some (Report Sv p)) = (if p = Unlock then 0 else 1)"
| "svs_left _ = 0"

fun locations_left :: "session_reporter option \<Rightarrow> nat" where
  "locations_left (Some (Report Sv p)) = 1"
| "locations_left (Some (Report Loc p)) = (if p = Unlock then 0 else 1)"
| "locations_left (Some (Report OldLoc p)) = (if p = Unlock then 0 else 1)"
| "locations_left (Some Check) = 0"
| "locations_left (Some Asleep) = 0"
| "locations_left (Some Finished) = 0"
| "locations_left (Some Crashed) = 0"
| "locations_left (Some _) = 1"
| "locations_left None = 0"

definition count_told :: "event \<Rightarrow> session \<Rightarrow> nat" where
  "count_told e s = length (filter (\<lambda>(v, cb, e'). e' = e) (told s))"

text \<open>Steps of everything but the start of a new session.\<close>

definition no_start :: "session_env \<Rightarrow> session \<Rightarrow> session \<Rightarrow> bool" where
  "no_start env s s' \<longleftrightarrow> session_step env s s' \<and> caller s' \<noteq> StartActive"

definition budget :: "nat \<Rightarrow> nat \<Rightarrow> session \<Rightarrow> bool" where
  "budget svs locs s \<longleftrightarrow> \<not> mIsActive s \<and> caller s \<noteq> StartActive \<and>
     (\<forall>v es. caller s = Greet v es \<longrightarrow> SvStatus \<notin> set es \<and> Location \<notin> set es) \<and>
     count_told SvStatus s + svs_left (mThread s) \<le> svs \<and>
     count_told Location s + locations_left (mThread s) \<le> locs"

lemma count_told_simps [simp]:
  "count_told e (tell v cb e' s) = count_told e s + (if e' = e then 1 else 0)"
  "count_told e (s\<lparr>caller := c\<rparr>) = count_told e s" "count_told e (s\<lparr>mThread := r\<rparr>) = count_told e s"
  "count_told e (s\<lparr>mMutex := m\<rparr>) = count_told e s" "count_told e (s\<lparr>mIsActive := b\<rparr>) = count_told e s"
  "count_told e (s\<lparr>sGnssCallback := cbs\<rparr>) = count_told e s" "count_told e (s\<lparr>mMinIntervalMs := ms\<rparr>) = count_told e s"
  "count_told e (s\<lparr>mGnssFd := fd\<rparr>) = count_told e s" "count_told e (s\<lparr>mHardwareModeChecked := b\<rparr>) = count_told e s"
  "count_told e (s\<lparr>object := ob\<rparr>) = count_told e s" "count_told e (s\<lparr>freed := gone\<rparr>) = count_told e s"
  "count_told e (s\<lparr>registered := rs\<rparr>) = count_told e s"
  by (simp_all add: count_told_def tell_def)

lemma greeting_reports_nothing: "SvStatus \<notin> set (greeting v)" "Location \<notin> set (greeting v)"
  by (cases v; simp)+

lemma assigned_greets: "assigned v p = Greet w es \<Longrightarrow> es = greeting w"
  by (auto simp: assigned_def split: option.splits if_splits)

lemma stopped_greets [simp]: "stopped k \<noteq> Greet v es"
  by (simp add: stopped_def split: after_stop.split)

lemma invoke_budget:
  "budget svs locs s \<Longrightarrow> e \<noteq> SvStatus \<Longrightarrow> e \<noteq> Location \<Longrightarrow> c \<noteq> StartActive \<Longrightarrow>
   (\<forall>v es. c = Greet v es \<longrightarrow> SvStatus \<notin> set es \<and> Location \<notin> set es) \<Longrightarrow> budget svs locs (invoke v e c s)"
  by (auto simp: budget_def invoke_def split: option.split)

lemma caller_budget: "session_caller_step env s s' \<Longrightarrow> caller s' \<noteq> StartActive \<Longrightarrow> budget svs locs s \<Longrightarrow> budget svs locs s'"
proof (induction rule: session_caller_step.induct)
  case (greet s v e es)
  then have "\<forall>w fs. caller s = Greet w fs \<longrightarrow> SvStatus \<notin> set fs \<and> Location \<notin> set fs" by (simp add: budget_def)
  with greet show ?case by (intro invoke_budget) auto
next
  case (begin_use s)
  then show ?case by (intro invoke_budget) auto
next
  case (end_use s k)
  then show ?case by (intro invoke_budget) auto
qed (auto simp: budget_def greeting_reports_nothing dest: assigned_greets)

lemma reported_counts: "reported f = SvStatus \<longleftrightarrow> f = Sv" "reported f = Location \<longleftrightarrow> f \<noteq> Sv"
  by (cases f; simp)+

lemma report_left [simp]:
  "svs_left (Some (Report f p)) = (if f = Sv \<and> p \<noteq> Unlock then 1 else 0)"
  "locations_left (Some (Report f p)) = (if f \<noteq> Sv \<and> p = Unlock then 0 else 1)"
  by (cases f; simp)+

lemma reporter_budget: "session_reporter_step env s s' \<Longrightarrow> budget svs locs s \<Longrightarrow> budget svs locs s'"
  by (induction rule: session_reporter_step.induct)
    (auto simp: budget_def reported_counts split: option.splits if_splits)

lemma count_told_mono: "session_step env s s' \<Longrightarrow> count_told e s \<le> count_told e s'"
  unfolding session_step_def
  by (auto elim!: session_caller_step.cases session_reporter_step.cases simp: invoke_def split: option.split)

lemma budget_along: "(no_start env)\<^sup>*\<^sup>* s s' \<Longrightarrow> budget svs locs s \<Longrightarrow> budget svs locs s'"
  by (induction rule: rtranclp_induct)
    (auto simp: no_start_def session_step_def intro: caller_budget reporter_budget)

lemma count_told_along: "(no_start env)\<^sup>*\<^sup>* s s' \<Longrightarrow> count_told e s \<le> count_told e s'"
  by (induction rule: rtranclp_induct) (auto simp: no_start_def intro: order_trans count_told_mono)

lemma left_at_most_one: "svs_left r \<le> 1" "locations_left r \<le> 1"
  by (cases r rule: svs_left.cases; simp; fail) (cases r rule: locations_left.cases; simp; fail)

text \<open>
  C29. When \<open>stop\<close> has cleared the flag of the session the clients are told of at most one more list of
  satellites and one more location, although they may come after the end of the session is reported;
  and once the reporter has been waited for there is none any more, until a session is started.
\<close>

theorem stop_ends_session:
  assumes "(session_step env)\<^sup>*\<^sup>* (GnssTemplate_new active) s" "caller s = EndStatus Lock k"
    and "(no_start env)\<^sup>*\<^sup>* s s1" and "(no_start env)\<^sup>*\<^sup>* s1 s2"
  shows "count_told SvStatus s1 \<le> count_told SvStatus s + 1 \<and> count_told Location s1 \<le> count_told Location s + 1 \<and>
    (mThread s1 = None \<longrightarrow> count_told SvStatus s2 = count_told SvStatus s1 \<and> count_told Location s2 = count_told Location s1)"
proof -
  have "session_inv s" using sessions.along [OF assms(1) session_inv_new] by simp
  then have "budget (count_told SvStatus s + 1) (count_told Location s + 1) s"
    using assms(2) left_at_most_one [of "mThread s"] by (simp add: budget_def session_inv_def)
  from budget_along [OF assms(3) this]
  have b: "budget (count_told SvStatus s + 1) (count_told Location s + 1) s1" .
  have "budget (count_told SvStatus s1) (count_told Location s1) s1" if "mThread s1 = None"
    using b that by (simp add: budget_def)
  from budget_along [OF assms(4) this] count_told_along [OF assms(4)]
  have "count_told SvStatus s2 = count_told SvStatus s1 \<and> count_told Location s2 = count_told Location s1" if "mThread s1 = None"
    using that by (metis budget_def add_leE le_antisym)
  with b show ?thesis by (auto simp: budget_def)
qed

section \<open>Crashes\<close>

text \<open>
  The calls that take from the reporting thread what it uses, when they begin while it runs: \<open>cleanup\<close>,
  the replacement of a callback of version 2.0 or 2.1 by another, and the destruction of the object.
\<close>

datatype disturbance = Cleanup | Replacement | Destruction

definition disturbs :: "session \<Rightarrow> session \<Rightarrow> disturbance option" where
  "disturbs s s' =
     (if mThread s = None \<or> caller s \<noteq> Ready then None
      else case caller s' of
        Assign v None \<Rightarrow> Some Cleanup
      | Assign v (Some cb) \<Rightarrow>
          if v \<in> {V2_0, V2_1} \<and> sGnssCallback s v \<notin> {None, Some cb} then Some Replacement else None
      | Destroying \<Rightarrow> Some Destruction
      | _ \<Rightarrow> None)"

text \<open>The steps of a service whose clients disturb it only in the given ways.\<close>

definition disturbed_by :: "disturbance set \<Rightarrow> session_env \<Rightarrow> session \<Rightarrow> session \<Rightarrow> bool" where
  "disturbed_by D env s s' \<longleftrightarrow> session_step env s s' \<and> (\<forall>d. disturbs s s' = Some d \<longrightarrow> d \<in> D)"

text \<open>The points of the destruction.\<close>

fun dying :: "session_call \<Rightarrow> bool" where
  "dying Destroying = True"
| "dying (StopClear k) = (k = Destroy)"
| "dying (EndStatus p k) = (k = Destroy)"
| "dying (Join k) = (k = Destroy)"
| "dying (CloseFd k) = (k = Destroy)"
| "dying Gone = True"
| "dying _ = False"

text \<open>An assignment that takes no callback of version 2.0 or 2.1 away.\<close>

fun keeps :: "(hal_version \<Rightarrow> nat option) \<Rightarrow> session_call \<Rightarrow> bool" where
  "keeps cbs (Assign v p) = (v \<in> {V2_0, V2_1} \<longrightarrow> p \<noteq> None \<and> cbs v \<in> {None, p})"
| "keeps cbs (Store v p) = (v \<in> {V2_0, V2_1} \<longrightarrow> p \<noteq> None \<and> cbs v \<in> {None, p})"
| "keeps cbs (Release v p old) = (v \<in> {V2_0, V2_1} \<longrightarrow> p \<noteq> None \<and> old \<in> {None, p})"
| "keeps cbs _ = True"

text \<open>A reporter that has only what it needs: its callbacks are of version 2.0 or 2.1 and still there.\<close>

fun supplied :: "(hal_version \<Rightarrow> nat option) \<Rightarrow> session_reporter \<Rightarrow> bool" where
  "supplied cbs (Report f (Test vs)) = (f \<noteq> OldLoc \<and> set vs \<subseteq> {V2_0, V2_1})"
| "supplied cbs (Report f (Use v)) = (f \<noteq> OldLoc \<and> v \<in> {V2_0, V2_1} \<and> cbs v \<noteq> None)"
| "supplied cbs (Report f (Call v cb)) = (f \<noteq> OldLoc \<and> v \<in> {V2_0, V2_1} \<and> cbs v = Some cb)"
| "supplied cbs (Report f _) = (f \<noteq> OldLoc)"
| "supplied cbs (Note r) = (r = Found)"
| "supplied cbs (NoteMembers r) = (r = Found)"
| "supplied cbs (Decide r) = (r = Found)"
| "supplied cbs (MockTest _) = False"
| "supplied cbs Crashed = False"
| "supplied cbs _ = True"

definition calm_inv :: "session \<Rightarrow> bool" where
  "calm_inv s \<longleftrightarrow> (object s = Alive \<longleftrightarrow> \<not> dying (caller s)) \<and>
     (\<forall>r. mThread s = Some r \<longrightarrow> object s = Alive \<and> keeps (sGnssCallback s) (caller s) \<and> supplied (sGnssCallback s) r)"

lemma calm_inv_new: "calm_inv (GnssTemplate_new active)"
  by (simp add: calm_inv_def GnssTemplate_new_def)

lemma after_calls [simp]:
  "dying (assigned v p) = False" "dying (stopped k) \<longleftrightarrow> k = Destroy"
  "keeps cbs (stopped k)" "v \<in> {V2_0, V2_1} \<longrightarrow> p \<noteq> None \<Longrightarrow> keeps cbs (assigned v p)"
  by (auto simp: assigned_def stopped_def split: option.split after_stop.split)

lemma supplied_store:
  assumes "supplied cbs r" "v \<in> {V2_0, V2_1} \<longrightarrow> p \<noteq> None \<and> cbs v \<in> {None, p}"
  shows "supplied (cbs(v := p)) r"
  using assms by (cases "(cbs, r)" rule: supplied.cases) auto

lemma caller_calm:
  "session_caller_step env s s' \<Longrightarrow> disturbs s s' = None \<Longrightarrow> session_inv s \<Longrightarrow> live_inv s \<Longrightarrow> calm_inv s \<Longrightarrow> calm_inv s'"
proof (induction rule: session_caller_step.induct)
  case (set_call s cb v)
  then show ?case by (auto simp: calm_inv_def disturbs_def split: if_splits)
next
  case (cleanup s)
  then show ?case by (auto simp: calm_inv_def disturbs_def split: if_splits)
next
  case (store s v p)
  then show ?case by (auto simp: calm_inv_def intro!: supplied_store)
next
  case (assign_store s v p)
  then show ?case by (auto simp: calm_inv_def intro!: supplied_store)
next
  case (spawn s)
  then show ?case by (auto simp: calm_inv_def session_inv_def)
next
  case (destroy s)
  then show ?case by (auto simp: calm_inv_def disturbs_def split: if_splits)
qed (auto simp: calm_inv_def invoke_live)

text \<open>The callback the reporter is about to invoke is alive.\<close>

lemma supplied_live:
  assumes "live_inv s" "keeps (sGnssCallback s) (caller s)" "v \<in> {V2_0, V2_1}" "sGnssCallback s v = Some cb"
  shows "cb \<notin> freed s"
proof (cases "dangling (caller s) = Some v")
  case True
  then obtain p where "caller s = Store v p" by (cases "caller s") auto
  with assms show ?thesis by (auto simp: live_inv_def)
qed (use assms in \<open>auto simp: live_inv_def\<close>)

lemma reporter_calm:
  "session_reporter_step env s s' \<Longrightarrow> \<not> throws env \<Longrightarrow> \<not> returns_null env \<Longrightarrow> live_inv s \<Longrightarrow> calm_inv s \<Longrightarrow> calm_inv s'"
proof (induction rule: session_reporter_step.induct)
  case (report_lock s f)
  then show ?case by (cases f) (auto simp: calm_inv_def)
next
  case (report_test s f v vs)
  then show ?case by (auto simp: calm_inv_def)
next
  case (report_call s f v cb)
  then have "cb \<notin> freed s" using supplied_live by (auto simp: calm_inv_def)
  with report_call show ?case by (auto simp: calm_inv_def)
qed (auto simp: calm_inv_def)

interpretation calm: machine "\<lambda>s s'. disturbed_by {} env s s' \<and> \<not> throws env \<and> \<not> returns_null env"
  "\<lambda>s. session_inv s \<and> live_inv s \<and> calm_inv s"
  by unfold_locales
    (auto simp: disturbed_by_def session_step_def intro: caller_live reporter_live session_caller_step_inv
      session_reporter_step_inv caller_calm reporter_calm)

text \<open>
  The runs of the examples: a session that is started before its client, of version 2.1, sets the
  callback 1; \<open>hello\<close> is what the client is then told.
\<close>

definition run :: "session_holder option \<Rightarrow> nat option \<Rightarrow> session_reporter \<Rightarrow> session_call \<Rightarrow> (hal_version \<times> nat \<times> event) list \<Rightarrow> session" where
  "run mutex cb r c ts =
     \<lparr>mIsActive = True, mMutex = mutex, sGnssCallback = (\<lambda>_. None)(V2_1 := cb), mMinIntervalMs = 1000, mGnssFd = -1,
      mHardwareModeChecked = False, mThread = Some r, caller = c, object = Alive, freed = {}, told = ts,
      registered = [(V2_1, 1)]\<rparr>"

definition hello :: "(hal_version \<times> nat \<times> event) list" where
  "hello = [(V2_1, 1, Capabilities), (V2_1, 1, SystemInfo 2020), (V2_1, 1, Name ''Android Mock GNSS Implementation v2.1'')]"

text \<open>A device file that is readable and ends, with the \<open>sp\<close> that releases first or last.\<close>

definition readable_env :: "bool \<Rightarrow> session_env" where
  "readable_env rf = \<lparr>throws = False, returns_null = False, release_first = rf\<rparr>"

lemmas step_simps = session_caller_step.simps session_reporter_step.simps disturbed_by_def session_step_def
  GnssTemplate_new_def run_def tell_def stopped_def assigned_def invoke_def released_def disturbs_def

lemma reaches_running:
  "(disturbed_by {} env)\<^sup>*\<^sup>* (GnssTemplate_new False) ((run None None Check Ready [])\<lparr>registered := []\<rparr>)"
proof -
  let ?new = "GnssTemplate_new False"
  have "stepwise (disturbed_by {} env)
    [?new, ?new\<lparr>caller := StartTest\<rparr>, ?new\<lparr>caller := StartActive\<rparr>,
     ?new\<lparr>mIsActive := True, caller := BeginStatus Lock\<rparr>,
     ?new\<lparr>mIsActive := True, mMutex := Some CallingThread, caller := BeginStatus (Test [V2_1])\<rparr>,
     ?new\<lparr>mIsActive := True, mMutex := Some CallingThread, caller := BeginStatus Unlock\<rparr>,
     ?new\<lparr>mIsActive := True, caller := Spawn\<rparr>, (run None None Check Ready [])\<lparr>registered := []\<rparr>]"
    by (simp add: step_simps)
  from stepwise_reaches [OF this] show ?thesis by simp
qed

lemma reaches_registered:
  "(disturbed_by {} env)\<^sup>*\<^sup>* ((run None None Check Ready [])\<lparr>registered := []\<rparr>) (run None (Some 1) Check Ready hello)"
proof -
  let ?middle = "if release_first env then run None None Check (Store V2_1 (Some 1)) []
    else run None (Some 1) Check (Release V2_1 (Some 1) None) []"
  have "stepwise (disturbed_by {} env)
    [(run None None Check Ready [])\<lparr>registered := []\<rparr>, run None None Check (Assign V2_1 (Some 1)) [], ?middle,
     run None (Some 1) Check (Greet V2_1 (greeting V2_1)) [], run None (Some 1) Check (Greet V2_1 (drop 1 (greeting V2_1))) (take 1 hello),
     run None (Some 1) Check (Greet V2_1 (drop 2 (greeting V2_1))) (take 2 hello), run None (Some 1) Check (Greet V2_1 []) hello,
     run None (Some 1) Check Ready hello]"
    by (simp add: step_simps hello_def)
  from stepwise_reaches [OF this] show ?thesis by simp
qed

lemma reaches_use:
  "(disturbed_by {} env)\<^sup>*\<^sup>* (run None (Some 1) Check Ready hello) (run None (Some 1) FilterMembers Ready hello)"
  "(disturbed_by {} env)\<^sup>*\<^sup>* (run None (Some 1) FilterMembers Ready hello)
     (run (Some ReporterThread) (Some 1) (Report Sv (Use V2_1)) Ready hello)"
  "(disturbed_by {} env)\<^sup>*\<^sup>* (run (Some ReporterThread) (Some 1) (Report Sv (Use V2_1)) Ready hello)
     (run (Some ReporterThread) (Some 1) (Report Sv (Call V2_1 1)) Ready hello)"
proof -
  let ?held = "\<lambda>p. run (Some ReporterThread) (Some 1) (Report Sv p) Ready hello"
  have "stepwise (disturbed_by {} env)
      [run None (Some 1) Check Ready hello, run None (Some 1) Filter Ready hello, run None (Some 1) FilterMembers Ready hello]"
    and "stepwise (disturbed_by {} env) [run None (Some 1) FilterMembers Ready hello,
       run None (Some 1) (Report Sv Lock) Ready hello, ?held (Test [V2_1]), ?held (Use V2_1)]"
    and "stepwise (disturbed_by {} env) [?held (Use V2_1), ?held (Call V2_1 1)]"
    by (simp_all add: step_simps)
  from this [THEN stepwise_reaches] show
    "(disturbed_by {} env)\<^sup>*\<^sup>* (run None (Some 1) Check Ready hello) (run None (Some 1) FilterMembers Ready hello)"
    "(disturbed_by {} env)\<^sup>*\<^sup>* (run None (Some 1) FilterMembers Ready hello) (?held (Use V2_1))"
    "(disturbed_by {} env)\<^sup>*\<^sup>* (?held (Use V2_1)) (?held (Call V2_1 1))" by simp_all
qed

lemma more_disturbed:
  assumes "(disturbed_by D env)\<^sup>*\<^sup>* s s'" "D \<subseteq> E"
  shows "(disturbed_by E env)\<^sup>*\<^sup>* s s'"
proof -
  have "disturbed_by D env \<le> disturbed_by E env" using assms(2) by (auto simp: disturbed_by_def le_fun_def)
  from rtranclp_mono [OF this] assms(1) show ?thesis by blast
qed

lemma disturbed_steps:
  assumes "(disturbed_by D env)\<^sup>*\<^sup>* s s'"
  shows "(session_step env)\<^sup>*\<^sup>* s s'"
proof -
  have "disturbed_by D env \<le> session_step env" by (auto simp: disturbed_by_def)
  from rtranclp_mono [OF this] assms show ?thesis by blast
qed

lemma reaches_points:
  "(disturbed_by D env)\<^sup>*\<^sup>* (GnssTemplate_new False) (run None (Some 1) FilterMembers Ready hello)"
  "(disturbed_by D env)\<^sup>*\<^sup>* (GnssTemplate_new False) (run (Some ReporterThread) (Some 1) (Report Sv (Use V2_1)) Ready hello)"
  "(disturbed_by D env)\<^sup>*\<^sup>* (GnssTemplate_new False) (run (Some ReporterThread) (Some 1) (Report Sv (Call V2_1 1)) Ready hello)"
proof -
  note steps = reaches_running reaches_registered reaches_use
  have "(disturbed_by {} env)\<^sup>*\<^sup>* (GnssTemplate_new False) (run None (Some 1) FilterMembers Ready hello)"
    using steps(1,2,3) by (meson rtranclp_trans)
  moreover from this have "(disturbed_by {} env)\<^sup>*\<^sup>* (GnssTemplate_new False)
      (run (Some ReporterThread) (Some 1) (Report Sv (Use V2_1)) Ready hello)"
    using steps(4) by (meson rtranclp_trans)
  moreover from this have "(disturbed_by {} env)\<^sup>*\<^sup>* (GnssTemplate_new False)
      (run (Some ReporterThread) (Some 1) (Report Sv (Call V2_1 1)) Ready hello)"
    using steps(5) by (meson rtranclp_trans)
  ultimately show
    "(disturbed_by D env)\<^sup>*\<^sup>* (GnssTemplate_new False) (run None (Some 1) FilterMembers Ready hello)"
    "(disturbed_by D env)\<^sup>*\<^sup>* (GnssTemplate_new False) (run (Some ReporterThread) (Some 1) (Report Sv (Use V2_1)) Ready hello)"
    "(disturbed_by D env)\<^sup>*\<^sup>* (GnssTemplate_new False) (run (Some ReporterThread) (Some 1) (Report Sv (Call V2_1 1)) Ready hello)"
    by (auto intro: more_disturbed)
qed

lemma cleanup_crash:
  "\<exists>s. (disturbed_by {Cleanup} env)\<^sup>*\<^sup>* (run (Some ReporterThread) (Some 1) (Report Sv (Use V2_1)) Ready hello) s \<and>
     mThread s = Some Crashed"
proof -
  let ?at = "\<lambda>cb r c. run (Some ReporterThread) cb r c hello" and ?use = "Report Sv (Use V2_1)"
  have "stepwise (disturbed_by {Cleanup} env)
    (if release_first env
     then [?at (Some 1) ?use Ready, ?at (Some 1) ?use (Assign V2_1 None), ?at (Some 1) ?use (Store V2_1 None),
       ?at None ?use (Assign V2_0 None), ?at None Crashed (Assign V2_0 None)]
     else [?at (Some 1) ?use Ready, ?at (Some 1) ?use (Assign V2_1 None), ?at None ?use (Release V2_1 None (Some 1)),
       ?at None ?use (Assign V2_0 None), ?at None Crashed (Assign V2_0 None)])"
    by (simp add: step_simps)
  then have "(disturbed_by {Cleanup} env)\<^sup>*\<^sup>* (?at (Some 1) ?use Ready) (?at None Crashed (Assign V2_0 None))"
    by (cases "release_first env") (auto dest: stepwise_reaches)
  then show ?thesis by (intro exI conjI, assumption) (simp add: run_def)
qed

lemma replacement_crash:
  "\<exists>s. (disturbed_by {Replacement} env)\<^sup>*\<^sup>* (run (Some ReporterThread) (Some 1) (Report Sv (Call V2_1 1)) Ready hello) s \<and>
     mThread s = Some Crashed"
proof -
  let ?at = "\<lambda>gone cb r c. (run (Some ReporterThread) (Some cb) r c hello)
     \<lparr>freed := gone, registered := [(V2_1, 1), (V2_1, 2)]\<rparr>"
    and ?call = "Report Sv (Call V2_1 1)" and ?greet = "Greet V2_1 (greeting V2_1)"
  have "stepwise (disturbed_by {Replacement} env)
    (if release_first env
     then [run (Some ReporterThread) (Some 1) ?call Ready hello, ?at {} 1 ?call (Assign V2_1 (Some 2)),
       ?at {1} 1 ?call (Store V2_1 (Some 2)), ?at {1} 2 ?call ?greet, ?at {1} 2 Crashed ?greet]
     else [run (Some ReporterThread) (Some 1) ?call Ready hello, ?at {} 1 ?call (Assign V2_1 (Some 2)),
       ?at {} 2 ?call (Release V2_1 (Some 2) (Some 1)), ?at {1} 2 ?call ?greet, ?at {1} 2 Crashed ?greet])"
    by (simp add: step_simps)
  then have "(disturbed_by {Replacement} env)\<^sup>*\<^sup>* (run (Some ReporterThread) (Some 1) ?call Ready hello) (?at {1} 2 Crashed ?greet)"
    by (cases "release_first env") (auto dest: stepwise_reaches)
  then show ?thesis by (intro exI conjI, assumption) (simp add: run_def)
qed

lemma destruction_crash:
  "\<exists>s. (disturbed_by {Destruction} env)\<^sup>*\<^sup>* (run None (Some 1) FilterMembers Ready hello) s \<and> mThread s = Some Crashed"
proof -
  have "stepwise (disturbed_by {Destruction} env)
    [run None (Some 1) FilterMembers Ready hello, (run None (Some 1) FilterMembers Destroying hello)\<lparr>object := MembersGone\<rparr>,
     (run None (Some 1) Crashed Destroying hello)\<lparr>object := MembersGone\<rparr>]"
    by (simp add: step_simps)
  from stepwise_reaches [OF this] show ?thesis by (intro exI conjI, simp) (simp add: run_def)
qed

text \<open>
  C30. With a readable device file the service crashes only when it is disturbed: in a run in which
  \<open>cleanup\<close>, the replacement of a callback of version 2.0 or 2.1 by another and the destruction of the
  object begin only when no reporter runs, the reporter never uses a null or freed callback nor a
  destroyed member.  Each of the three alone leads to a crash when it begins while the reporter runs,
  whichever way an \<open>sp\<close> is assigned: \<open>cleanup\<close> and \<open>setCallback_2_1\<close> assign the callbacks without the
  mutex, between the reporter's test, load and call, and the members of \<open>GnssHidlHal\<close> are destroyed
  before \<open>~GnssTemplate\<close> stops the reporter.  (The steps interleave; a data race is no failure of its
  own here.)
\<close>

theorem session_crashes_when_disturbed:
  "(\<not> throws env \<and> \<not> returns_null env \<longrightarrow>
     (\<forall>s. (disturbed_by {} env)\<^sup>*\<^sup>* (GnssTemplate_new active) s \<longrightarrow> mThread s \<noteq> Some Crashed)) \<and>
   (\<forall>d. \<exists>s. (disturbed_by {d} env)\<^sup>*\<^sup>* (GnssTemplate_new False) s \<and> mThread s = Some Crashed)"
proof (intro conjI allI impI)
  fix s assume env: "\<not> throws env \<and> \<not> returns_null env" and "(disturbed_by {} env)\<^sup>*\<^sup>* (GnssTemplate_new active) s"
  then have "calm_inv s" using calm.along [of env "GnssTemplate_new active" s] session_inv_new calm_inv_new by simp
  then show "mThread s \<noteq> Some Crashed" by (auto simp: calm_inv_def)
next
  fix d
  show "\<exists>s. (disturbed_by {d} env)\<^sup>*\<^sup>* (GnssTemplate_new False) s \<and> mThread s = Some Crashed"
    using reaches_points cleanup_crash replacement_crash destruction_crash
    by (cases d) (meson rtranclp_trans)+
qed

theorem session_crashes_when_disturbed_witness:
  "mThread (run (Some ReporterThread) (Some 1) (Report Sv (Call V2_1 1)) Ready hello) \<noteq> Some Crashed \<and>
   (\<exists>s. (disturbed_by {Replacement} (readable_env True))\<^sup>*\<^sup>* (GnssTemplate_new False) s \<and> mThread s = Some Crashed)"
  using session_crashes_when_disturbed [of "readable_env True" False] reaches_points(3) [of "{}" "readable_env True"]
  by (simp add: readable_env_def)

theorem session_never_deadlocks_witness:
  "\<exists>s'. session_step (readable_env True) (run (Some ReporterThread) (Some 1) (Report Sv (Use V2_1)) Ready hello) s'"
  using session_never_deadlocks [OF disturbed_steps, OF reaches_points(2)] by (simp add: run_def)

section \<open>Clients of the old versions\<close>

fun old :: "hal_version \<Rightarrow> bool" where
  "old V1_0 = True"
| "old V1_1 = True"
| "old _ = False"

text \<open>The greetings of clients, one after the other.\<close>

definition greetings :: "(hal_version \<times> nat) list \<Rightarrow> (hal_version \<times> nat \<times> event) list" where
  "greetings rs = concat (map (\<lambda>(v, cb). map (\<lambda>e. (v, cb, e)) (greeting v)) rs)"

lemma greetings_simps [simp]:
  "greetings [] = []"
  "greetings (rs @ [(v, cb)]) = greetings rs @ map (\<lambda>e. (v, cb, e)) (greeting v)"
  by (simp_all add: greetings_def)

text \<open>What is left of the greeting of an old client.\<close>

fun pending :: "(hal_version \<Rightarrow> nat option) \<Rightarrow> session_call \<Rightarrow> (hal_version \<times> nat \<times> event) list" where
  "pending cbs (Assign v (Some cb)) = (if old v then map (\<lambda>e. (v, cb, e)) (greeting v) else [])"
| "pending cbs (Store v (Some cb)) = (if old v then map (\<lambda>e. (v, cb, e)) (greeting v) else [])"
| "pending cbs (Release v (Some cb) _) = (if old v then map (\<lambda>e. (v, cb, e)) (greeting v) else [])"
| "pending cbs (Greet v es) = (if old v then map (\<lambda>e. (v, the (cbs v), e)) es else [])"
| "pending cbs _ = []"

text \<open>A reporter that has no business with the old clients.\<close>

fun recent :: "session_reporter \<Rightarrow> bool" where
  "recent (Report f (Test vs)) = (f \<noteq> OldLoc \<and> (\<forall>v \<in> set vs. \<not> old v))"
| "recent (Report f (Use v)) = (f \<noteq> OldLoc \<and> \<not> old v)"
| "recent (Report f (Call v cb)) = (f \<noteq> OldLoc \<and> \<not> old v)"
| "recent (Report f _) = (f \<noteq> OldLoc)"
| "recent (Note r) = (r = Found)"
| "recent (NoteMembers r) = (r = Found)"
| "recent (Decide r) = (r = Found)"
| "recent (MockTest _) = False"
| "recent _ = True"

definition greeted_inv :: "session \<Rightarrow> bool" where
  "greeted_inv s \<longleftrightarrow>
     filter (\<lambda>(v, cb, e). old v) (told s) @ pending (sGnssCallback s) (caller s) =
       greetings (filter (\<lambda>(v, cb). old v) (registered s)) \<and>
     (\<forall>r. mThread s = Some r \<longrightarrow> recent r)"

lemma pending_after [simp]:
  "pending cbs (assigned v p) =
     (case p of Some cb \<Rightarrow> if old v then map (\<lambda>e. (v, the (cbs v), e)) (greeting v) else [] | None \<Rightarrow> [])"
  "pending cbs (stopped k) = []"
  by (auto simp: assigned_def stopped_def split: option.split after_stop.split)

lemma caller_greets: "session_caller_step env s s' \<Longrightarrow> live_inv s \<Longrightarrow> greeted_inv s \<Longrightarrow> greeted_inv s'"
proof (induction rule: session_caller_step.induct)
  case (set_call s cb v)
  then show ?case by (cases "old v") (auto simp: greeted_inv_def)
next
  case (assign_release s v p cbs)
  then show ?case by (cases p) (auto simp: greeted_inv_def)
next
  case (store s v p)
  then show ?case by (cases p) (auto simp: greeted_inv_def)
next
  case (assign_store s v p)
  then show ?case by (cases p) (auto simp: greeted_inv_def)
next
  case (release s v p old' cbs)
  then have "sGnssCallback s v = p" by (simp add: live_inv_def)
  with release show ?case by (cases p) (auto simp: greeted_inv_def)
next
  case (greeted s v)
  then show ?case by (cases "old v") (auto simp: greeted_inv_def)
qed (auto simp: greeted_inv_def invoke_live)

lemma reporter_greets:
  "session_reporter_step env s s' \<Longrightarrow> \<not> returns_null env \<Longrightarrow> greeted_inv s \<Longrightarrow> greeted_inv s'"
proof (induction rule: session_reporter_step.induct)
  case (report_lock s f)
  then show ?case by (cases f) (auto simp: greeted_inv_def)
qed (auto simp: greeted_inv_def split: option.split)

interpretation greeting_only: machine "\<lambda>s s'. session_step env s s' \<and> \<not> returns_null env"
  "\<lambda>s. live_inv s \<and> greeted_inv s"
  by unfold_locales (auto simp: session_step_def intro: caller_live reporter_live caller_greets reporter_greets)

text \<open>The run of a client of version 1.0, with the callback 1; \<open>hello_1_0\<close> is what it is told.\<close>

definition hello_1_0 :: "(hal_version \<times> nat \<times> event) list" where
  "hello_1_0 = [(V1_0, 1, Capabilities), (V1_0, 1, SystemInfo 2018)]"

definition old_run :: "nat option \<Rightarrow> session_call \<Rightarrow> (hal_version \<times> nat \<times> event) list \<Rightarrow> session" where
  "old_run cb c ts = (GnssTemplate_new False)
     \<lparr>sGnssCallback := (\<lambda>_. None)(V1_0 := cb), caller := c, told := ts, registered := [(V1_0, 1)]\<rparr>"

lemma reaches_greeted: "(session_step env)\<^sup>*\<^sup>* (GnssTemplate_new False) (old_run (Some 1) Ready hello_1_0)"
proof -
  let ?middle = "if release_first env then old_run None (Store V1_0 (Some 1)) []
    else old_run (Some 1) (Release V1_0 (Some 1) None) []"
  have "stepwise (session_step env)
    [GnssTemplate_new False, old_run None (Assign V1_0 (Some 1)) [], ?middle,
     old_run (Some 1) (Greet V1_0 (greeting V1_0)) [], old_run (Some 1) (Greet V1_0 (drop 1 (greeting V1_0))) (take 1 hello_1_0),
     old_run (Some 1) (Greet V1_0 []) hello_1_0, old_run (Some 1) Ready hello_1_0]"
    by (simp add: step_simps old_run_def hello_1_0_def)
  from stepwise_reaches [OF this] show ?thesis by simp
qed

lemma reaches_old_location:
  assumes "returns_null env"
  shows "\<exists>s. (session_step env)\<^sup>*\<^sup>* (old_run (Some 1) Ready hello_1_0) s \<and> (V1_0, 1, Location) \<in> set (told s)"
proof -
  let ?at = "\<lambda>c. old_run (Some 1) c hello_1_0"
  let ?rep = "\<lambda>m r. (?at Ready)\<lparr>mIsActive := True, mMutex := m, mThread := Some r\<rparr>"
  let ?lock = "Some ReporterThread"
  have 1: "stepwise (session_step env)
    [?at Ready, ?at StartTest, ?at StartActive, (?at (BeginStatus Lock))\<lparr>mIsActive := True\<rparr>,
     (?at (BeginStatus (Test [V2_1])))\<lparr>mIsActive := True, mMutex := Some CallingThread\<rparr>,
     (?at (BeginStatus Unlock))\<lparr>mIsActive := True, mMutex := Some CallingThread\<rparr>,
     (?at Spawn)\<lparr>mIsActive := True\<rparr>, ?rep None Check]"
    by (simp add: step_simps old_run_def)
  have 2: "stepwise (session_step env)
    [?rep None Check, ?rep None Filter, ?rep None FilterMembers, ?rep None (Report Sv Lock),
     ?rep ?lock (Report Sv (Test [V2_1])), ?rep ?lock (Report Sv (Test [])), ?rep ?lock (Report Sv Unlock), ?rep None Locate]"
    by (simp add: step_simps old_run_def)
  have 3: "stepwise (session_step env)
    [?rep None Locate, ?rep None (Note NullPointer), ?rep None (NoteMembers NullPointer), ?rep None (Decide NullPointer),
     ?rep None (MockTest [V2_1, V2_0]), ?rep None (MockTest [V2_0]), ?rep None (MockTest []), ?rep None (Report OldLoc Lock)]"
    using assms by (simp add: step_simps old_run_def)
  have 4: "stepwise (session_step env)
    [?rep None (Report OldLoc Lock), ?rep ?lock (Report OldLoc (Test [V1_1, V1_0])), ?rep ?lock (Report OldLoc (Test [V1_0])),
     ?rep ?lock (Report OldLoc (Use V1_0)), ?rep ?lock (Report OldLoc (Call V1_0 1)),
     (?rep ?lock (Report OldLoc Unlock))\<lparr>told := hello_1_0 @ [(V1_0, 1, Location)]\<rparr>]"
    by (simp add: step_simps old_run_def)
  have "(session_step env)\<^sup>*\<^sup>* (?at Ready) ((?rep ?lock (Report OldLoc Unlock))\<lparr>told := hello_1_0 @ [(V1_0, 1, Location)]\<rparr>)"
    using 1 2 3 4 [THEN stepwise_reaches] stepwise_reaches [OF 1] stepwise_reaches [OF 2] stepwise_reaches [OF 3] by simp
  then show ?thesis by (intro exI conjI, assumption) simp
qed

text \<open>
  C31. The clients of version 1.0 and 1.1 are greeted, completely and in the order of their calls, by the
  time \<open>setCallback\<close> returns, and are never told anything else: no location, no satellites and no
  status, whatever is called.  The reason is that \<open>getLocationFromHW\<close> never returns a null pointer; in
  a service whose \<open>getLocationFromHW\<close> could, a client of version 1.0 can be told a location.
\<close>

theorem old_clients_only_greeted:
  "(\<forall>s. (session_step (service_env k tiny rf))\<^sup>*\<^sup>* (GnssTemplate_new active) s \<longrightarrow>
     (\<exists>rest. filter (\<lambda>(v, cb, e). v \<in> {V1_0, V1_1}) (told s) @ rest =
         concat (map (\<lambda>(v, cb). map (\<lambda>e. (v, cb, e)) (greeting v))
           (filter (\<lambda>(v, cb). v \<in> {V1_0, V1_1}) (registered s))) \<and>
       (caller s = Ready \<longrightarrow> rest = []))) \<and>
   (returns_null env \<longrightarrow>
     (\<exists>s. (session_step env)\<^sup>*\<^sup>* (GnssTemplate_new False) s \<and> (V1_0, 1, Location) \<in> set (told s)))"
proof (intro conjI allI impI)
  fix s assume "(session_step (service_env k tiny rf))\<^sup>*\<^sup>* (GnssTemplate_new active) s"
  moreover have "greeted_inv (GnssTemplate_new active)" by (simp add: greeted_inv_def GnssTemplate_new_def)
  ultimately have "greeted_inv s"
    using greeting_only.along [of "service_env k tiny rf" "GnssTemplate_new active" s] live_inv_new service_never_null
    by simp
  moreover have "old v \<longleftrightarrow> v \<in> {V1_0, V1_1}" for v by (cases v) simp_all
  moreover have "caller s = Ready \<Longrightarrow> pending (sGnssCallback s) (caller s) = []" by simp
  ultimately show "\<exists>rest. filter (\<lambda>(v, cb, e). v \<in> {V1_0, V1_1}) (told s) @ rest =
         concat (map (\<lambda>(v, cb). map (\<lambda>e. (v, cb, e)) (greeting v))
           (filter (\<lambda>(v, cb). v \<in> {V1_0, V1_1}) (registered s))) \<and>
       (caller s = Ready \<longrightarrow> rest = [])"
    unfolding greeted_inv_def greetings_def by auto
next
  assume "returns_null env"
  from reaches_old_location [OF this] reaches_greeted [of env]
  show "\<exists>s. (session_step env)\<^sup>*\<^sup>* (GnssTemplate_new False) s \<and> (V1_0, 1, Location) \<in> set (told s)"
    by (meson rtranclp_trans)
qed

text \<open>A client of version 1.0 with an idle device, and one with a device whose reader returns null.\<close>

theorem old_clients_only_greeted_witness:
  "told (old_run (Some 1) Ready hello_1_0) = [(V1_0, 1, Capabilities), (V1_0, 1, SystemInfo 2018)] \<and>
   (\<exists>s. (session_step \<lparr>throws = False, returns_null = True, release_first = True\<rparr>)\<^sup>*\<^sup>* (GnssTemplate_new False) s \<and>
     (V1_0, 1, Location) \<in> set (told s))"
  using old_clients_only_greeted [of "\<lambda>t. idle_answer" "\<lambda>x. False" True False
      "\<lparr>throws = False, returns_null = True, release_first = True\<rparr>"]
    reaches_greeted [of "service_env (\<lambda>t. idle_answer) (\<lambda>x. False) True"]
  by (fastforce simp: old_run_def hello_1_0_def)

definition ended :: "session_reporter \<Rightarrow> (hal_version \<times> nat \<times> event) list \<Rightarrow> session" where
  "ended r ts = (run (Some ReporterThread) (Some 1) r (EndStatus Lock Return) ts)\<lparr>mIsActive := False\<rparr>"

theorem stop_ends_session_witness:
  "count_told SvStatus (ended (Report Sv Unlock) (hello @ [(V2_1, 1, SvStatus)])) \<le>
     count_told SvStatus (ended (Report Sv (Call V2_1 1)) hello) + 1"
proof -
  let ?env = "readable_env True" and ?call = "Report Sv (Call V2_1 1)"
  have "stepwise (session_step ?env)
    [run (Some ReporterThread) (Some 1) ?call Ready hello,
     run (Some ReporterThread) (Some 1) ?call (StopClear Return) hello, ended ?call hello]"
    by (simp add: step_simps ended_def)
  from stepwise_reaches [OF this]
  have "(session_step ?env)\<^sup>*\<^sup>* (run (Some ReporterThread) (Some 1) ?call Ready hello) (ended ?call hello)" by simp
  then have s: "(session_step ?env)\<^sup>*\<^sup>* (GnssTemplate_new False) (ended ?call hello)"
    by (rule rtranclp_trans [OF disturbed_steps [OF reaches_points(3)]])
  have "stepwise (no_start ?env) [ended ?call hello, ended (Report Sv Unlock) (hello @ [(V2_1, 1, SvStatus)])]"
    by (simp add: step_simps ended_def no_start_def)
  from stepwise_reaches [OF this]
  have s1: "(no_start ?env)\<^sup>*\<^sup>* (ended ?call hello) (ended (Report Sv Unlock) (hello @ [(V2_1, 1, SvStatus)]))" by simp
  show ?thesis
    using stop_ends_session [OF s _ s1 rtranclp.rtrancl_refl] by (simp add: ended_def run_def)
qed

end
