(* ===== verification/Measurement.thy ===== *)
theory Measurement
  imports Prelude
begin

text \<open>
  The measurement interfaces of the GNSS service, as machines of the thread that calls them
  and the thread that reports to the client.  Every access to an atomic, the mutex and a callback is a
  step of its own, so every interleaving of the code is a path; the log of the callbacks invoked is
  kept in the state.  A callback is a number; the client is not modelled, and what it is told is a
  table of mock data.  \<open>std::this_thread::sleep_for\<close> is any delay.  The machines are those of one
  object with one calling thread; the callbacks are static.
\<close>

section \<open>The HIDL interface\<close>

text \<open>
  \<open>gps/gnss/common/utils/default/v2_1/GnssMeasurement.cpp\<close>.  The calling thread is between two calls
  or at a point of one; the points of \<open>stop()\<close> and \<open>start()\<close> are those of their callers.
\<close>

datatype version = V2_0 | V2_1

datatype measurement_call =
    Idle
  | SetLock version "nat option"  \<comment> \<open>\<open>setCallback_2_0\<close> or \<open>setCallback_2_1\<close>, waiting for the mutex\<close>
  | SetCheck                      \<comment> \<open>\<open>if (mIsActive)\<close>\<close>
  | SetStop | SetJoin             \<comment> \<open>\<open>stop()\<close>: the store to \<open>mIsActive\<close>, the join\<close>
  | SetStart | SetSpawn           \<comment> \<open>\<open>start()\<close>: the store to \<open>mIsActive\<close>, the new thread\<close>
  | SetUnlock
  | CloseStop | CloseJoin | CloseLock | CloseUnlock
  | DestroyStop | DestroyJoin | Destroyed
  | Terminated                    \<comment> \<open>\<open>std::terminate\<close>: a thread is assigned to a joinable one\<close>

datatype reporter =
    Check                         \<comment> \<open>\<open>while (mIsActive == true)\<close>\<close>
  | Choose                        \<comment> \<open>\<open>if (sCallback_2_1 != nullptr)\<close>\<close>
  | Locking version
  | Reporting version             \<comment> \<open>in \<open>reportMeasurement\<close>, with the mutex\<close>
  | Sleeping
  | Finished

datatype holder = CallingThread | ReporterThread

record measurement =
  mIsActive :: bool
  mMutex :: "holder option"
  sCallback_2_1 :: "nat option"
  sCallback_2_0 :: "nat option"
  mThread :: "reporter option"     \<comment> \<open>\<open>None\<close>: not joinable\<close>
  caller :: measurement_call
  invoked :: "(version \<times> nat) list"

text \<open>The constructor leaves \<open>mIsActive\<close> as it finds it.\<close>

definition GnssMeasurement_new :: "bool \<Rightarrow> measurement" where
  "GnssMeasurement_new active =
     \<lparr>mIsActive = active, mMutex = None, sCallback_2_1 = None, sCallback_2_0 = None, mThread = None,
      caller = Idle, invoked = []\<rparr>"

definition callback_of :: "version \<Rightarrow> measurement \<Rightarrow> nat option" where
  "callback_of v s = (case v of V2_1 \<Rightarrow> sCallback_2_1 s | V2_0 \<Rightarrow> sCallback_2_0 s)"

definition set_callback :: "version \<Rightarrow> nat option \<Rightarrow> measurement \<Rightarrow> measurement" where
  "set_callback v cb s =
     (case v of V2_1 \<Rightarrow> s\<lparr>sCallback_2_1 := cb\<rparr> | V2_0 \<Rightarrow> s\<lparr>sCallback_2_0 := cb\<rparr>)"

text \<open>\<open>reportMeasurement\<close> with the mutex, which it gives back.\<close>

definition report :: "version \<Rightarrow> measurement \<Rightarrow> measurement" where
  "report v s =
     s\<lparr>invoked := invoked s @ (case callback_of v s of None \<Rightarrow> [] | Some cb \<Rightarrow> [(v, cb)]),
       mMutex := None\<rparr>"

text \<open>\<open>if (mThread.joinable()) mThread.join();\<close> is done when there is no thread or it has ended.\<close>

definition joined :: "measurement \<Rightarrow> bool" where
  "joined s \<longleftrightarrow> mThread s = None \<or> mThread s = Some Finished"

inductive caller_step :: "measurement \<Rightarrow> measurement \<Rightarrow> bool" where
  call_set: "caller s = Idle \<Longrightarrow> caller_step s (s\<lparr>caller := SetLock v cb\<rparr>)"
| set_lock: "caller s = SetLock v cb \<Longrightarrow> mMutex s = None \<Longrightarrow>
    caller_step s (set_callback v cb (s\<lparr>mMutex := Some CallingThread, caller := SetCheck\<rparr>))"
| set_check: "caller s = SetCheck \<Longrightarrow>
    caller_step s (s\<lparr>caller := if mIsActive s then SetStop else SetStart\<rparr>)"
| set_stop: "caller s = SetStop \<Longrightarrow> caller_step s (s\<lparr>mIsActive := False, caller := SetJoin\<rparr>)"
| set_join: "caller s = SetJoin \<Longrightarrow> joined s \<Longrightarrow> caller_step s (s\<lparr>mThread := None, caller := SetStart\<rparr>)"
| set_start: "caller s = SetStart \<Longrightarrow> caller_step s (s\<lparr>mIsActive := True, caller := SetSpawn\<rparr>)"
| set_spawn: "caller s = SetSpawn \<Longrightarrow>
    caller_step s (if mThread s = None then s\<lparr>mThread := Some Check, caller := SetUnlock\<rparr>
                   else s\<lparr>caller := Terminated\<rparr>)"
| set_unlock: "caller s = SetUnlock \<Longrightarrow> caller_step s (s\<lparr>mMutex := None, caller := Idle\<rparr>)"
| call_close: "caller s = Idle \<Longrightarrow> caller_step s (s\<lparr>caller := CloseStop\<rparr>)"
| close_stop: "caller s = CloseStop \<Longrightarrow> caller_step s (s\<lparr>mIsActive := False, caller := CloseJoin\<rparr>)"
| close_join: "caller s = CloseJoin \<Longrightarrow> joined s \<Longrightarrow> caller_step s (s\<lparr>mThread := None, caller := CloseLock\<rparr>)"
| close_lock: "caller s = CloseLock \<Longrightarrow> mMutex s = None \<Longrightarrow>
    caller_step s (s\<lparr>mMutex := Some CallingThread, sCallback_2_1 := None, sCallback_2_0 := None, caller := CloseUnlock\<rparr>)"
| close_unlock: "caller s = CloseUnlock \<Longrightarrow> caller_step s (s\<lparr>mMutex := None, caller := Idle\<rparr>)"
| destroy: "caller s = Idle \<Longrightarrow> caller_step s (s\<lparr>caller := DestroyStop\<rparr>)"
| destroy_stop: "caller s = DestroyStop \<Longrightarrow> caller_step s (s\<lparr>mIsActive := False, caller := DestroyJoin\<rparr>)"
| destroy_join: "caller s = DestroyJoin \<Longrightarrow> joined s \<Longrightarrow> caller_step s (s\<lparr>mThread := None, caller := Destroyed\<rparr>)"

inductive reporter_step :: "measurement \<Rightarrow> measurement \<Rightarrow> bool" where
  check: "mThread s = Some Check \<Longrightarrow>
    reporter_step s (s\<lparr>mThread := Some (if mIsActive s then Choose else Finished)\<rparr>)"
| choose: "mThread s = Some Choose \<Longrightarrow>
    reporter_step s (s\<lparr>mThread := Some (Locking (if sCallback_2_1 s \<noteq> None then V2_1 else V2_0))\<rparr>)"
| lock: "mThread s = Some (Locking v) \<Longrightarrow> mMutex s = None \<Longrightarrow>
    reporter_step s (s\<lparr>mMutex := Some ReporterThread, mThread := Some (Reporting v)\<rparr>)"
| report: "mThread s = Some (Reporting v) \<Longrightarrow> reporter_step s ((report v s)\<lparr>mThread := Some Sleeping\<rparr>)"
| wake: "mThread s = Some Sleeping \<Longrightarrow> reporter_step s (s\<lparr>mThread := Some Check\<rparr>)"

definition measurement_step :: "measurement \<Rightarrow> measurement \<Rightarrow> bool" where
  "measurement_step s s' \<longleftrightarrow> caller_step s s' \<or> reporter_step s s'"

section \<open>Who holds the mutex, and when there is a reporter\<close>

definition caller_holds :: "measurement_call \<Rightarrow> bool" where
  "caller_holds c \<longleftrightarrow> c \<in> {SetCheck, SetStop, SetJoin, SetStart, SetSpawn, SetUnlock, CloseUnlock, Terminated}"

definition no_reporter :: "measurement_call \<Rightarrow> bool" where
  "no_reporter c \<longleftrightarrow> c \<in> {SetStart, SetSpawn, CloseLock, CloseUnlock, Destroyed}"

definition joining :: "measurement_call \<Rightarrow> bool" where
  "joining c \<longleftrightarrow> c \<in> {SetJoin, CloseJoin, DestroyJoin}"

text \<open>A reporter runs only while the interface is active, or its end is waited for.\<close>

definition measurement_inv :: "measurement \<Rightarrow> bool" where
  "measurement_inv s \<longleftrightarrow>
     (mMutex s = Some CallingThread \<longleftrightarrow> caller_holds (caller s)) \<and>
     (mMutex s = Some ReporterThread \<longleftrightarrow> (\<exists>v. mThread s = Some (Reporting v))) \<and>
     (no_reporter (caller s) \<longrightarrow> mThread s = None) \<and>
     (mThread s \<noteq> None \<longrightarrow> \<not> joining (caller s) \<longrightarrow> mIsActive s \<and> mThread s \<noteq> Some Finished) \<and>
     (caller s = SetSpawn \<longrightarrow> mIsActive s) \<and> caller s \<noteq> Terminated"

lemmas caller_points = caller_holds_def no_reporter_def joining_def

lemma set_callback_fields [simp]:
  "mIsActive (set_callback v cb s) = mIsActive s" "mMutex (set_callback v cb s) = mMutex s"
  "mThread (set_callback v cb s) = mThread s" "caller (set_callback v cb s) = caller s"
  "invoked (set_callback v cb s) = invoked s"
  by (simp_all add: set_callback_def split: version.split)

lemma report_fields [simp]:
  "mIsActive (report v s) = mIsActive s" "mMutex (report v s) = None" "caller (report v s) = caller s"
  by (simp_all add: report_def)

lemma caller_step_inv: "caller_step s s' \<Longrightarrow> measurement_inv s \<Longrightarrow> measurement_inv s'"
  by (induction rule: caller_step.induct) (auto simp: measurement_inv_def caller_points joined_def)

lemma reporter_step_inv: "reporter_step s s' \<Longrightarrow> measurement_inv s \<Longrightarrow> measurement_inv s'"
  by (induction rule: reporter_step.induct) (auto simp: measurement_inv_def caller_points)

interpretation measuring: machine measurement_step measurement_inv
  by unfold_locales (auto simp: measurement_step_def intro: caller_step_inv reporter_step_inv)

lemma measurement_inv_new: "measurement_inv (GnssMeasurement_new active)"
  by (simp add: measurement_inv_def GnssMeasurement_new_def caller_points)


section \<open>Deadlock\<close>

text \<open>
  \<open>setCallback\<close> waits for the end of the reporter with the mutex, and the reporter waits for the mutex.
\<close>

definition deadlocked :: "measurement \<Rightarrow> bool" where
  "deadlocked s \<longleftrightarrow> caller s = SetJoin \<and> (\<exists>v. mThread s = Some (Locking v))"

lemma reporter_moves:
  assumes "mThread s = Some r" "r \<noteq> Finished" "\<And>v. r = Locking v \<Longrightarrow> mMutex s = None"
  shows "\<exists>s'. reporter_step s s'"
  using assms by (cases r) (blast intro: reporter_step.intros)+

lemma stuck_iff:
  assumes "measurement_inv s"
  shows "(\<nexists>s'. measurement_step s s') \<longleftrightarrow> caller s = Destroyed \<or> deadlocked s"
proof
  assume stuck: "\<nexists>s'. measurement_step s s'"
  then have r: "mThread s = None \<or> mThread s = Some Finished \<or> (\<exists>v. mThread s = Some (Locking v) \<and> mMutex s \<noteq> None)"
    and c: "\<And>s'. \<not> caller_step s s'"
    using reporter_moves [of s] unfolding measurement_step_def by (metis option.exhaust)+
  have free: "mMutex s = None" if "mThread s = None \<or> mThread s = Some Finished" "\<not> caller_holds (caller s)"
    using assms that by (cases "mMutex s"; cases "the (mMutex s)") (auto simp: measurement_inv_def)
  have held: "caller_holds (caller s)" if "mThread s = Some (Locking v)" for v
    using assms that r by (cases "mMutex s"; cases "the (mMutex s)") (auto simp: measurement_inv_def)
  have waits: "\<not> joined s" if "joining (caller s)"
    using c that by (auto simp: joining_def intro: caller_step.intros)
  show "caller s = Destroyed \<or> deadlocked s"
    using c r free held waits assms
    by (cases "caller s")
      (auto simp: deadlocked_def caller_points joined_def measurement_inv_def intro: caller_step.intros)
next
  assume d: "caller s = Destroyed \<or> deadlocked s"
  have "\<not> caller_step s s'" for s'
  proof
    assume "caller_step s s'"
    then show False using d by cases (auto simp: deadlocked_def joined_def)
  qed
  moreover have "\<not> reporter_step s s'" for s'
  proof
    assume "reporter_step s s'"
    then show False using d assms by cases (auto simp: deadlocked_def measurement_inv_def caller_points)
  qed
  ultimately show "\<nexists>s'. measurement_step s s'" by (simp add: measurement_step_def)
qed

text \<open>A path to a deadlock: the callback is set, the reporter is about to report, the callback is set again.\<close>

definition at :: "bool \<Rightarrow> holder option \<Rightarrow> nat option \<Rightarrow> reporter option \<Rightarrow> measurement_call \<Rightarrow> measurement" where
  "at active mutex cb reporter point =
     \<lparr>mIsActive = active, mMutex = mutex, sCallback_2_1 = cb, sCallback_2_0 = None, mThread = reporter,
      caller = point, invoked = []\<rparr>"

lemma reaches_deadlock:
  "measurement_step\<^sup>*\<^sup>* (GnssMeasurement_new False) (at False (Some CallingThread) (Some 2) (Some (Locking V2_1)) SetJoin)"
proof -
  let ?set = "\<lambda>cb. SetLock V2_1 (Some cb)" and ?held = "Some CallingThread"
  have "stepwise measurement_step
    [at False None None None Idle, at False None None None (?set 1), at False ?held (Some 1) None SetCheck,
     at False ?held (Some 1) None SetStart, at True ?held (Some 1) None SetSpawn,
     at True ?held (Some 1) (Some Check) SetUnlock, at True None (Some 1) (Some Check) Idle,
     at True None (Some 1) (Some Choose) Idle, at True None (Some 1) (Some (Locking V2_1)) Idle,
     at True None (Some 1) (Some (Locking V2_1)) (?set 2), at True ?held (Some 2) (Some (Locking V2_1)) SetCheck,
     at True ?held (Some 2) (Some (Locking V2_1)) SetStop, at False ?held (Some 2) (Some (Locking V2_1)) SetJoin]"
    by (simp add: at_def measurement_step_def caller_step.simps reporter_step.simps set_callback_def)
  from stepwise_reaches [OF this] show ?thesis by (simp add: at_def GnssMeasurement_new_def)
qed

text \<open>
  C32. The measurement interface stops for ever in one situation only, besides its destruction: setting
  a callback while it is active waits for the reporter with the mutex the reporter is about to take;
  and this situation can be reached.
\<close>

theorem measurement_deadlocks:
  "(\<forall>s. measurement_step\<^sup>*\<^sup>* (GnssMeasurement_new active) s \<longrightarrow>
      ((\<nexists>s'. measurement_step s s') \<longleftrightarrow>
       caller s = Destroyed \<or> caller s = SetJoin \<and> (\<exists>v. mThread s = Some (Locking v)))) \<and>
   (\<exists>s. measurement_step\<^sup>*\<^sup>* (GnssMeasurement_new False) s \<and> caller s = SetJoin \<and> (\<exists>v. mThread s = Some (Locking v)))"
proof (intro conjI allI impI)
  fix s assume "measurement_step\<^sup>*\<^sup>* (GnssMeasurement_new active) s"
  from stuck_iff [OF measuring.along [OF this measurement_inv_new]]
  show "(\<nexists>s'. measurement_step s s') \<longleftrightarrow>
      caller s = Destroyed \<or> caller s = SetJoin \<and> (\<exists>v. mThread s = Some (Locking v))"
    by (simp add: deadlocked_def)
next
  show "\<exists>s. measurement_step\<^sup>*\<^sup>* (GnssMeasurement_new False) s \<and> caller s = SetJoin \<and> (\<exists>v. mThread s = Some (Locking v))"
    by (intro exI conjI, rule reaches_deadlock) (simp_all add: at_def)
qed

theorem measurement_deadlocks_witness:
  "\<nexists>s'. measurement_step (at False (Some CallingThread) (Some 2) (Some (Locking V2_1)) SetJoin) s'"
  using measurement_deadlocks [of False] reaches_deadlock by (simp add: at_def)

section \<open>Silence after \<open>close\<close>\<close>

text \<open>From the return of \<open>close\<close> on, until a callback is set again, nothing is reported.\<close>

definition closed :: "measurement \<Rightarrow> bool" where
  "closed s \<longleftrightarrow> mThread s = None \<and> sCallback_2_1 s = None \<and> sCallback_2_0 s = None \<and>
     caller s \<in> {Idle, CloseStop, CloseJoin, CloseLock, CloseUnlock, DestroyStop, DestroyJoin, Destroyed}"

definition without_callback :: "measurement \<Rightarrow> measurement \<Rightarrow> bool" where
  "without_callback s s' \<longleftrightarrow> measurement_step s s' \<and> (\<forall>v cb. caller s' \<noteq> SetLock v cb)"

lemma closed_step:
  assumes "without_callback s s'" "closed s"
  shows "closed s' \<and> invoked s' = invoked s"
proof -
  from assms(1) consider "caller_step s s'" | "reporter_step s s'" by (auto simp: without_callback_def measurement_step_def)
  then show ?thesis
  proof cases
    case 1
    then show ?thesis using assms by cases (auto simp: closed_def without_callback_def)
  next
    case 2
    then show ?thesis using assms(2) by cases (simp_all add: closed_def)
  qed
qed

lemma closed_along: "without_callback\<^sup>*\<^sup>* s s' \<Longrightarrow> closed s \<Longrightarrow> closed s' \<and> invoked s' = invoked s"
  by (induction rule: rtranclp_induct) (auto dest: closed_step)

text \<open>The callbacks are null at the end of \<open>close\<close>.\<close>

lemma close_unlock_closed:
  "measurement_step\<^sup>*\<^sup>* (GnssMeasurement_new active) s \<Longrightarrow> caller s = CloseUnlock \<Longrightarrow> closed s"
proof (induction rule: rtranclp_induct)
  case (step s s')
  have inv: "measurement_inv s" by (rule measuring.along [OF step.hyps(1) measurement_inv_new])
  from step.hyps(2) consider "caller_step s s'" | "reporter_step s s'" by (auto simp: measurement_step_def)
  then show ?case
  proof cases
    case 1
    then show ?thesis
      using step.prems inv by cases (simp_all add: closed_def measurement_inv_def caller_points split: if_split_asm)
  next
    case 2
    then have "caller s = CloseUnlock" using step.prems by cases simp_all
    then have "mThread s = None" using inv by (simp add: measurement_inv_def caller_points)
    with 2 show ?thesis by cases simp_all
  qed
qed (simp add: GnssMeasurement_new_def)

text \<open>
  When \<open>close\<close> returns there is no reporter and no callback any more, and whatever else is called,
  nothing is reported until a callback is set again; no call ever terminates the service by starting a
  second reporter.
\<close>

theorem measurement_silent_after_close:
  assumes "measurement_step\<^sup>*\<^sup>* (GnssMeasurement_new active) s" and "caller s = CloseUnlock"
    and "without_callback\<^sup>*\<^sup>* s s'"
  shows "mThread s' = None \<and> sCallback_2_1 s' = None \<and> sCallback_2_0 s' = None \<and> invoked s' = invoked s \<and>
    caller s' \<noteq> Terminated"
  using closed_along [OF assms(3) close_unlock_closed [OF assms(1,2)]] by (auto simp: closed_def)


lemma reaches_closed:
  "measurement_step\<^sup>*\<^sup>* (GnssMeasurement_new False) (at False (Some CallingThread) None None CloseUnlock)"
  "without_callback\<^sup>*\<^sup>* (at False (Some CallingThread) None None CloseUnlock) (at False None None None DestroyStop)"
proof -
  let ?held = "Some CallingThread"
  have "stepwise measurement_step
    [at False None None None Idle, at False None None None (SetLock V2_1 (Some 1)), at False ?held (Some 1) None SetCheck,
     at False ?held (Some 1) None SetStart, at True ?held (Some 1) None SetSpawn,
     at True ?held (Some 1) (Some Check) SetUnlock, at True None (Some 1) (Some Check) Idle,
     at True None (Some 1) (Some Check) CloseStop, at False None (Some 1) (Some Check) CloseJoin,
     at False None (Some 1) (Some Finished) CloseJoin, at False None (Some 1) None CloseLock,
     at False ?held None None CloseUnlock]"
    by (simp add: at_def measurement_step_def caller_step.simps reporter_step.simps set_callback_def joined_def)
  from stepwise_reaches [OF this]
  show "measurement_step\<^sup>*\<^sup>* (GnssMeasurement_new False) (at False (Some CallingThread) None None CloseUnlock)"
    by (simp add: at_def GnssMeasurement_new_def)
  have "stepwise without_callback [at False ?held None None CloseUnlock, at False None None None Idle, at False None None None DestroyStop]"
    by (simp add: at_def without_callback_def measurement_step_def caller_step.simps reporter_step.simps)
  from stepwise_reaches [OF this]
  show "without_callback\<^sup>*\<^sup>* (at False (Some CallingThread) None None CloseUnlock) (at False None None None DestroyStop)"
    by simp
qed

theorem measurement_silent_after_close_witness:
  "invoked (at False None None None DestroyStop) = invoked (at False (Some CallingThread) None None CloseUnlock)"
  using measurement_silent_after_close [OF reaches_closed(1) _ reaches_closed(2)] by (simp add: at_def)

end
