(* ===== verification/MeasurementAidl.thy ===== *)
theory MeasurementAidl
  imports Measurement
begin

text \<open>
  The AIDL measurement interface (\<open>gps/gnss/aidl/default/GnssMeasurementInterface.cpp\<close>) as such a
  machine.  Its reporters are detached: \<open>stop()\<close> does not wait for them, and they keep running by
  themselves.  A reporter holds the mutex only to copy the callback, which is one step here.
\<close>

datatype aidl_call =
    AIdle
  | ASetLock "nat option"
  | ASetCheck | ASetStop | ASetStart | ASetSpawn | ASetUnlock
  | ACloseStop | ACloseLock | ACloseUnlock
  | ADestroyStop | ADestroyed

datatype aidl_reporter =
    ACheck
  | ALocking
  | AInvoking nat                 \<comment> \<open>has copied the callback and given back the mutex\<close>
  | ASleeping
  | AFinished

record aidl_measurement =
  aActive :: bool
  aMutex :: bool                  \<comment> \<open>held by the calling thread\<close>
  aCallback :: "nat option"
  reporters :: "aidl_reporter list"
  aCaller :: aidl_call

definition GnssMeasurementInterface_new :: "bool \<Rightarrow> aidl_measurement" where
  "GnssMeasurementInterface_new active =
     \<lparr>aActive = active, aMutex = False, aCallback = None, reporters = [], aCaller = AIdle\<rparr>"

inductive aidl_caller_step :: "aidl_measurement \<Rightarrow> aidl_measurement \<Rightarrow> bool" where
  a_call_set: "aCaller s = AIdle \<Longrightarrow> aidl_caller_step s (s\<lparr>aCaller := ASetLock cb\<rparr>)"
| a_set_lock: "aCaller s = ASetLock cb \<Longrightarrow> \<not> aMutex s \<Longrightarrow>
    aidl_caller_step s (s\<lparr>aMutex := True, aCallback := cb, aCaller := ASetCheck\<rparr>)"
| a_set_check: "aCaller s = ASetCheck \<Longrightarrow>
    aidl_caller_step s (s\<lparr>aCaller := if aActive s then ASetStop else ASetStart\<rparr>)"
| a_set_stop: "aCaller s = ASetStop \<Longrightarrow> aidl_caller_step s (s\<lparr>aActive := False, aCaller := ASetStart\<rparr>)"
| a_set_start: "aCaller s = ASetStart \<Longrightarrow> aidl_caller_step s (s\<lparr>aActive := True, aCaller := ASetSpawn\<rparr>)"
| a_set_spawn: "aCaller s = ASetSpawn \<Longrightarrow>
    aidl_caller_step s (s\<lparr>reporters := reporters s @ [ACheck], aCaller := ASetUnlock\<rparr>)"
| a_set_unlock: "aCaller s = ASetUnlock \<Longrightarrow> aidl_caller_step s (s\<lparr>aMutex := False, aCaller := AIdle\<rparr>)"
| a_call_close: "aCaller s = AIdle \<Longrightarrow> aidl_caller_step s (s\<lparr>aCaller := ACloseStop\<rparr>)"
| a_close_stop: "aCaller s = ACloseStop \<Longrightarrow> aidl_caller_step s (s\<lparr>aActive := False, aCaller := ACloseLock\<rparr>)"
| a_close_lock: "aCaller s = ACloseLock \<Longrightarrow> \<not> aMutex s \<Longrightarrow>
    aidl_caller_step s (s\<lparr>aMutex := True, aCallback := None, aCaller := ACloseUnlock\<rparr>)"
| a_close_unlock: "aCaller s = ACloseUnlock \<Longrightarrow> aidl_caller_step s (s\<lparr>aMutex := False, aCaller := AIdle\<rparr>)"
| a_destroy: "aCaller s = AIdle \<Longrightarrow> aidl_caller_step s (s\<lparr>aCaller := ADestroyStop\<rparr>)"
| a_destroy_stop: "aCaller s = ADestroyStop \<Longrightarrow> aidl_caller_step s (s\<lparr>aActive := False, aCaller := ADestroyed\<rparr>)"

inductive aidl_reporter_step :: "aidl_measurement \<Rightarrow> aidl_measurement \<Rightarrow> bool" where
  a_check: "i < length (reporters s) \<Longrightarrow> reporters s ! i = ACheck \<Longrightarrow>
    aidl_reporter_step s (s\<lparr>reporters := (reporters s)[i := if aActive s then ALocking else AFinished]\<rparr>)"
| a_lock: "i < length (reporters s) \<Longrightarrow> reporters s ! i = ALocking \<Longrightarrow> \<not> aMutex s \<Longrightarrow>
    aidl_reporter_step s (s\<lparr>reporters :=
      (reporters s)[i := case aCallback s of None \<Rightarrow> ASleeping | Some cb \<Rightarrow> AInvoking cb]\<rparr>)"
| a_invoke: "i < length (reporters s) \<Longrightarrow> reporters s ! i = AInvoking cb \<Longrightarrow>
    aidl_reporter_step s (s\<lparr>reporters := (reporters s)[i := ASleeping]\<rparr>)"
| a_wake: "i < length (reporters s) \<Longrightarrow> reporters s ! i = ASleeping \<Longrightarrow>
    aidl_reporter_step s (s\<lparr>reporters := (reporters s)[i := ACheck]\<rparr>)"

definition aidl_step :: "aidl_measurement \<Rightarrow> aidl_measurement \<Rightarrow> bool" where
  "aidl_step s s' \<longleftrightarrow> aidl_caller_step s s' \<or> aidl_reporter_step s s'"

section \<open>Calls do not wait for reporters\<close>

definition aidl_inv :: "aidl_measurement \<Rightarrow> bool" where
  "aidl_inv s \<longleftrightarrow>
     (aMutex s \<longleftrightarrow> aCaller s \<in> {ASetCheck, ASetStop, ASetStart, ASetSpawn, ASetUnlock, ACloseUnlock})"

interpretation aidl: machine aidl_step aidl_inv
proof
  fix s s' assume "aidl_inv s" "aidl_step s s'"
  then consider "aidl_caller_step s s'" | "aidl_reporter_step s s'" by (auto simp: aidl_step_def)
  then show "aidl_inv s'" using \<open>aidl_inv s\<close> by cases (auto simp: aidl_inv_def elim!: aidl_caller_step.cases aidl_reporter_step.cases split: if_splits)
qed

lemma caller_goes_on:
  assumes "aidl_inv s" "aCaller s \<noteq> ADestroyed"
  shows "\<exists>s'. aidl_caller_step s s'"
  using assms by (cases "aCaller s") (auto simp: aidl_inv_def intro: aidl_caller_step.intros)

section \<open>Reporters that outlive their callback\<close>

text \<open>A state in which the interface is idle between two calls, and the last of its reporters.\<close>

abbreviation running :: "bool \<Rightarrow> bool \<Rightarrow> nat option \<Rightarrow> aidl_reporter list \<Rightarrow> aidl_call \<Rightarrow> aidl_measurement" where
  "running active mutex cb rs point \<equiv>
     \<lparr>aActive = active, aMutex = mutex, aCallback = cb, reporters = rs, aCaller = point\<rparr>"

lemma last_reporter:
  "aidl_step (running active m cb (rs @ [ACheck]) c) (running active m cb (rs @ [if active then ALocking else AFinished]) c)"
  "aidl_step (running active False cb (rs @ [ALocking]) c)
     (running active False cb (rs @ [case cb of None \<Rightarrow> ASleeping | Some cb \<Rightarrow> AInvoking cb]) c)"
  "aidl_step (running active m cb (rs @ [AInvoking x]) c) (running active m cb (rs @ [ASleeping]) c)"
  using a_check [of "length rs" "running active m cb (rs @ [ACheck]) c"]
    a_lock [of "length rs" "running active False cb (rs @ [ALocking]) c"]
    a_invoke [of "length rs" "running active m cb (rs @ [AInvoking x]) c" x]
  by (simp_all add: aidl_step_def)

text \<open>Setting a callback while the interface is active adds a reporter and ends none of the others.\<close>

definition resting :: "nat \<Rightarrow> aidl_measurement" where
  "resting n = running True False (Some 1) (replicate n ASleeping) AIdle"

lemma another_reporter: "aidl_step\<^sup>*\<^sup>* (resting n) (resting (Suc n))"
proof -
  let ?rs = "replicate n ASleeping"
  have set: "stepwise aidl_step
    [running True False (Some 1) ?rs AIdle, running True False (Some 1) ?rs (ASetLock (Some 1)),
     running True True (Some 1) ?rs ASetCheck, running True True (Some 1) ?rs ASetStop,
     running False True (Some 1) ?rs ASetStart, running True True (Some 1) ?rs ASetSpawn,
     running True True (Some 1) (?rs @ [ACheck]) ASetUnlock, running True False (Some 1) (?rs @ [ACheck]) AIdle]"
    by (simp add: aidl_step_def aidl_caller_step.simps)
  have report: "stepwise aidl_step
    [running True False (Some 1) (?rs @ [ACheck]) AIdle, running True False (Some 1) (?rs @ [ALocking]) AIdle,
     running True False (Some 1) (?rs @ [AInvoking 1]) AIdle, running True False (Some 1) (?rs @ [ASleeping]) AIdle]"
    using last_reporter(1) [of True False "Some 1" ?rs AIdle] last_reporter(2) [of True "Some 1" ?rs AIdle]
      last_reporter(3) [of True False "Some 1" ?rs 1 AIdle] by simp
  have "aidl_step\<^sup>*\<^sup>* (resting n) (running True False (Some 1) (?rs @ [ACheck]) AIdle)"
    using stepwise_reaches [OF set] by (simp add: resting_def)
  also have "aidl_step\<^sup>*\<^sup>* (running True False (Some 1) (?rs @ [ACheck]) AIdle) (running True False (Some 1) (?rs @ [ASleeping]) AIdle)"
    using stepwise_reaches [OF report] by simp
  also have "?rs @ [ASleeping] = replicate (Suc n) ASleeping" by (simp add: replicate_append_same)
  finally show ?thesis by (simp only: resting_def)
qed

lemma first_reporter: "aidl_step\<^sup>*\<^sup>* (GnssMeasurementInterface_new False) (running True False (Some 1) [ALocking] AIdle)"
proof -
  have "stepwise aidl_step
    [running False False None [] AIdle, running False False None [] (ASetLock (Some 1)),
     running False True (Some 1) [] ASetCheck, running False True (Some 1) [] ASetStart,
     running True True (Some 1) [] ASetSpawn, running True True (Some 1) [ACheck] ASetUnlock,
     running True False (Some 1) [ACheck] AIdle, running True False (Some 1) [ALocking] AIdle]"
    using last_reporter(1) [of True False "Some 1" "[]" AIdle] by (simp add: aidl_step_def aidl_caller_step.simps)
  from stepwise_reaches [OF this] show ?thesis by (simp add: GnssMeasurementInterface_new_def)
qed

lemma resting_reachable: "0 < n \<Longrightarrow> aidl_step\<^sup>*\<^sup>* (GnssMeasurementInterface_new False) (resting n)"
proof (induction n)
  case (Suc n)
  have "stepwise aidl_step
    [running True False (Some 1) [ALocking] AIdle, running True False (Some 1) [AInvoking 1] AIdle, resting 1]"
    using last_reporter(2) [of True "Some 1" "[]" AIdle] last_reporter(3) [of True False "Some 1" "[]" 1 AIdle]
    by (simp add: resting_def)
  from first_reporter stepwise_reaches [OF this]
  have "aidl_step\<^sup>*\<^sup>* (GnssMeasurementInterface_new False) (resting 1)" by simp
  with Suc another_reporter [of n] show ?case by (cases n) auto
qed simp

text \<open>A reporter that has copied the callback, and one that has not, when the interface is closed and destroyed.\<close>

lemma late_reporter:
  "aidl_step\<^sup>*\<^sup>* (GnssMeasurementInterface_new False) (running False False None [AInvoking 1] AIdle)"
  "aidl_step\<^sup>*\<^sup>* (GnssMeasurementInterface_new False) (running False False None [AInvoking 1] ADestroyed)"
proof -
  have "stepwise aidl_step
    [running True False (Some 1) [ALocking] AIdle, running True False (Some 1) [AInvoking 1] AIdle,
     running True False (Some 1) [AInvoking 1] ACloseStop, running False False (Some 1) [AInvoking 1] ACloseLock,
     running False True None [AInvoking 1] ACloseUnlock, running False False None [AInvoking 1] AIdle]"
    using last_reporter(2) [of True "Some 1" "[]" AIdle] by (simp add: aidl_step_def aidl_caller_step.simps)
  from first_reporter stepwise_reaches [OF this]
  show closed: "aidl_step\<^sup>*\<^sup>* (GnssMeasurementInterface_new False) (running False False None [AInvoking 1] AIdle)" by simp
  have "stepwise aidl_step
    [running False False None [AInvoking 1] AIdle, running False False None [AInvoking 1] ADestroyStop,
     running False False None [AInvoking 1] ADestroyed]"
    by (simp add: aidl_step_def aidl_caller_step.simps)
  from closed stepwise_reaches [OF this]
  show "aidl_step\<^sup>*\<^sup>* (GnssMeasurementInterface_new False) (running False False None [AInvoking 1] ADestroyed)" by simp
qed

text \<open>
  C34. No call of the AIDL measurement interface waits for a reporter, unlike those of the HIDL
  interface.  The price: setting the callback again and again collects any number of reporters that
  all go on; a reporter can still invoke the callback after \<open>close\<close> has returned; and one can still
  run, on the members of the object, when the object is destroyed.
\<close>

theorem aidl_reporters_outlive_calls:
  "(\<forall>s. aidl_step\<^sup>*\<^sup>* (GnssMeasurementInterface_new active) s \<longrightarrow> aCaller s \<noteq> ADestroyed \<longrightarrow> (\<exists>s'. aidl_caller_step s s')) \<and>
   (\<forall>n. \<exists>s. aidl_step\<^sup>*\<^sup>* (GnssMeasurementInterface_new False) s \<and> aCaller s = AIdle \<and> aActive s \<and>
      reporters s = replicate (Suc n) ASleeping) \<and>
   (\<exists>s cb. aidl_step\<^sup>*\<^sup>* (GnssMeasurementInterface_new False) s \<and> aCaller s = AIdle \<and> \<not> aActive s \<and> aCallback s = None \<and>
      AInvoking cb \<in> set (reporters s)) \<and>
   (\<exists>s cb. aidl_step\<^sup>*\<^sup>* (GnssMeasurementInterface_new False) s \<and> aCaller s = ADestroyed \<and> AInvoking cb \<in> set (reporters s))"
proof (intro conjI allI impI)
  fix s assume "aidl_step\<^sup>*\<^sup>* (GnssMeasurementInterface_new active) s" "aCaller s \<noteq> ADestroyed"
  moreover have "aidl_inv (GnssMeasurementInterface_new active)"
    by (simp add: aidl_inv_def GnssMeasurementInterface_new_def)
  ultimately show "\<exists>s'. aidl_caller_step s s'" using aidl.along caller_goes_on by blast
next
  fix n show "\<exists>s. aidl_step\<^sup>*\<^sup>* (GnssMeasurementInterface_new False) s \<and> aCaller s = AIdle \<and> aActive s \<and>
      reporters s = replicate (Suc n) ASleeping"
    using resting_reachable [of "Suc n"] by (intro exI [of _ "resting (Suc n)"]) (simp add: resting_def)
next
  show "\<exists>s cb. aidl_step\<^sup>*\<^sup>* (GnssMeasurementInterface_new False) s \<and> aCaller s = AIdle \<and> \<not> aActive s \<and> aCallback s = None \<and>
      AInvoking cb \<in> set (reporters s)"
    using late_reporter(1) by fastforce
  show "\<exists>s cb. aidl_step\<^sup>*\<^sup>* (GnssMeasurementInterface_new False) s \<and> aCaller s = ADestroyed \<and> AInvoking cb \<in> set (reporters s)"
    using late_reporter(2) by fastforce
qed

theorem aidl_reporters_outlive_calls_witness:
  "\<exists>s'. aidl_caller_step (running True False (Some 1) [ALocking] AIdle) s'"
  using aidl_reporters_outlive_calls [of False] first_reporter by auto

end
