(* ===== verification/Antenna.thy ===== *)
theory Antenna
  imports Measurement
begin

text \<open>
  The antenna interface (\<open>gps/gnss/common/utils/default/v2_1/GnssAntennaInfo.cpp\<close>).  Its \<open>setCallback\<close>,
  \<open>close\<close>, \<open>start\<close> and \<open>stop\<close> are those of the HIDL measurement interface with the callback of version
  2.1 alone, so they are the steps of that machine; its reporter differs in that it sleeps when there is
  no callback.
\<close>

inductive antenna_caller_step :: "measurement \<Rightarrow> measurement \<Rightarrow> bool" where
  "caller_step s s' \<Longrightarrow> (\<And>cb. caller s' \<noteq> SetLock V2_0 cb) \<Longrightarrow> antenna_caller_step s s'"

inductive antenna_reporter_step :: "measurement \<Rightarrow> measurement \<Rightarrow> bool" where
  antenna_choose: "mThread s = Some Choose \<Longrightarrow>
    antenna_reporter_step s (s\<lparr>mThread := Some (if sCallback_2_1 s \<noteq> None then Locking V2_1 else Sleeping)\<rparr>)"
| antenna_other: "mThread s \<noteq> Some Choose \<Longrightarrow> reporter_step s s' \<Longrightarrow> antenna_reporter_step s s'"

definition antenna_step :: "measurement \<Rightarrow> measurement \<Rightarrow> bool" where
  "antenna_step s s' \<longleftrightarrow> antenna_caller_step s s' \<or> antenna_reporter_step s s'"

lemma antenna_choose_inv:
  "measurement_inv s \<Longrightarrow> mThread s = Some Choose \<Longrightarrow> r \<in> {Locking v, Sleeping} \<Longrightarrow> measurement_inv (s\<lparr>mThread := Some r\<rparr>)"
  by (auto simp: measurement_inv_def caller_points)

interpretation antenna: machine antenna_step measurement_inv
  by unfold_locales
    (auto simp: antenna_step_def elim!: antenna_caller_step.cases antenna_reporter_step.cases
      intro: caller_step_inv reporter_step_inv antenna_choose_inv)

text \<open>It is stuck where the measurement interface is.\<close>

lemma antenna_moves:
  assumes "measurement_step s s'" "measurement_inv s"
  shows "\<exists>s''. antenna_step s s''"
proof (cases "mThread s = Some Choose")
  case True
  then show ?thesis by (auto simp: antenna_step_def intro: antenna_choose)
next
  case False
  show ?thesis
  proof (cases "caller_step s s'")
    case True
    then show ?thesis
    proof (cases "\<exists>cb. caller s' = SetLock V2_0 cb")
      case set: True
      then obtain cb where "caller s' = SetLock V2_0 cb" by blast
      with True have "caller s = Idle" by cases (simp_all split: if_split_asm)
      then have "antenna_caller_step s (s\<lparr>caller := CloseStop\<rparr>)" by (auto intro!: antenna_caller_step.intros call_close)
      then show ?thesis by (auto simp: antenna_step_def)
    qed (auto simp: antenna_step_def intro: antenna_caller_step.intros)
  next
    case other: False
    with assms(1) have "reporter_step s s'" by (simp add: measurement_step_def)
    with False show ?thesis by (auto simp: antenna_step_def intro: antenna_other)
  qed
qed

lemma antenna_measurement_moves:
  assumes "antenna_step s s'"
  shows "\<exists>s''. measurement_step s s''"
  using assms by (auto simp: antenna_step_def measurement_step_def elim!: antenna_caller_step.cases antenna_reporter_step.cases
    intro: choose)

lemma antenna_stuck_iff:
  "measurement_inv s \<Longrightarrow> (\<nexists>s'. antenna_step s s') \<longleftrightarrow> caller s = Destroyed \<or> deadlocked s"
  using stuck_iff [of s] antenna_moves antenna_measurement_moves by metis

text \<open>The path of the measurement interface to its deadlock is one of the antenna interface.\<close>

lemma antenna_reaches_deadlock:
  "antenna_step\<^sup>*\<^sup>* (GnssMeasurement_new False) (at False (Some CallingThread) (Some 2) (Some (Locking V2_1)) SetJoin)"
proof -
  let ?set = "\<lambda>cb. SetLock V2_1 (Some cb)" and ?held = "Some CallingThread"
  have "stepwise antenna_step
    [at False None None None Idle, at False None None None (?set 1), at False ?held (Some 1) None SetCheck,
     at False ?held (Some 1) None SetStart, at True ?held (Some 1) None SetSpawn,
     at True ?held (Some 1) (Some Check) SetUnlock, at True None (Some 1) (Some Check) Idle,
     at True None (Some 1) (Some Choose) Idle, at True None (Some 1) (Some (Locking V2_1)) Idle,
     at True None (Some 1) (Some (Locking V2_1)) (?set 2), at True ?held (Some 2) (Some (Locking V2_1)) SetCheck,
     at True ?held (Some 2) (Some (Locking V2_1)) SetStop, at False ?held (Some 2) (Some (Locking V2_1)) SetJoin]"
    by (simp add: at_def antenna_step_def antenna_caller_step.simps antenna_reporter_step.simps caller_step.simps
        reporter_step.simps set_callback_def)
  from stepwise_reaches [OF this] show ?thesis by (simp add: at_def GnssMeasurement_new_def)
qed

text \<open>
  The antenna interface has the deadlock of the measurement interface, and no other: setting a callback
  while it is active waits for the reporter with the mutex the reporter is about to take.
\<close>

theorem antenna_deadlocks:
  "(\<forall>s. antenna_step\<^sup>*\<^sup>* (GnssMeasurement_new active) s \<longrightarrow>
      ((\<nexists>s'. antenna_step s s') \<longleftrightarrow>
       caller s = Destroyed \<or> caller s = SetJoin \<and> (\<exists>v. mThread s = Some (Locking v)))) \<and>
   (\<exists>s. antenna_step\<^sup>*\<^sup>* (GnssMeasurement_new False) s \<and> caller s = SetJoin \<and> (\<exists>v. mThread s = Some (Locking v)))"
proof (intro conjI allI impI)
  fix s assume "antenna_step\<^sup>*\<^sup>* (GnssMeasurement_new active) s"
  from antenna_stuck_iff [OF antenna.along [OF this measurement_inv_new]]
  show "(\<nexists>s'. antenna_step s s') \<longleftrightarrow>
      caller s = Destroyed \<or> caller s = SetJoin \<and> (\<exists>v. mThread s = Some (Locking v))"
    by (simp add: deadlocked_def)
next
  show "\<exists>s. antenna_step\<^sup>*\<^sup>* (GnssMeasurement_new False) s \<and> caller s = SetJoin \<and> (\<exists>v. mThread s = Some (Locking v))"
    by (intro exI conjI, rule antenna_reaches_deadlock) (simp_all add: at_def)
qed

theorem antenna_deadlocks_witness:
  "\<nexists>s'. antenna_step (at False (Some CallingThread) (Some 2) (Some (Locking V2_1)) SetJoin) s'"
  using antenna_deadlocks [of False] antenna_reaches_deadlock by (simp add: at_def)

end
