(* ===== verification/Blocklist.thy ===== *)
theory Blocklist
  imports HashTable
begin

text \<open>
  The block lists of satellites: the configuration of the HIDL interface
  (\<open>gps/gnss/common/utils/default/v2_1/GnssConfiguration.cpp\<close>), that of the AIDL interface
  (\<open>gps/gnss/aidl/default/GnssConfiguration.cpp\<close>), and the two filters of satellites
  (\<open>GnssTemplate.h\<close> and \<open>gps/gnss/aidl/default/GnssHidlHal.cpp\<close>).  The constellations are those of the
  generated interfaces, \<open>'c\<close> in HIDL and \<open>'d\<close> in AIDL, with \<open>cast\<close> from one to the other; satellite
  numbers are integers, which no conversion of the code changes.  \<open>USED_IN_FIX\<close> is the flag of the
  interface.
\<close>

section \<open>The configurations\<close>

text \<open>The sources and the satellites; \<open>sv_rest\<close> are the measured values, which the code copies only.\<close>

record 'c source =
  constellation :: 'c
  svid :: int

record ('c, 'r) sv_info =
  sv_svid :: int
  sv_constellation :: 'c
  svFlag :: u8
  sv_rest :: 'r

text \<open>
  \<open>std::unordered_set\<close> with these functions is a set of sources, as long as equal sources have the same
  hash; \<open>code\<close> is the number of the constellation.
\<close>

definition BlocklistedSourceHash :: "('c \<Rightarrow> int) \<Rightarrow> 'c source \<Rightarrow> int" where
  "BlocklistedSourceHash code s = code (constellation s) * 1000 + svid s"

definition BlocklistedSourceEqual :: "'c source \<Rightarrow> 'c source \<Rightarrow> bool" where
  "BlocklistedSourceEqual s1 s2 = (constellation s1 = constellation s2 \<and> svid s1 = svid s2)"

lemma BlocklistedSourceEqual_iff: "BlocklistedSourceEqual s1 s2 \<longleftrightarrow> s1 = s2"
  by (cases s1; cases s2) (auto simp: BlocklistedSourceEqual_def)

lemma equal_sources_hash: "BlocklistedSourceEqual s1 s2 \<Longrightarrow> BlocklistedSourceHash code s1 = BlocklistedSourceHash code s2"
  by (simp add: BlocklistedSourceEqual_def BlocklistedSourceHash_def)

interpretation sources: hashed BlocklistedSourceEqual "BlocklistedSourceHash code" for code
  by unfold_locales (auto simp: BlocklistedSourceEqual_iff)

text \<open>So the table of sources is a set.\<close>

lemma source_table_is_set:
  assumes "t \<noteq> []"
  shows "table_find BlocklistedSourceEqual (BlocklistedSourceHash code)
      (table_put BlocklistedSourceEqual (BlocklistedSourceHash code) s () t) s' =
    (if s = s' then Some () else table_find BlocklistedSourceEqual (BlocklistedSourceHash code) t s')"
  using sources.find_put [OF assms] by (simp add: BlocklistedSourceEqual_iff)

record 'c configuration =
  mBlocklistedSourceSet :: "'c source set"
  mBlocklistedConstellationSet :: "'c set"

definition GnssConfiguration_new :: "'c configuration" where
  "GnssConfiguration_new = \<lparr>mBlocklistedSourceSet = {}, mBlocklistedConstellationSet = {}\<rparr>"

text \<open>The loop over the list, which both interfaces have.\<close>

fun blocklist_sources :: "'c source list \<Rightarrow> 'c configuration \<Rightarrow> 'c configuration" where
  "blocklist_sources [] cfg = cfg"
| "blocklist_sources (s # sourceList) cfg =
     blocklist_sources sourceList
       (if svid s = 0
        then cfg\<lparr>mBlocklistedConstellationSet := insert (constellation s) (mBlocklistedConstellationSet cfg)\<rparr>
        else cfg\<lparr>mBlocklistedSourceSet := insert s (mBlocklistedSourceSet cfg)\<rparr>)"

definition setBlocklist :: "'d source list \<Rightarrow> 'd configuration \<Rightarrow> 'd configuration" where
  "setBlocklist sourceList cfg =
     blocklist_sources sourceList (cfg\<lparr>mBlocklistedConstellationSet := {}, mBlocklistedSourceSet := {}\<rparr>)"

definition setBlacklist_2_1 :: "'c source list \<Rightarrow> 'c configuration \<Rightarrow> 'c configuration \<times> bool" where
  "setBlacklist_2_1 sourceList cfg =
     (blocklist_sources sourceList (cfg\<lparr>mBlocklistedConstellationSet := {}, mBlocklistedSourceSet := {}\<rparr>), True)"

text \<open>The lists of the older interfaces are refused.\<close>

definition setBlacklist :: "'s \<Rightarrow> 'c configuration \<Rightarrow> 'c configuration \<times> bool" where
  "setBlacklist sourceList cfg = (cfg, False)"

text \<open>
  The other settings: the deprecated ones are refused, the rest is accepted and without effect.
\<close>

datatype setting =
    SuplEs | SuplVersion | SuplMode | GpsLock | LppProfile | GlonassPositioningProtocol | EmergencySuplPdn | EsExtensionSec

definition set_setting :: "setting \<Rightarrow> 'c configuration \<Rightarrow> 'c configuration \<times> bool" where
  "set_setting x cfg = (cfg, x \<noteq> SuplEs \<and> x \<noteq> GpsLock)"

definition isBlacklistedV2_1 :: "('c, 'r) sv_info \<Rightarrow> 'c configuration \<Rightarrow> bool" where
  "isBlacklistedV2_1 sv cfg =
     (if sv_constellation sv \<in> mBlocklistedConstellationSet cfg then True
      else \<lparr>constellation = sv_constellation sv, svid = sv_svid sv\<rparr> \<in> mBlocklistedSourceSet cfg)"

definition isBlocklistedV2_1 :: "('c \<Rightarrow> 'd) \<Rightarrow> ('c, 'r) sv_info \<Rightarrow> 'd configuration \<Rightarrow> bool" where
  "isBlocklistedV2_1 cast sv cfg =
     (if cast (sv_constellation sv) \<in> mBlocklistedConstellationSet cfg then True
      else \<lparr>constellation = cast (sv_constellation sv), svid = sv_svid sv\<rparr> \<in> mBlocklistedSourceSet cfg)"

section \<open>The filters\<close>

definition drop_from_fix :: "u8 \<Rightarrow> ('c, 'r) sv_info \<Rightarrow> ('c, 'r) sv_info" where
  "drop_from_fix USED_IN_FIX sv = sv\<lparr>svFlag := svFlag sv AND NOT USED_IN_FIX\<rparr>"

text \<open>
  The loop over the indices of the list.  The mutex of the configuration is taken anew for every
  satellite, so the list may change in between: \<open>blocked i\<close> is the question when satellite \<open>i\<close> is asked for.
\<close>

fun filter_from :: "(nat \<Rightarrow> ('c, 'r) sv_info \<Rightarrow> bool) \<Rightarrow> u8 \<Rightarrow> nat \<Rightarrow> ('c, 'r) sv_info list \<Rightarrow> ('c, 'r) sv_info list" where
  "filter_from blocked flag 0 svs = svs"
| "filter_from blocked flag (Suc n) svs =
     (let i = length svs - Suc n
      in filter_from blocked flag n (if blocked i (svs ! i) then svs[i := drop_from_fix flag (svs ! i)] else svs))"

definition filterBlocklistedSatellitesV2_1 ::
  "u8 \<Rightarrow> (nat \<Rightarrow> 'c configuration) \<Rightarrow> ('c, 'r) sv_info list \<Rightarrow> ('c, 'r) sv_info list" where
  "filterBlocklistedSatellitesV2_1 USED_IN_FIX cfg svs =
     filter_from (\<lambda>i sv. isBlacklistedV2_1 sv (cfg i)) USED_IN_FIX (length svs) svs"

text \<open>
  The service: the HIDL configuration of \<open>GnssTemplate\<close> and the AIDL configuration the constructor of
  \<open>GnssHidlHal\<close> took from the AIDL interface, which creates one when it has none.
\<close>

record ('c, 'd) gnss_service =
  mGnssConfiguration :: "'c configuration"
  mGnssConfigurationAidl :: "'d configuration option"

definition getExtensionGnssConfiguration :: "'d configuration option \<Rightarrow> 'd configuration option" where
  "getExtensionGnssConfiguration cfg = (case cfg of None \<Rightarrow> Some GnssConfiguration_new | Some c \<Rightarrow> Some c)"

definition GnssHidlHal_new :: "'d configuration option \<Rightarrow> ('c, 'd) gnss_service" where
  "GnssHidlHal_new aidl =
     \<lparr>mGnssConfiguration = GnssConfiguration_new,
      mGnssConfigurationAidl = getExtensionGnssConfiguration aidl\<rparr>"

text \<open>The filter of the service; \<open>s i\<close> is its state when satellite \<open>i\<close> is asked for.\<close>

definition GnssHidlHal_filter ::
  "('c \<Rightarrow> 'd) \<Rightarrow> u8 \<Rightarrow> (nat \<Rightarrow> ('c, 'd) gnss_service) \<Rightarrow> ('c, 'r) sv_info list \<Rightarrow> ('c, 'r) sv_info list" where
  "GnssHidlHal_filter cast USED_IN_FIX s svs =
     (if mGnssConfigurationAidl (s 0) = None then svs
      else filter_from (\<lambda>i sv. isBlocklistedV2_1 cast sv (the (mGnssConfigurationAidl (s i)))) USED_IN_FIX (length svs) svs)"

text \<open>What a client of either interface can ask for.\<close>

datatype ('c, 'd) list_request =
    HidlBlacklist_2_1 "'c source list"
  | HidlBlacklist_1_1 "'c source list"
  | AidlBlocklist "'d source list"

fun blocklist_request :: "('c, 'd) gnss_service \<Rightarrow> ('c, 'd) list_request \<Rightarrow> ('c, 'd) gnss_service" where
  "blocklist_request s (HidlBlacklist_2_1 l) = s\<lparr>mGnssConfiguration := fst (setBlacklist_2_1 l (mGnssConfiguration s))\<rparr>"
| "blocklist_request s (HidlBlacklist_1_1 l) = s\<lparr>mGnssConfiguration := fst (setBlacklist l (mGnssConfiguration s))\<rparr>"
| "blocklist_request s (AidlBlocklist l) = s\<lparr>mGnssConfigurationAidl := map_option (setBlocklist l) (mGnssConfigurationAidl s)\<rparr>"

section \<open>What the lists mean\<close>

text \<open>A list names a satellite, or with number 0 its whole constellation.\<close>

definition names :: "'c source list \<Rightarrow> 'c \<Rightarrow> int \<Rightarrow> bool" where
  "names sourceList c n \<longleftrightarrow> (\<exists>s \<in> set sourceList. constellation s = c \<and> (svid s = 0 \<or> svid s = n))"

lemma blocklist_sources_sets:
  "mBlocklistedConstellationSet (blocklist_sources l cfg) =
     mBlocklistedConstellationSet cfg \<union> constellation ` {s \<in> set l. svid s = 0}"
  "mBlocklistedSourceSet (blocklist_sources l cfg) = mBlocklistedSourceSet cfg \<union> {s \<in> set l. svid s \<noteq> 0}"
  by (induction l arbitrary: cfg) auto

lemma configuration_names:
  "c \<in> mBlocklistedConstellationSet (setBlocklist l cfg) \<or>
   \<lparr>constellation = c, svid = n\<rparr> \<in> mBlocklistedSourceSet (setBlocklist l cfg) \<longleftrightarrow> names l c n"
proof -
  have "(\<exists>s \<in> set l. constellation s = c \<and> svid s = n) \<longleftrightarrow> \<lparr>constellation = c, svid = n\<rparr> \<in> set l"
    by (metis source.surjective source.select_convs old.unit.exhaust)
  then show ?thesis
    by (auto simp: setBlocklist_def blocklist_sources_sets names_def)
qed

text \<open>The loop over the indices is a map over the list with its indices.\<close>

lemma length_filter_from [simp]: "length (filter_from blocked flag n svs) = length svs"
  by (induction n arbitrary: svs) (auto simp: Let_def)

lemma nth_filter_from:
  "n \<le> length svs \<Longrightarrow> j < length svs \<Longrightarrow> filter_from blocked flag n svs ! j =
     (if length svs - n \<le> j \<and> blocked j (svs ! j) then drop_from_fix flag (svs ! j) else svs ! j)"
proof (induction n arbitrary: svs)
  case (Suc n)
  let ?i = "length svs - Suc n"
  let ?svs = "if blocked ?i (svs ! ?i) then svs[?i := drop_from_fix flag (svs ! ?i)] else svs"
  have "filter_from blocked flag (Suc n) svs ! j =
      (if length svs - n \<le> j \<and> blocked j (?svs ! j) then drop_from_fix flag (?svs ! j) else ?svs ! j)"
    using Suc.IH [of ?svs] Suc.prems by (simp add: Let_def)
  moreover have "?svs ! j = svs ! j" if "j \<noteq> ?i" using that by simp
  moreover have "length svs - n = Suc ?i" using Suc.prems by auto
  ultimately show ?case using Suc.prems by (cases "j = ?i") auto
qed simp

text \<open>The list in force: that of the last request, when there was one.\<close>

fun in_force :: "('c, 'd) list_request list \<Rightarrow> 'd source list \<Rightarrow> 'd source list" where
  "in_force [] l = l"
| "in_force (AidlBlocklist l # rs) _ = in_force rs l"
| "in_force (HidlBlacklist_2_1 _ # rs) l = in_force rs l"
| "in_force (HidlBlacklist_1_1 _ # rs) l = in_force rs l"

definition service_after :: "('c, 'd) list_request list \<Rightarrow> ('c, 'd) gnss_service" where
  "service_after rs = foldl blocklist_request (GnssHidlHal_new None) rs"

lemma aidl_after:
  assumes "mGnssConfigurationAidl s = Some (setBlocklist l cfg)"
  shows "\<exists>cfg. mGnssConfigurationAidl (foldl blocklist_request s rs) = Some (setBlocklist (in_force rs l) cfg)"
  using assms
proof (induction rs arbitrary: s l cfg)
  case (Cons r rs)
  then show ?case
  proof (cases r)
    case (AidlBlocklist l')
    with Cons show ?thesis by (auto intro!: Cons.IH)
  qed (use Cons in auto)
qed auto

lemma service_configuration:
  obtains cfg where "mGnssConfigurationAidl (service_after rs) = Some (setBlocklist (in_force rs []) cfg)"
proof -
  have "mGnssConfigurationAidl (GnssHidlHal_new None) = Some (setBlocklist [] GnssConfiguration_new)"
    by (simp add: GnssHidlHal_new_def getExtensionGnssConfiguration_def setBlocklist_def GnssConfiguration_new_def)
  from aidl_after [OF this] that show thesis unfolding service_after_def by blast
qed

lemma service_blocks:
  "isBlocklistedV2_1 cast sv (the (mGnssConfigurationAidl (service_after rs))) \<longleftrightarrow>
     names (in_force rs []) (cast (sv_constellation sv)) (sv_svid sv)"
proof -
  obtain cfg where "mGnssConfigurationAidl (service_after rs) = Some (setBlocklist (in_force rs []) cfg)"
    by (rule service_configuration)
  then show ?thesis
    using configuration_names [of "cast (sv_constellation sv)" "in_force rs []" cfg "sv_svid sv"]
    by (auto simp: isBlocklistedV2_1_def)
qed

lemma blocklist_satellites:
  "GnssHidlHal_filter cast USED_IN_FIX (\<lambda>i. service_after (requests i)) svs =
     map (\<lambda>(i, sv). if names (in_force (requests i) []) (cast (sv_constellation sv)) (sv_svid sv)
                    then sv\<lparr>svFlag := svFlag sv AND NOT USED_IN_FIX\<rparr> else sv) (enumerate 0 svs)"
proof -
  have "GnssHidlHal_filter cast USED_IN_FIX (\<lambda>i. service_after (requests i)) svs =
      filter_from (\<lambda>i sv. names (in_force (requests i) []) (cast (sv_constellation sv)) (sv_svid sv))
        USED_IN_FIX (length svs) svs"
  proof -
    obtain cfg where "mGnssConfigurationAidl (service_after (requests 0)) = Some (setBlocklist (in_force (requests 0) []) cfg)"
      by (rule service_configuration)
    then show ?thesis unfolding GnssHidlHal_filter_def service_blocks by simp
  qed
  then show ?thesis
    by (intro nth_equalityI) (simp_all add: nth_filter_from drop_from_fix_def nth_enumerate_eq)
qed

text \<open>
  C40. The satellites the service reports: all of them in their order, those named by the list in force
  without the flag of the fix, everything else as it was.  The list in force is the last one set through
  the AIDL interface, when the satellite is asked for; a list set through the HIDL interface, which
  accepts it with success, has no effect.
\<close>

theorem blocklist_in_force:
  "GnssHidlHal_filter cast USED_IN_FIX (\<lambda>i. service_after (requests i)) svs =
     map (\<lambda>(i, sv). if names (in_force (requests i) []) (cast (sv_constellation sv)) (sv_svid sv)
                    then sv\<lparr>svFlag := svFlag sv AND NOT USED_IN_FIX\<rparr> else sv) (enumerate 0 svs)"
  by (rule blocklist_satellites)

end
