(* ===== verification/MockData.thy ===== *)
theory MockData
  imports Blocklist Nmea
begin

text \<open>
  The tables of mock satellites and antennas (\<open>gps/gnss/common/utils/default/Utils.cpp\<close>), in the
  precision of their fields.  The constellations and flags are those of the generated interface.
\<close>

abbreviation float_of :: "real \<Rightarrow> fp" where "float_of x \<equiv> round_fp single False x"
abbreviation double_of :: "real \<Rightarrow> fp" where "double_of x \<equiv> round_fp double False x"

definition kGpsL1FreqHz :: fp where
  "kGpsL1FreqHz = convert single (fp_mul double (double_of (157542 / 100)) (double_of 1000000))"
definition kGpsL5FreqHz :: fp where
  "kGpsL5FreqHz = convert single (fp_mul double (double_of (117645 / 100)) (double_of 1000000))"
definition kGloG1FreqHz :: fp where
  "kGloG1FreqHz = convert single (fp_mul double (double_of 1602) (double_of 1000000))"
definition kIrnssL5FreqHz :: fp where
  "kIrnssL5FreqHz = convert single (fp_mul double (double_of (117645 / 100)) (double_of 1000000))"

section \<open>Satellites\<close>

text \<open>The constants of the interface: constellations of version 1.0 and 2.0, and the flags.\<close>

record ('v, 'c) hal =
  GPS_1 :: 'v
  GLONASS_1 :: 'v
  UNKNOWN_1 :: 'v
  GPS :: 'c
  GLONASS :: 'c
  IRNSS :: 'c
  USED_IN_FIX :: u8
  HAS_EPHEMERIS_DATA :: u8
  HAS_ALMANAC_DATA :: u8
  HAS_CARRIER_FREQUENCY :: u8

record sv_values =
  cN0Dbhz :: fp
  elevationDegrees :: fp
  azimuthDegrees :: fp
  carrierFrequencyHz :: fp

definition getMockSvInfoV1_0 ::
  "('v, 'c) hal \<Rightarrow> int \<Rightarrow> 'v \<Rightarrow> fp \<Rightarrow> fp \<Rightarrow> fp \<Rightarrow> fp \<Rightarrow> ('v, sv_values) sv_info" where
  "getMockSvInfoV1_0 H n type cN0 elevation azimuth frequency =
     \<lparr>sv_svid = n, sv_constellation = type,
      svFlag = USED_IN_FIX H OR HAS_EPHEMERIS_DATA H OR HAS_ALMANAC_DATA H OR HAS_CARRIER_FREQUENCY H,
      sv_rest = \<lparr>cN0Dbhz = cN0, elevationDegrees = elevation, azimuthDegrees = azimuth, carrierFrequencyHz = frequency\<rparr>\<rparr>"

text \<open>Version 2.0 adds a constellation of its own, version 2.1 the baseband density.\<close>

definition getMockSvInfoV2_0 :: "('v, 'r) sv_info \<Rightarrow> 'c \<Rightarrow> ('c, 'v \<times> 'r) sv_info" where
  "getMockSvInfoV2_0 v1 type =
     \<lparr>sv_svid = sv_svid v1, sv_constellation = type, svFlag = svFlag v1, sv_rest = (sv_constellation v1, sv_rest v1)\<rparr>"

definition getMockSvInfoV2_1 :: "('c, 'r) sv_info \<Rightarrow> fp \<Rightarrow> ('c, 'r \<times> fp) sv_info" where
  "getMockSvInfoV2_1 v2 baseband =
     \<lparr>sv_svid = sv_svid v2, sv_constellation = sv_constellation v2, svFlag = svFlag v2, sv_rest = (sv_rest v2, baseband)\<rparr>"

definition mock_sv ::
  "('v, 'c) hal \<Rightarrow> int \<Rightarrow> 'v \<Rightarrow> 'c \<Rightarrow> real \<Rightarrow> real \<Rightarrow> real \<Rightarrow> fp \<Rightarrow> real \<Rightarrow> ('c, ('v \<times> sv_values) \<times> fp) sv_info" where
  "mock_sv H n type1 type2 cN0 elevation azimuth frequency baseband =
     getMockSvInfoV2_1
       (getMockSvInfoV2_0
          (getMockSvInfoV1_0 H n type1 (float_of cN0) (float_of elevation) (float_of azimuth) frequency) type2)
       (float_of baseband)"

definition getMockSvInfoListV2_1 :: "('v, 'c) hal \<Rightarrow> ('c, ('v \<times> sv_values) \<times> fp) sv_info list" where
  "getMockSvInfoListV2_1 H =
     [mock_sv H 3 (GPS_1 H) (GPS H) (325 / 10) (591 / 10) (1665 / 10) kGpsL1FreqHz (275 / 10),
      mock_sv H 5 (GPS_1 H) (GPS H) 27 29 (565 / 10) kGpsL1FreqHz 22,
      mock_sv H 17 (GPS_1 H) (GPS H) (305 / 10) 71 77 kGpsL5FreqHz (255 / 10),
      mock_sv H 26 (GPS_1 H) (GPS H) (241 / 10) 28 253 kGpsL5FreqHz (191 / 10),
      mock_sv H 5 (GLONASS_1 H) (GLONASS H) (205 / 10) (115 / 10) 116 kGloG1FreqHz (155 / 10),
      mock_sv H 17 (GLONASS_1 H) (GLONASS H) (215 / 10) (285 / 10) 186 kGloG1FreqHz (165 / 10),
      mock_sv H 18 (GLONASS_1 H) (GLONASS H) (283 / 10) (388 / 10) 69 kGloG1FreqHz (253 / 10),
      mock_sv H 10 (GLONASS_1 H) (GLONASS H) 25 66 247 kGloG1FreqHz 20,
      mock_sv H 3 (UNKNOWN_1 H) (IRNSS H) 22 35 112 kIrnssL5FreqHz (197 / 10)]"

definition in_fix :: "u8 \<Rightarrow> ('c, 'r) sv_info \<Rightarrow> bool" where
  "in_fix used sv \<longleftrightarrow> svFlag sv AND used \<noteq> 0"

definition ident :: "('c, 'r) sv_info \<Rightarrow> 'c \<times> int" where
  "ident sv = (sv_constellation sv, sv_svid sv)"

lemma mock_sv_fields:
  "ident (mock_sv H n t1 t2 a b c f d) = (t2, n)"
  "svFlag (mock_sv H n t1 t2 a b c f d) =
     USED_IN_FIX H OR HAS_EPHEMERIS_DATA H OR HAS_ALMANAC_DATA H OR HAS_CARRIER_FREQUENCY H"
  by (simp_all add: mock_sv_def ident_def getMockSvInfoV1_0_def getMockSvInfoV2_0_def getMockSvInfoV2_1_def)

lemma in_fix_flags:
  "USED_IN_FIX H \<noteq> 0 \<Longrightarrow> in_fix (USED_IN_FIX H) (mock_sv H n t1 t2 a b c f d)"
  "\<not> in_fix used (sv\<lparr>svFlag := svFlag sv AND NOT used\<rparr>)"
proof -
  have "(u OR v) AND u = u" for u v :: u8 by (rule bit_word_eqI) (auto simp: bit_simps)
  then show "USED_IN_FIX H \<noteq> 0 \<Longrightarrow> in_fix (USED_IN_FIX H) (mock_sv H n t1 t2 a b c f d)"
    by (simp add: in_fix_def mock_sv_fields or.assoc)
  have "(u AND NOT v) AND v = 0" for u v :: u8 by (rule bit_word_eqI) (auto simp: bit_simps)
  then show "\<not> in_fix used (sv\<lparr>svFlag := svFlag sv AND NOT used\<rparr>)" by (simp add: in_fix_def)
qed

lemma mock_list:
  "map ident (getMockSvInfoListV2_1 H) =
     [(GPS H, 3), (GPS H, 5), (GPS H, 17), (GPS H, 26), (GLONASS H, 5), (GLONASS H, 17), (GLONASS H, 18),
      (GLONASS H, 10), (IRNSS H, 3)]"
  "USED_IN_FIX H \<noteq> 0 \<Longrightarrow> list_all (in_fix (USED_IN_FIX H)) (getMockSvInfoListV2_1 H)"
  by (simp_all add: getMockSvInfoListV2_1_def mock_sv_fields in_fix_flags(1))

lemma used_satellites:
  "list_all (in_fix u) svs \<Longrightarrow>
   map ident (filter (in_fix u) (map (\<lambda>sv. if blocked (sv_constellation sv) (sv_svid sv)
     then sv\<lparr>svFlag := svFlag sv AND NOT u\<rparr> else sv) svs)) =
   filter (\<lambda>(c, n). \<not> blocked c n) (map ident svs)"
  by (induction svs) (auto simp: in_fix_flags(2) ident_def)

lemma map_enumerate: "map (\<lambda>(i, x). f x) (enumerate 0 xs) = map f xs"
  by (rule nth_equalityI) (simp_all add: nth_enumerate_eq)

text \<open>
  Of the nine mock satellites the service reports as used those the block list in force does not
  name, and no others: four of GPS, four of GLONASS and one of IRNSS.
\<close>

theorem mock_satellites_used:
  assumes "USED_IN_FIX H \<noteq> 0"
  shows "map ident (filter (in_fix (USED_IN_FIX H))
      (GnssHidlHal_filter cast (USED_IN_FIX H) (\<lambda>i. service_after requests) (getMockSvInfoListV2_1 H))) =
    filter (\<lambda>(c, n). \<not> names (in_force requests []) (cast c) n)
      [(GPS H, 3), (GPS H, 5), (GPS H, 17), (GPS H, 26), (GLONASS H, 5), (GLONASS H, 17), (GLONASS H, 18),
       (GLONASS H, 10), (IRNSS H, 3)]"
  unfolding blocklist_satellites map_enumerate mock_list(1) [symmetric]
  by (rule used_satellites [OF mock_list(2) [OF assms]])

text \<open>A list that names the constellation of GLONASS and one satellite of GPS.\<close>

definition demo_hal :: "(nat, nat) hal" where
  "demo_hal = \<lparr>GPS_1 = 1, GLONASS_1 = 3, UNKNOWN_1 = 0, GPS = 1, GLONASS = 3, IRNSS = 7, USED_IN_FIX = 4,
     HAS_EPHEMERIS_DATA = 1, HAS_ALMANAC_DATA = 2, HAS_CARRIER_FREQUENCY = 8\<rparr>"

theorem mock_satellites_used_witness:
  "map ident (filter (in_fix 4) (GnssHidlHal_filter id 4
      (\<lambda>i. service_after [AidlBlocklist [\<lparr>constellation = 3, svid = 0\<rparr>, \<lparr>constellation = 1, svid = 17\<rparr>], HidlBlacklist_2_1 []])
      (getMockSvInfoListV2_1 demo_hal))) = [(1, 3), (1, 5), (1, 26), (7, 3)]"
  using mock_satellites_used [of demo_hal id
      "[AidlBlocklist [\<lparr>constellation = 3, svid = 0\<rparr>, \<lparr>constellation = 1, svid = 17\<rparr>], HidlBlacklist_2_1 []]"]
  by (simp add: demo_hal_def names_def)

section \<open>Antennas\<close>

record coord =
  coord_x :: fp
  coord_xUncertainty :: fp
  coord_y :: fp
  coord_yUncertainty :: fp
  coord_z :: fp
  coord_zUncertainty :: fp

record antenna_info =
  carrierFrequencyMHz :: fp
  phaseCenterOffsetCoordinateMillimeters :: coord
  phaseCenterVariationCorrectionMillimeters :: "fp list list"
  phaseCenterVariationCorrectionUncertaintyMillimeters :: "fp list list"
  signalGainCorrectionDbi :: "fp list list"
  signalGainCorrectionUncertaintyDbi :: "fp list list"

abbreviation tenths :: "real list \<Rightarrow> fp list" where "tenths \<equiv> map (\<lambda>x. double_of (x / 10))"

definition getMockAntennaInfos :: "antenna_info list" where
  "getMockAntennaInfos =
     [\<lparr>carrierFrequencyMHz = fp_mul double (convert double kGpsL1FreqHz) (double_of (1 / 10 ^ 6)),
       phaseCenterOffsetCoordinateMillimeters =
         \<lparr>coord_x = double_of 1, coord_xUncertainty = double_of (1 / 10), coord_y = double_of 2,
          coord_yUncertainty = double_of (1 / 10), coord_z = double_of 3, coord_zUncertainty = double_of (1 / 10)\<rparr>,
       phaseCenterVariationCorrectionMillimeters =
         [map double_of [1, -1, 5, -2, 3, -1], map double_of [-2, 3, 2, 0, 1, 2], map double_of [1, 3, 2, -1, -3, 5]],
       phaseCenterVariationCorrectionUncertaintyMillimeters =
         [tenths [1, 2, 4, 1, 2, 3], tenths [3, 2, 3, 6, 1, 1], tenths [1, 1, 4, 2, 5, 3]],
       signalGainCorrectionDbi =
         [map double_of [2, -3, 1, -3, 0, -4], map double_of [1, 0, -4, 1, 3, -2], map double_of [3, -2, 0, -2, 3, 0]],
       signalGainCorrectionUncertaintyDbi =
         [tenths [3, 1, 2, 6, 1, 3], tenths [1, 1, 5, 2, 3, 1], tenths [2, 4, 2, 1, 1, 2]]\<rparr>,
      \<lparr>carrierFrequencyMHz = fp_mul double (convert double kGpsL5FreqHz) (double_of (1 / 10 ^ 6)),
       phaseCenterOffsetCoordinateMillimeters =
         \<lparr>coord_x = double_of 5, coord_xUncertainty = double_of (1 / 10), coord_y = double_of 6,
          coord_yUncertainty = double_of (1 / 10), coord_z = double_of 7, coord_zUncertainty = double_of (1 / 10)\<rparr>,
       phaseCenterVariationCorrectionMillimeters = [], phaseCenterVariationCorrectionUncertaintyMillimeters = [],
       signalGainCorrectionDbi = [], signalGainCorrectionUncertaintyDbi = []\<rparr>]"

text \<open>Every table and that of its uncertainties have the same rows of the same length.\<close>

definition well_formed_antenna :: "antenna_info \<Rightarrow> bool" where
  "well_formed_antenna a \<longleftrightarrow>
     map length (phaseCenterVariationCorrectionMillimeters a) =
       map length (phaseCenterVariationCorrectionUncertaintyMillimeters a) \<and>
     map length (signalGainCorrectionDbi a) = map length (signalGainCorrectionUncertaintyDbi a) \<and>
     card (set (map length (phaseCenterVariationCorrectionMillimeters a))) \<le> 1 \<and>
     card (set (map length (signalGainCorrectionDbi a))) \<le> 1"

text \<open>
  The mock antennas are well formed: each table of corrections and that of its uncertainties have the
  same rows, and the rows of a table the same length.
\<close>

theorem mock_antennas_well_formed: "list_all well_formed_antenna getMockAntennaInfos"
  by (simp add: getMockAntennaInfos_def well_formed_antenna_def)

end
