(* ===== verification/MockMeasurements.thy ===== *)
theory MockMeasurements
  imports MockData
begin

text \<open>
  The mock measurements (\<open>gps/gnss/common/utils/default/Utils.cpp\<close>).  The structures are those of generated
  interfaces, of which the code fills the fields below, the others keep their defaults.  Enumerators
  stand for themselves; the value of a flag is a parameter.  Numbers are the doubles of their literals;
  a field of single precision would round them again.
\<close>

section \<open>The interfaces\<close>

datatype flag =
    HAS_AUTOMATIC_GAIN_CONTROL | HAS_CARRIER_FREQUENCY | HAS_CARRIER_PHASE | HAS_CARRIER_PHASE_UNCERTAINTY
  | HAS_FULL_ISB | HAS_FULL_ISB_UNCERTAINTY | HAS_SATELLITE_ISB | HAS_SATELLITE_ISB_UNCERTAINTY
  | HAS_SATELLITE_PVT | HAS_CORRELATION_VECTOR
  | STATE_CODE_LOCK | STATE_BIT_SYNC | STATE_SUBFRAME_SYNC | STATE_TOW_DECODED | STATE_GLO_STRING_SYNC
  | STATE_GLO_TOD_DECODED
  | HAS_POSITION_VELOCITY_CLOCK_INFO | HAS_IONO | HAS_TROPO
  | HAS_FULL_BIAS | HAS_BIAS | HAS_BIAS_UNCERTAINTY | HAS_DRIFT | HAS_DRIFT_UNCERTAINTY
  | HAS_TIMESTAMP_NS | HAS_TIME_UNCERTAINTY_NS

datatype enumerator = UNKNOWN | GPS | GLONASS | ADR_STATE_UNKNOWN | INDICATOR_UNKNOWN

definition flags_of :: "(flag \<Rightarrow> u32) \<Rightarrow> flag list \<Rightarrow> u32" where
  "flags_of value fs = foldr (\<lambda>f v. value f OR v) fs 0"

record signal_type =
  signal_constellation :: enumerator
  signal_carrierFrequencyHz :: fp
  codeType :: string

record clock =
  gnssClockFlags :: u32
  timeNs :: int
  fullBiasNs :: int
  biasNs :: fp
  biasUncertaintyNs :: fp
  driftNsps :: fp
  driftUncertaintyNsps :: fp
  hwClockDiscontinuityCount :: int

record elapsed_realtime =
  elapsed_flags :: u32
  elapsed_timestampNs :: int
  elapsed_timeUncertaintyNs :: int

section \<open>HIDL\<close>

record measurement_1_0 =
  flags_1_0 :: u32
  svid_1_0 :: int
  constellation_1_0 :: enumerator
  timeOffsetNs :: fp
  receivedSvTimeInNs :: int
  receivedSvTimeUncertaintyInNs :: int
  measured_cN0DbHz :: fp
  pseudorangeRateMps :: fp
  pseudorangeRateUncertaintyMps :: fp
  accumulatedDeltaRangeState :: enumerator
  accumulatedDeltaRangeM :: fp
  accumulatedDeltaRangeUncertaintyM :: fp
  measured_carrierFrequencyHz :: fp
  multipathIndicator :: enumerator

record measurement_2_0 = measurement_1_0 +
  codeType_2_0 :: string
  state_2_0 :: u32
  constellation_2_0 :: enumerator

record data_2_0 =
  measurements_2_0 :: "measurement_2_0 list"
  clock_2_0 :: clock
  elapsedRealtime_2_0 :: elapsed_realtime

definition elapsed_realtime :: "(flag \<Rightarrow> u32) \<Rightarrow> int \<Rightarrow> int \<Rightarrow> elapsed_realtime" where
  "elapsed_realtime value now uncertainty =
     \<lparr>elapsed_flags = flags_of value [HAS_TIMESTAMP_NS, HAS_TIME_UNCERTAINTY_NS], elapsed_timestampNs = now,
      elapsed_timeUncertaintyNs = uncertainty\<rparr>"

text \<open>The clock of version 1.0 has flags, which are not set.\<close>

definition getMockMeasurementV2_0 :: "(flag \<Rightarrow> u32) \<Rightarrow> int \<Rightarrow> data_2_0" where
  "getMockMeasurementV2_0 value now =
     \<lparr>measurements_2_0 =
        [\<lparr>flags_1_0 = value HAS_CARRIER_FREQUENCY, svid_1_0 = 6, constellation_1_0 = UNKNOWN, timeOffsetNs = Num 0,
          receivedSvTimeInNs = 8195997131077, receivedSvTimeUncertaintyInNs = 15, measured_cN0DbHz = Num 30,
          pseudorangeRateMps = double_of (- 48413739013671875 / 10 ^ 14),
          pseudorangeRateUncertaintyMps = double_of (10379999876022339 / 10 ^ 16),
          accumulatedDeltaRangeState = ADR_STATE_UNKNOWN, accumulatedDeltaRangeM = Num 0,
          accumulatedDeltaRangeUncertaintyM = Num 0, measured_carrierFrequencyHz = Num 1599750000,
          multipathIndicator = INDICATOR_UNKNOWN, codeType_2_0 = ''C'',
          state_2_0 = flags_of value [STATE_CODE_LOCK, STATE_BIT_SYNC, STATE_SUBFRAME_SYNC, STATE_TOW_DECODED,
            STATE_GLO_STRING_SYNC, STATE_GLO_TOD_DECODED],
          constellation_2_0 = GLONASS\<rparr>],
      clock_2_0 =
        \<lparr>gnssClockFlags = 0, timeNs = 2713545000000, fullBiasNs = -1226701900521857520,
         biasNs = double_of (59689998626708984 / 10 ^ 17), biasUncertaintyNs = double_of (47514989972114563 / 10 ^ 12),
         driftNsps = double_of (- 51757811607455452 / 10 ^ 15),
         driftUncertaintyNsps = double_of (31064968328491528 / 10 ^ 14), hwClockDiscontinuityCount = 1\<rparr>,
      elapsedRealtime_2_0 = elapsed_realtime value now 1000000\<rparr>"

record measurement_2_1 =
  measurement_v2_0 :: measurement_2_0
  flags_2_1 :: u32
  fullInterSignalBiasNs :: fp
  fullInterSignalBiasUncertaintyNs :: fp
  satelliteInterSignalBiasNs :: fp
  satelliteInterSignalBiasUncertaintyNs :: fp
  measured_basebandCN0DbHz :: fp

record data_2_1 =
  measurements_2_1 :: "measurement_2_1 list"
  clock_2_1 :: clock
  referenceSignalTypeForIsb :: signal_type
  elapsedRealtime_2_1 :: elapsed_realtime

definition getMockMeasurementV2_1 :: "(flag \<Rightarrow> u32) \<Rightarrow> int \<Rightarrow> data_2_1" where
  "getMockMeasurementV2_1 value now =
     (let gnssDataV2_0 = getMockMeasurementV2_0 value now
      in \<lparr>measurements_2_1 =
            [\<lparr>measurement_v2_0 = measurements_2_0 gnssDataV2_0 ! 0,
              flags_2_1 = flags_of value [HAS_CARRIER_FREQUENCY, HAS_CARRIER_PHASE, HAS_FULL_ISB,
                HAS_FULL_ISB_UNCERTAINTY, HAS_SATELLITE_ISB, HAS_SATELLITE_ISB_UNCERTAINTY],
              fullInterSignalBiasNs = Num 30, fullInterSignalBiasUncertaintyNs = Num 250,
              satelliteInterSignalBiasNs = Num 20, satelliteInterSignalBiasUncertaintyNs = Num 150,
              measured_basebandCN0DbHz = Num 25\<rparr>],
          clock_2_1 = clock_2_0 gnssDataV2_0,
          referenceSignalTypeForIsb =
            \<lparr>signal_constellation = GPS, signal_carrierFrequencyHz = Num 1599750000, codeType = ''C''\<rparr>,
          elapsedRealtime_2_1 = elapsedRealtime_2_0 gnssDataV2_0\<rparr>)"

section \<open>AIDL\<close>

record satellite_pvt =
  pvt_flags :: u32
  satPosEcef :: "fp list"      \<comment> \<open>x, y, z, error\<close>
  satVelEcef :: "fp list"
  satClockInfo :: "fp list"    \<comment> \<open>code bias, time correction, drift\<close>
  ionoDelayMeters :: fp
  tropoDelayMeters :: fp

record correlation_vector =
  frequencyOffsetMps :: fp
  samplingWidthM :: fp
  samplingStartM :: fp
  magnitude :: "int list"

record measurement_aidl =
  aidl_flags :: u32
  aidl_svid :: int
  signalType :: signal_type
  aidl_receivedSvTimeInNs :: int
  aidl_receivedSvTimeUncertaintyInNs :: int
  antennaCN0DbHz :: fp
  aidl_basebandCN0DbHz :: fp
  agcLevelDb :: fp
  aidl_pseudorangeRateMps :: fp
  aidl_pseudorangeRateUncertaintyMps :: fp
  aidl_accumulatedDeltaRangeState :: enumerator
  aidl_accumulatedDeltaRangeM :: fp
  aidl_accumulatedDeltaRangeUncertaintyM :: fp
  aidl_multipathIndicator :: enumerator
  aidl_state :: u32
  aidl_fullInterSignalBias :: "fp \<times> fp"        \<comment> \<open>with its uncertainty\<close>
  aidl_satelliteInterSignalBias :: "fp \<times> fp"
  satellitePvt :: satellite_pvt
  correlationVectors :: "correlation_vector list"

record data_aidl =
  aidl_measurements :: "measurement_aidl list"
  aidl_clock :: clock
  aidl_elapsedRealtime :: elapsed_realtime

definition mock_pvt :: "(flag \<Rightarrow> u32) \<Rightarrow> satellite_pvt" where
  "mock_pvt value =
     \<lparr>pvt_flags = flags_of value [HAS_POSITION_VELOCITY_CLOCK_INFO, HAS_IONO, HAS_TROPO],
      satPosEcef = [double_of (104429931153328 / 10 ^ 7), double_of (- 199269328051666 / 10 ^ 7),
        double_of (- 120342950216203 / 10 ^ 7), double_of (10002345678 / 10 ^ 7)],
      satVelEcef = [double_of (- 478667183715732 / 10 ^ 12), double_of (158068371984114 / 10 ^ 11),
        double_of (- 303052994449997 / 10 ^ 11), double_of (102345678 / 10 ^ 7)],
      satClockInfo = [double_of (1396983861923 / 10 ^ 21), double_of (- 711308964331 / 10 ^ 8), Num 0],
      ionoDelayMeters = double_of (3069949602639317 / 10 ^ 23),
      tropoDelayMeters = double_of (3882265204404031 / 10 ^ 15)\<rparr>"

definition mock_correlation_vectors :: "correlation_vector list" where
  "mock_correlation_vectors =
     [\<lparr>frequencyOffsetMps = Num 10, samplingWidthM = Num 30, samplingStartM = Num 0,
       magnitude = [0, 5000, 10000, 5000, 0, 0, 3000, 0]\<rparr>,
      \<lparr>frequencyOffsetMps = Num 20, samplingWidthM = Num 30, samplingStartM = Num (- 10),
       magnitude = [0, 3000, 5000, 3000, 0, 0, 1000, 0]\<rparr>]"

definition mock_measurement :: "(flag \<Rightarrow> u32) \<Rightarrow> measurement_aidl" where
  "mock_measurement value =
     \<lparr>aidl_flags = flags_of value [HAS_AUTOMATIC_GAIN_CONTROL, HAS_CARRIER_FREQUENCY, HAS_CARRIER_PHASE,
        HAS_CARRIER_PHASE_UNCERTAINTY, HAS_FULL_ISB, HAS_FULL_ISB_UNCERTAINTY, HAS_SATELLITE_ISB,
        HAS_SATELLITE_ISB_UNCERTAINTY, HAS_SATELLITE_PVT],
      aidl_svid = 13,
      signalType = \<lparr>signal_constellation = GLONASS, signal_carrierFrequencyHz = Num 1599750000, codeType = ''C''\<rparr>,
      aidl_receivedSvTimeInNs = 8195997131077, aidl_receivedSvTimeUncertaintyInNs = 15, antennaCN0DbHz = Num 30,
      aidl_basebandCN0DbHz = Num (53 / 2), agcLevelDb = double_of (23 / 10),
      aidl_pseudorangeRateMps = double_of (- 48413739013671875 / 10 ^ 14),
      aidl_pseudorangeRateUncertaintyMps = double_of (10379999876022339 / 10 ^ 16),
      aidl_accumulatedDeltaRangeState = ADR_STATE_UNKNOWN,
      aidl_accumulatedDeltaRangeM = double_of (152 / 100), aidl_accumulatedDeltaRangeUncertaintyM = double_of (243 / 100),
      aidl_multipathIndicator = UNKNOWN,
      aidl_state = flags_of value [STATE_CODE_LOCK, STATE_BIT_SYNC, STATE_SUBFRAME_SYNC, STATE_TOW_DECODED,
        STATE_GLO_STRING_SYNC, STATE_GLO_TOD_DECODED],
      aidl_fullInterSignalBias = (Num (43 / 2), Num 792),
      aidl_satelliteInterSignalBias = (double_of (2339 / 10), double_of (9212 / 10)),
      satellitePvt = mock_pvt value, correlationVectors = []\<rparr>"

definition getMockMeasurement :: "(flag \<Rightarrow> u32) \<Rightarrow> int \<Rightarrow> bool \<Rightarrow> data_aidl" where
  "getMockMeasurement value now enableCorrVecOutputs =
     (let measurement = mock_measurement value;
          measurement = (if enableCorrVecOutputs
            then measurement\<lparr>correlationVectors := mock_correlation_vectors,
                   aidl_flags := aidl_flags measurement OR value HAS_CORRELATION_VECTOR\<rparr>
            else measurement)
      in \<lparr>aidl_measurements = [measurement],
          aidl_clock =
            \<lparr>gnssClockFlags = flags_of value [HAS_FULL_BIAS, HAS_BIAS, HAS_BIAS_UNCERTAINTY, HAS_DRIFT, HAS_DRIFT_UNCERTAINTY],
             timeNs = 35854545000000, fullBiasNs = -234621900521857520,
             biasNs = double_of (2352389998626708984 / 10 ^ 19), biasUncertaintyNs = double_of (274989972114563 / 10 ^ 12),
             driftNsps = double_of (- 1243742360 / 10 ^ 7), driftUncertaintyNsps = double_of (2396234285828 / 10 ^ 10),
             hwClockDiscontinuityCount = 999\<rparr>,
          aidl_elapsedRealtime = elapsed_realtime value now 1020400\<rparr>)"

section \<open>Flags and data\<close>

lemma bit_flags_of: "bit (flags_of value fs) n \<longleftrightarrow> (\<exists>f \<in> set fs. bit (value f) n)"
  by (induction fs) (auto simp: flags_of_def bit_simps)

definition has_flag :: "u32 \<Rightarrow> u32 \<Rightarrow> bool" where
  "has_flag v f \<longleftrightarrow> v AND f \<noteq> 0"

text \<open>The flags of an interface are single bits, different from each other.\<close>

definition distinct_bits :: "(flag \<Rightarrow> u32) \<Rightarrow> bool" where
  "distinct_bits value \<longleftrightarrow> (\<exists>b. inj b \<and> (\<forall>f. b f < 32 \<and> value f = push_bit (b f) 1))"

lemma bits_differ: "(v :: u32) \<noteq> 0 \<longleftrightarrow> (\<exists>n. bit v n)"
  by (metis bit_0_eq bit_word_eqI bot_apply bot_bool_def)

lemma has_flag_flags_of:
  assumes "distinct_bits value"
  shows "has_flag (flags_of value fs) (value f) \<longleftrightarrow> f \<in> set fs"
proof -
  obtain b where b: "inj b" "\<And>f. b f < 32" "\<And>f. value f = push_bit (b f) 1"
    using assms by (auto simp: distinct_bits_def)
  have bit: "bit (value f) n \<longleftrightarrow> n = b f" for f n using b(2) [of f] by (auto simp: b(3) bit_simps)
  have "has_flag v (value f) \<longleftrightarrow> bit v (b f)" for v
  proof -
    have "has_flag v (value f) \<longleftrightarrow> (\<exists>n. bit v n \<and> n = b f)"
      using b(2) [of f] by (simp add: has_flag_def bits_differ bit_and_iff bit)
    then show ?thesis by simp
  qed
  then show ?thesis using b(1) by (auto simp: bit_flags_of bit inj_eq)
qed

text \<open>
  Measurements and their flags agree: a measurement has correlation vectors, and the flag that says so,
  exactly when the client asked for them, and asking for them changes no other flag; the vectors have
  as many magnitudes each.  The measurement of version 2.1 is that of version 2.0 with more fields.
\<close>

theorem mock_measurements_consistent:
  assumes "distinct_bits value"
  shows "(\<exists>m m'. aidl_measurements (getMockMeasurement value now True) = [m] \<and>
      aidl_measurements (getMockMeasurement value now False) = [m'] \<and>
      correlationVectors m \<noteq> [] \<and> has_flag (aidl_flags m) (value HAS_CORRELATION_VECTOR) \<and>
      correlationVectors m' = [] \<and> \<not> has_flag (aidl_flags m') (value HAS_CORRELATION_VECTOR) \<and>
      {f. has_flag (aidl_flags m) (value f)} = insert HAS_CORRELATION_VECTOR {f. has_flag (aidl_flags m') (value f)} \<and>
      card (length ` magnitude ` set (correlationVectors m)) = 1) \<and>
    map measurement_v2_0 (measurements_2_1 (getMockMeasurementV2_1 value now)) =
      measurements_2_0 (getMockMeasurementV2_0 value now)"
proof -
  let ?fs = "[HAS_AUTOMATIC_GAIN_CONTROL, HAS_CARRIER_FREQUENCY, HAS_CARRIER_PHASE, HAS_CARRIER_PHASE_UNCERTAINTY,
    HAS_FULL_ISB, HAS_FULL_ISB_UNCERTAINTY, HAS_SATELLITE_ISB, HAS_SATELLITE_ISB_UNCERTAINTY, HAS_SATELLITE_PVT]"
  let ?m' = "mock_measurement value" and ?flags = "flags_of value ?fs OR value HAS_CORRELATION_VECTOR"
  let ?m = "?m'\<lparr>correlationVectors := mock_correlation_vectors, aidl_flags := ?flags\<rparr>"
  have f: "aidl_flags ?m' = flags_of value ?fs" by (simp add: mock_measurement_def)
  have "?flags = flags_of value (HAS_CORRELATION_VECTOR # ?fs)" by (simp add: flags_of_def or.commute)
  then have flags: "{f. has_flag ?flags (value f)} = insert HAS_CORRELATION_VECTOR {f. has_flag (aidl_flags ?m') (value f)}"
    unfolding f by (simp only: has_flag_flags_of [OF assms]) auto
  have none: "\<not> has_flag (aidl_flags ?m') (value HAS_CORRELATION_VECTOR)"
    unfolding f by (simp only: has_flag_flags_of [OF assms]) simp
  have some: "has_flag ?flags (value HAS_CORRELATION_VECTOR)" using flags by blast
  have sel: "correlationVectors ?m = mock_correlation_vectors" "aidl_flags ?m = ?flags" by simp_all
  have empty: "correlationVectors ?m' = []" by (simp add: mock_measurement_def)
  have vectors: "card (length ` magnitude ` set mock_correlation_vectors) = 1" "mock_correlation_vectors \<noteq> []"
    by (simp_all add: mock_correlation_vectors_def)
  have lists: "aidl_measurements (getMockMeasurement value now True) = [?m]"
      "aidl_measurements (getMockMeasurement value now False) = [?m']"
    unfolding getMockMeasurement_def Let_def f by simp_all
  have "\<exists>m m'. aidl_measurements (getMockMeasurement value now True) = [m] \<and>
      aidl_measurements (getMockMeasurement value now False) = [m'] \<and>
      correlationVectors m \<noteq> [] \<and> has_flag (aidl_flags m) (value HAS_CORRELATION_VECTOR) \<and>
      correlationVectors m' = [] \<and> \<not> has_flag (aidl_flags m') (value HAS_CORRELATION_VECTOR) \<and>
      {f. has_flag (aidl_flags m) (value f)} = insert HAS_CORRELATION_VECTOR {f. has_flag (aidl_flags m') (value f)} \<and>
      card (length ` magnitude ` set (correlationVectors m)) = 1"
    by (rule exI [of _ ?m], rule exI [of _ ?m'], intro conjI)
      (use flags none some vectors empty in \<open>simp_all only: lists sel not_False_eq_True\<close>)
  moreover have "map measurement_v2_0 (measurements_2_1 (getMockMeasurementV2_1 value now)) =
      measurements_2_0 (getMockMeasurementV2_0 value now)"
    by (simp add: getMockMeasurementV2_1_def getMockMeasurementV2_0_def Let_def)
  ultimately show ?thesis by (rule conjI)
qed

end
