(* ===== verification/LocationTypes.thy ===== *)
theory LocationTypes
  imports Locations
begin

text \<open>
  The numbers of the reported locations: the code keeps them in variables of type \<open>float\<close>, so that
  each is a number of single precision, whatever was computed in double precision before; and of the
  objects the NMEA parser creates with uninitialised members none is reported.
\<close>

section \<open>Locations in single precision\<close>

definition mock_typed :: "mock_location \<Rightarrow> bool" where
  "mock_typed g \<longleftrightarrow> list_all (in_format single)
     [gMockLatitudeDegrees g, gMockLongitudeDegrees g, gMockAltitudeMeters g, gMockBearingDegrees g, gMockSpeedMetersPerSec g]"

definition location_typed :: "gnss_location \<Rightarrow> bool" where
  "location_typed l \<longleftrightarrow> list_all (in_format single)
     [latitudeDegrees l, longitudeDegrees l, loc_altitudeMeters l, loc_speedMetersPerSec l, loc_bearingDegrees l,
      horizontalAccuracyMeters l, verticalAccuracyMeters l, speedAccuracyMetersPerSecond l, bearingAccuracyDegrees l]"

lemma constants_typed:
  "in_format single kMockHorizontalAccuracyMeters" "in_format single kMockVerticalAccuracyMeters"
  "in_format single kMockSpeedAccuracyMetersPerSecond" "in_format single kMockBearingAccuracyDegrees"
  by (simp_all add: kMockHorizontalAccuracyMeters_def kMockVerticalAccuracyMeters_def in_format_def float_eval Let_def
      kMockSpeedAccuracyMetersPerSecond_def kMockBearingAccuracyDegrees_def)

lemma mock_location_init_typed: "mock_typed mock_location_init"
  by (simp add: mock_typed_def mock_location_init_def single_digits)

lemma location_line_typed:
  "location_line tiny item l = Some l' \<Longrightarrow> location_typed l \<Longrightarrow> location_typed l'"
  by (simp only: location_line_def with_float_def split: if_split_asm)
    (auto simp: location_typed_def dest: stof_single)

lemma location_lines_typed:
  "location_lines tiny items l = Some l' \<Longrightarrow> location_typed l \<Longrightarrow> location_typed l'"
  by (induction items arbitrary: l) (auto split: Option.bind_splits dest: location_line_typed)

lemma elapsed_typed [simp]:
  "location_typed (l\<lparr>timestampNs := x, timeUncertaintyNs := y\<rparr>) = location_typed l"
  by (simp add: location_typed_def)

lemma getLocationFromHW_typed:
  assumes "mock_typed g" "getLocationFromHW k tiny g t = Some (Some l, t')"
  shows "location_typed l"
proof -
  have "location_typed (location_default g s)" for s
    using assms(1) by (simp add: location_typed_def location_default_def mock_typed_def constants_typed)
  then show ?thesis using assms(2) location_lines_typed
    by (fastforce simp: getLocationFromHW_def elapsed_location_def Let_def
        split: if_splits Option.bind_splits option.splits prod.splits)
qed

lemma mock_locations_typed:
  assumes "mock_typed g"
  shows "location_typed (getMockLocationV1_0 g elapsed)" "location_typed (getMockLocationV2_0 g elapsed elapsed')"
  using assms by (simp_all add: getMockLocationV2_0_def getMockLocationV1_0_def location_typed_def mock_typed_def
      constants_typed)

lemma option_typed: "location_option tiny item g = Some (Some g') \<Longrightarrow> mock_typed g \<Longrightarrow> mock_typed g'"
  by (simp only: location_option_def split: if_split_asm) (auto simp: mock_typed_def dest: stof_single)

lemma options_typed:
  "fst (run_state (location_options k tiny fd options g) t) = Some g' \<Longrightarrow> mock_typed g \<Longrightarrow> mock_typed g'"
proof (induction options arbitrary: g t)
  case (Cons item options)
  then show ?case using option_typed [of tiny item g]
    by (cases "location_option tiny item g"; cases "the (location_option tiny item g)")
      (auto simp: dprintf_def split: prod.splits)
qed simp

lemma debug_typed:
  assumes "mock_typed g"
  shows "mock_typed (fst (fst (run_state (debug k tiny handle options g) t)))"
proof -
  have "mock_typed (option_values tiny os g)" if "options_readable tiny os" for os
    using options_typed [of k tiny 0 os g t "option_values tiny os g"] that assms by (simp add: location_options_eq)
  then show ?thesis using assms by (auto simp: debug_values split: option.splits list.splits)
qed

section \<open>Fixes in single precision\<close>

text \<open>What a sentence has set, once the flag of its kind says so.\<close>

definition fix_typed :: "nmea \<Rightarrow> bool" where
  "fix_typed i \<longleftrightarrow>
     (hasGGARecord i \<longrightarrow> in_format single (latDeg i) \<and> in_format single (lngDeg i) \<and> in_format single (altitudeMeters i)) \<and>
     (hasGMCRecord i \<longrightarrow> in_format single (speedMetersPerSec i) \<and> in_format single (bearingDegrees i))"

lemma degrees_typed: "degrees tiny s n = Some d \<Longrightarrow> in_format single d"
  by (auto simp: degrees_def in_format_convert split: Option.bind_splits)

lemma check_typed: "checkAndConvertToFloat tiny s = Some a \<Longrightarrow> in_format single a"
  by (auto simp: checkAndConvertToFloat_def dest: stof_single split: if_splits)

lemma parse_typed:
  "parseGGALine tiny vs i = Some i' \<Longrightarrow> fix_typed i \<Longrightarrow> fix_typed i'"
  "parseRMCLine tiny mk vs i = Some i' \<Longrightarrow> fix_typed i \<Longrightarrow> fix_typed i'"
  by (auto simp: parseGGALine_def parseRMCLine_def fix_typed_def Let_def in_format_neg
      dest: degrees_typed check_typed stof_single split: if_splits Option.bind_splits)

lemma fresh_typed [simp]: "fix_typed (NmeaFixInfo_new g)" "fix_typed (reset i)" "fix_typed (i\<lparr>fixId := n\<rparr>) = fix_typed i"
  by (simp_all add: fix_typed_def NmeaFixInfo_new_def reset_def)

section \<open>Fixes and uninitialised memory\<close>

text \<open>Two objects that agree on all that was set.\<close>

definition fix_agree :: "nmea \<Rightarrow> nmea \<Rightarrow> bool" where
  "fix_agree i j \<longleftrightarrow> hasGGARecord i = hasGGARecord j \<and> hasGMCRecord i = hasGMCRecord j \<and>
     (hasGGARecord i \<longrightarrow> latDeg i = latDeg j \<and> lngDeg i = lngDeg j \<and> altitudeMeters i = altitudeMeters j) \<and>
     (hasGMCRecord i \<longrightarrow> speedMetersPerSec i = speedMetersPerSec j \<and> bearingDegrees i = bearingDegrees j \<and>
        timestamp i = timestamp j)"

lemma parse_agree:
  "fix_agree i j \<Longrightarrow> rel_option fix_agree (parseGGALine tiny vs i) (parseGGALine tiny vs j)"
  "fix_agree i j \<Longrightarrow> rel_option fix_agree (parseRMCLine tiny mk vs i) (parseRMCLine tiny mk vs j)"
  by (auto simp: parseGGALine_def parseRMCLine_def fix_agree_def Let_def split: Option.bind_splits)

lemma fresh_agree [simp]:
  "fix_agree (NmeaFixInfo_new g) (NmeaFixInfo_new h)" "fix_agree (reset i) (reset j)"
  "fix_agree (i\<lparr>fixId := n\<rparr>) (j\<lparr>fixId := m\<rparr>) = fix_agree i j"
  by (auto simp: fix_agree_def NmeaFixInfo_new_def reset_def)

lemma agree_valid: "fix_agree i j \<Longrightarrow> isValidFix i = isValidFix j"
  by (auto simp: fix_agree_def isValidFix_def)

section \<open>A whole text\<close>

definition fix_sound :: "nmea \<Rightarrow> nmea \<Rightarrow> bool" where
  "fix_sound i j \<longleftrightarrow> fix_agree i j \<and> fix_typed i"

definition state_sound :: "nmea \<times> nmea \<times> u32 \<Rightarrow> nmea \<times> nmea \<times> u32 \<Rightarrow> bool" where
  "state_sound = rel_prod fix_sound (rel_prod fix_sound (=))"

lemma parse_sound:
  "fix_sound i j \<Longrightarrow> rel_option fix_sound (parseGGALine tiny vs i) (parseGGALine tiny vs j)"
  "fix_sound i j \<Longrightarrow> rel_option fix_sound (parseRMCLine tiny mk vs i) (parseRMCLine tiny mk vs j)"
  using parse_agree(1) [of i j tiny vs] parse_agree(2) [of i j tiny mk vs] parse_typed(1) [of tiny vs i] parse_typed(2) [of tiny mk vs i]
  by (auto simp: fix_sound_def rel_option_iff split: option.splits)

lemma fresh_sound [simp]:
  "fix_sound (NmeaFixInfo_new g) (NmeaFixInfo_new h)" "fix_sound (reset i) (reset j)"
  "fix_sound (i\<lparr>fixId := n\<rparr>) (j\<lparr>fixId := m\<rparr>) = fix_sound i j"
  by (simp_all add: fix_sound_def)

lemma sound_valid: "fix_sound i j \<Longrightarrow> isValidFix i = isValidFix j"
  by (auto simp: fix_sound_def agree_valid)

lemma nmea_line_sound:
  assumes "state_sound st st'"
  shows "rel_option state_sound (nmea_line tiny mk line st) (nmea_line tiny mk line st')"
proof -
  obtain f c n f' c' where st: "st = (f, c, n)" "st' = (f', c', n)" and s: "fix_sound f f'" "fix_sound c c'"
    using assms by (cases st; cases st') (auto simp: state_sound_def)
  have parsed: "rel_option state_sound
      (do { c \<leftarrow> (if has_tag GPGA_RECORD_TAG line then parseGGALine tiny vs (c1\<lparr>fixId := m\<rparr>) else parseRMCLine tiny mk vs c1);
            Some (f1, c, m) })
      (do { c \<leftarrow> (if has_tag GPGA_RECORD_TAG line then parseGGALine tiny vs (c2\<lparr>fixId := m\<rparr>) else parseRMCLine tiny mk vs c2);
            Some (f2, c, m) })"
    if "fix_sound f1 f2" "fix_sound c1 c2" for f1 f2 c1 c2 m vs
    using that(1) parse_sound(1) [of "c1\<lparr>fixId := m\<rparr>" "c2\<lparr>fixId := m\<rparr>" tiny vs] parse_sound(2) [OF that(2), of tiny mk vs] that(2)
    by (auto simp: state_sound_def rel_option_iff split: option.splits)
  let ?vs = "splitStr line COMMA_SEPARATOR"
  show ?thesis
  proof (cases "stof tiny (?vs ! 1)")
    case None
    then show ?thesis using assms by (simp add: nmea_line_def st Let_def)
  next
    case (Some t)
    show ?thesis
    proof (cases "fp_greater (fp_sub double (convert double t) (Num 0)) TIMESTAMP_EPSILON \<and> isValidFix c")
      case True
      then show ?thesis
        using assms Some sound_valid [OF s(2)] parsed [where m = "n + 1" and vs = ?vs, OF s(2) fresh_sound(2) [of c c']]
        by (auto simp: nmea_line_def st Let_def split: if_splits)
    next
      case False
      then show ?thesis
        using assms Some sound_valid [OF s(2)] parsed [where m = n and vs = ?vs, OF s]
        by (auto simp: nmea_line_def st Let_def split: if_splits)
    qed
  qed
qed

lemma nmea_lines_sound:
  "state_sound st st' \<Longrightarrow> rel_option state_sound (nmea_lines tiny mk ls st) (nmea_lines tiny mk ls st')"
proof (induction ls arbitrary: st st')
  case (Cons line ls)
  then show ?case using nmea_line_sound [OF Cons(2), of tiny mk line]
    by (cases "nmea_line tiny mk line st"; cases "nmea_line tiny mk line st'") auto
qed simp

lemma location_of_fix:
  assumes "fix_sound i j" "isValidFix i"
  shows "toGnssLocation elapsed i = toGnssLocation elapsed j" "location_typed (toGnssLocation elapsed i)"
  using assms
  by (auto simp: fix_sound_def fix_agree_def fix_typed_def isValidFix_def toGnssLocation_def location_typed_def constants_typed)

lemma getLocationFromInputStr_sound:
  "getLocationFromInputStr tiny mk elapsed g1 g2 text = getLocationFromInputStr tiny mk elapsed h1 h2 text"
  "pred_option (pred_option location_typed) (getLocationFromInputStr tiny mk elapsed g1 g2 text)"
proof -
  let ?run = "\<lambda>g1 g2. nmea_lines tiny mk (splitStr text LINE_SEPARATOR) (NmeaFixInfo_new g1, NmeaFixInfo_new g2, 0)"
  have "rel_option state_sound (?run g1 g2) (?run h1 h2)" by (rule nmea_lines_sound) (simp add: state_sound_def)
  moreover have "fix_sound (last_fix st) (last_fix st')" if "state_sound st st'" for st st'
    using that sound_valid by (cases st; cases st') (auto simp: state_sound_def last_fix_def)
  ultimately show "getLocationFromInputStr tiny mk elapsed g1 g2 text = getLocationFromInputStr tiny mk elapsed h1 h2 text"
    "pred_option (pred_option location_typed) (getLocationFromInputStr tiny mk elapsed g1 g2 text)"
    using location_of_fix sound_valid
    by (cases "?run g1 g2"; cases "?run h1 h2"; fastforce simp: getLocationFromInputStr_def)+
qed

text \<open>
  C33. Every location the service reports is well typed: its numbers are of single precision, those of the
  mock locations, those of the device file and those of NMEA sentences, which were computed in double precision; the debug command
  keeps the mock location well typed; and what a text of sentences yields never depends on the
  members its objects have before a sentence sets them, which the constructor leaves uninitialised.
\<close>

theorem reported_locations_typed:
  assumes "mock_typed g"
  shows "pred_option (\<lambda>(l, t'). pred_option location_typed l) (getLocationFromHW k tiny g t) \<and>
    location_typed (getMockLocationV1_0 g elapsed) \<and> location_typed (getMockLocationV2_0 g elapsed elapsed') \<and>
    mock_typed (fst (fst (run_state (debug k tiny handle options g) t))) \<and>
    pred_option (pred_option location_typed) (getLocationFromInputStr tiny mk elapsed g1 g2 text) \<and>
    getLocationFromInputStr tiny mk elapsed g1 g2 text = getLocationFromInputStr tiny mk elapsed h1 h2 text"
proof -
  have "pred_option (\<lambda>(l, t'). pred_option location_typed l) (getLocationFromHW k tiny g t)"
    using getLocationFromHW_typed [OF assms] by (cases "getLocationFromHW k tiny g t") (auto simp: option.pred_set split: prod.splits)
  then show ?thesis
    by (intro conjI debug_typed mock_locations_typed getLocationFromInputStr_sound assms)
qed

text \<open>The device file of the demonstration, the mock location set by a command, and a text of two sentences.\<close>

theorem reported_locations_typed_witness:
  "\<exists>l t'. getLocationFromHW demo_kernel (\<lambda>x. False) mock_location_init [] = Some (Some l, t') \<and> location_typed l \<and>
    mock_typed (fst (fst (run_state (debug no_file_kernel (\<lambda>x. False) (Some [5]) [''location'', ''lat=0.1''] mock_location_init) [])))"
proof -
  have "\<exists>l t'. getLocationFromHW demo_kernel (\<lambda>x. False) mock_location_init [] = Some (Some l, t')"
    using demo_read by (simp add: getLocationFromHW_def elapsed_location_def location_lines_eq demo_items demo_values
        demo_kernel_def Let_def)
  with reported_locations_typed [OF mock_location_init_typed, where tiny = "\<lambda>x. False" and k = demo_kernel and t = "[]"]
    reported_locations_typed [OF mock_location_init_typed, where tiny = "\<lambda>x. False" and
      k = no_file_kernel and t = "[]" and handle = "Some [5]" and options = "[''location'', ''lat=0.1'']"]
  show ?thesis by auto
qed

end
