(* ===== verification/Services.thy ===== *)
theory Services
  imports Locations
begin

text \<open>
  The interfaces of the GNSS service that keep no more than a callback and a counter: the AIDL service
  (\<open>gps/gnss/aidl/default/Gnss.cpp\<close>), its power indication (\<open>GnssPowerIndication.cpp\<close>) and assistance data
  (\<open>GnssPsds.cpp\<close>), and the debug data and measurement corrections of the HIDL service
  (\<open>v2_1/GnssDebug.cpp\<close>, \<open>v2_1/GnssMeasurementCorrections.cpp\<close> in \<open>gps/gnss/common/utils/default\<close>).
  A callback is a number, an object the number of its creation; \<open>None\<close> as a result is undefined behaviour.
  The codes of the generated interfaces are parameters.
\<close>

section \<open>The AIDL service\<close>

datatype status = Ok | ExceptionCode int | ServiceSpecific int

text \<open>\<open>created\<close> counts the objects made by \<open>SharedRefBase::make\<close>.\<close>

record gnss_aidl =
  sGnssCallback :: "nat option"
  mGnssConfiguration :: "nat option"
  mGnssPowerIndication :: "nat option"
  created :: nat
  capabilities_told :: "(nat \<times> int) list"

text \<open>\<open>CAPABILITIES\<close>: the three flags of the interface, or-ed.\<close>

definition Gnss_setCallback :: "int \<Rightarrow> int \<Rightarrow> nat option \<Rightarrow> gnss_aidl \<Rightarrow> status \<times> gnss_aidl" where
  "Gnss_setCallback STATUS_INVALID_OPERATION CAPABILITIES callback g =
     (case callback of
        None \<Rightarrow> (ExceptionCode STATUS_INVALID_OPERATION, g)
      | Some cb \<Rightarrow> (Ok, g\<lparr>sGnssCallback := Some cb, capabilities_told := capabilities_told g @ [(cb, CAPABILITIES)]\<rparr>))"

definition Gnss_close :: "gnss_aidl \<Rightarrow> status \<times> gnss_aidl" where
  "Gnss_close g = (Ok, g\<lparr>sGnssCallback := None\<rparr>)"

definition make_object :: "gnss_aidl \<Rightarrow> nat \<times> gnss_aidl" where
  "make_object g = (created g, g\<lparr>created := created g + 1\<rparr>)"

definition Gnss_getExtensionPsds :: "gnss_aidl \<Rightarrow> nat \<times> gnss_aidl" where
  "Gnss_getExtensionPsds g = make_object g"

definition Gnss_getExtensionGnssConfiguration :: "gnss_aidl \<Rightarrow> nat \<times> gnss_aidl" where
  "Gnss_getExtensionGnssConfiguration g =
     (let g = (if mGnssConfiguration g = None then let (c, g) = make_object g in g\<lparr>mGnssConfiguration := Some c\<rparr> else g)
      in (the (mGnssConfiguration g), g))"

definition Gnss_getExtensionGnssPowerIndication :: "gnss_aidl \<Rightarrow> nat \<times> gnss_aidl" where
  "Gnss_getExtensionGnssPowerIndication g =
     (let g = (if mGnssPowerIndication g = None then let (c, g) = make_object g in g\<lparr>mGnssPowerIndication := Some c\<rparr> else g)
      in (the (mGnssPowerIndication g), g))"

definition Gnss_getExtensionGnssMeasurement :: "gnss_aidl \<Rightarrow> nat \<times> gnss_aidl" where
  "Gnss_getExtensionGnssMeasurement g = make_object g"

section \<open>Power indication\<close>

record power_stats =
  stats_timestampNs :: int
  stats_timeUncertaintyNs :: fp
  totalEnergyMilliJoule :: fp
  singlebandTrackingModeEnergyMilliJoule :: fp
  multibandTrackingModeEnergyMilliJoule :: fp
  singlebandAcquisitionModeEnergyMilliJoule :: fp
  multibandAcquisitionModeEnergyMilliJoule :: fp
  otherModesEnergyMilliJoule :: "fp list"

datatype power_event = PowerCapabilities | PowerStats power_stats

record power_indication =
  power_callback :: "nat option"
  numLocationReported :: int
  power_told :: "(nat \<times> power_event) list"

text \<open>\<open>make\<close> creates the object with \<open>new T()\<close>, which sets the counter to 0.\<close>

definition GnssPowerIndication_new :: power_indication where
  "GnssPowerIndication_new = \<lparr>power_callback = None, numLocationReported = 0, power_told = []\<rparr>"

text \<open>The mutex is held by both functions all the time; a null callback is used.\<close>

definition power_setCallback :: "nat option \<Rightarrow> power_indication \<Rightarrow> power_indication option" where
  "power_setCallback callback p =
     (case callback of
        None \<Rightarrow> None
      | Some cb \<Rightarrow> Some (p\<lparr>power_callback := Some cb, power_told := power_told p @ [(cb, PowerCapabilities)]\<rparr>))"

definition energy :: "real \<Rightarrow> nat \<Rightarrow> int \<Rightarrow> fp" where
  "energy base per_location n =
     fp_add double (Num base) (fp_mul double (round_fp double False (of_int n)) (Num (real per_location)))"

definition power_stats_at :: "int \<Rightarrow> int \<Rightarrow> power_stats" where
  "power_stats_at elapsed n =
     \<lparr>stats_timestampNs = elapsed, stats_timeUncertaintyNs = Num 1000, totalEnergyMilliJoule = energy 1500 22 n,
      singlebandTrackingModeEnergyMilliJoule = Num 0, multibandTrackingModeEnergyMilliJoule = energy 128 4 n,
      singlebandAcquisitionModeEnergyMilliJoule = Num 0, multibandAcquisitionModeEnergyMilliJoule = energy 365 15 n,
      otherModesEnergyMilliJoule = [round_fp double False (1232 / 10), Num 3234]\<rparr>"

definition requestGnssPowerStats :: "int \<Rightarrow> power_indication \<Rightarrow> power_indication option" where
  "requestGnssPowerStats elapsed p =
     (case power_callback p of
        None \<Rightarrow> None
      | Some cb \<Rightarrow> Some (p\<lparr>power_told := power_told p @ [(cb, PowerStats (power_stats_at elapsed (numLocationReported p)))]\<rparr>))"

text \<open>\<open>numLocationReported++\<close> on an \<open>int\<close>, undefined when it overflows.\<close>

definition notePowerConsumption :: "power_indication \<Rightarrow> power_indication option" where
  "notePowerConsumption p =
     (if numLocationReported p = 2 ^ 31 - 1 then None else Some (p\<lparr>numLocationReported := numLocationReported p + 1\<rparr>))"

section \<open>Assistance data, debug data and corrections\<close>

definition Psds_setCallback :: "nat option \<Rightarrow> nat option \<Rightarrow> status \<times> nat option" where
  "Psds_setCallback callback sCallback = (Ok, callback)"

definition injectPsdsData :: "int \<Rightarrow> bytes \<Rightarrow> status" where
  "injectPsdsData ERROR_INVALID_ARGUMENT psdsData =
     (if length psdsData > 0 then Ok else ServiceSpecific ERROR_INVALID_ARGUMENT)"

record debug_data =
  valid :: bool
  debug_position :: mock_location
  debug_horizontalAccuracyMeters :: fp
  debug_verticalAccuracyMeters :: fp
  debug_speedAccuracyMetersPerSecond :: fp
  debug_bearingAccuracyDegrees :: fp
  ageSeconds :: fp
  timeEstimate :: int
  debug_timeUncertaintyNs :: fp
  frequencyUncertaintyNsPerSec :: fp

definition getDebugData :: "mock_location \<Rightarrow> debug_data" where
  "getDebugData g =
     \<lparr>valid = True, debug_position = g, debug_horizontalAccuracyMeters = kMockHorizontalAccuracyMeters,
      debug_verticalAccuracyMeters = kMockVerticalAccuracyMeters,
      debug_speedAccuracyMetersPerSecond = kMockSpeedAccuracyMetersPerSecond,
      debug_bearingAccuracyDegrees = kMockBearingAccuracyDegrees, ageSeconds = round_fp single False (99 / 100),
      timeEstimate = kMockTimestamp, debug_timeUncertaintyNs = Num 1000, frequencyUncertaintyNsPerSec = Num 50000\<rparr>"

text \<open>The corrections are only logged; \<open>ok\<close> is whether the callback could be invoked.\<close>

definition corrections_setCallback :: "bool \<Rightarrow> bool" where
  "corrections_setCallback ok = (if \<not> ok then False else True)"

section \<open>The extensions of the HIDL service\<close>

text \<open>
  What the functions of \<open>GnssTemplate.h\<close> answer that touch neither the session nor the location: a null
  pointer, a new object, or the one configuration.
\<close>

datatype extension =
    Null | New_GnssMeasurement | New_GnssDebug | New_MeasurementCorrections | New_GnssAntennaInfo
  | TheConfiguration

datatype request_1_0 =
    AGnssRil | GnssGeofencing | AGnss | GnssNi | GnssMeasurement | GnssNavigationMessage | Xtra
  | GnssConfiguration | GnssDebug | GnssBatching

fun getExtension_1_0 :: "request_1_0 \<Rightarrow> extension" where
  "getExtension_1_0 GnssMeasurement = New_GnssMeasurement"
| "getExtension_1_0 GnssDebug = New_GnssDebug"
| "getExtension_1_0 _ = Null"

datatype request_1_1 = GnssConfiguration_1_1 | GnssMeasurement_1_1

fun getExtension_1_1 :: "request_1_1 \<Rightarrow> extension" where
  "getExtension_1_1 _ = Null"

datatype request_2_0 =
    GnssConfiguration_2_0 | GnssDebug_2_0 | AGnss_2_0 | AGnssRil_2_0 | GnssMeasurement_2_0
  | MeasurementCorrections | VisibilityControl | GnssBatching_2_0

fun getExtension_2_0 :: "request_2_0 \<Rightarrow> extension" where
  "getExtension_2_0 GnssConfiguration_2_0 = TheConfiguration"
| "getExtension_2_0 GnssMeasurement_2_0 = New_GnssMeasurement"
| "getExtension_2_0 MeasurementCorrections = New_MeasurementCorrections"
| "getExtension_2_0 _ = Null"

datatype request_2_1 =
    GnssMeasurement_2_1 | GnssConfiguration_2_1 | MeasurementCorrections_1_1 | GnssAntennaInfo

fun getExtension_2_1 :: "request_2_1 \<Rightarrow> extension" where
  "getExtension_2_1 GnssMeasurement_2_1 = New_GnssMeasurement"
| "getExtension_2_1 GnssConfiguration_2_1 = TheConfiguration"
| "getExtension_2_1 MeasurementCorrections_1_1 = New_MeasurementCorrections"
| "getExtension_2_1 GnssAntennaInfo = New_GnssAntennaInfo"

text \<open>Time and location are accepted and ignored; the location of version 2.0 is refused.\<close>

definition injectTime :: bool where "injectTime = True"
definition injectLocation :: bool where "injectLocation = True"
definition injectBestLocation :: bool where "injectBestLocation = True"
definition injectBestLocation_2_0 :: bool where "injectBestLocation_2_0 = False"

section \<open>What the client is told of the energy\<close>

fun note_times :: "nat \<Rightarrow> power_indication \<Rightarrow> power_indication option" where
  "note_times 0 p = Some p"
| "note_times (Suc n) p = (case notePowerConsumption p of None \<Rightarrow> None | Some p \<Rightarrow> note_times n p)"

lemma note_times_count:
  "0 \<le> numLocationReported p \<Longrightarrow> numLocationReported p + int n < 2 ^ 31 \<Longrightarrow>
   note_times n p = Some (p\<lparr>numLocationReported := numLocationReported p + int n\<rparr>)"
  by (induction n arbitrary: p) (simp_all add: notePowerConsumption_def)

lemma energy_exact:
  assumes "b < 2 ^ 20" "m < 2 ^ 10" "n < 2 ^ 31"
  shows "energy (real b) m (int n) = Num (real (b + m * n))"
proof -
  have "m * n \<le> 2 ^ 10 * 2 ^ 31" using assms by (intro mult_mono) auto
  then have le: "m * n < 2 ^ 53" "b + m * n < 2 ^ 53" using assms(1) by simp_all
  have "round_fp double False (of_int (int n)) = Num (real n)"
    using round_double_nat [of n] assms(3) by simp
  then show ?thesis
    using double_nat_arith(1) [of n m] double_nat_arith(2) [of b "m * n"] le
    by (simp add: energy_def mult.commute)
qed

text \<open>
  C39. After \<open>n\<close> rounds of the reporting thread, as long as the counter does not overflow, the client of
  the power indication is told energies that are exact: 1500 mJ and 22 mJ for every location, of which
  128 mJ and 4 mJ are for tracking, and 365 mJ and 15 mJ for acquisition.
\<close>

theorem power_stats_exact:
  assumes "n < 2 ^ 31" "power_setCallback (Some cb) GnssPowerIndication_new = Some p" "note_times n p = Some p'"
    and "requestGnssPowerStats elapsed p' = Some p''"
  shows "\<exists>stats. last (power_told p'') = (cb, PowerStats stats) \<and> stats_timestampNs stats = elapsed \<and>
    totalEnergyMilliJoule stats = Num (1500 + 22 * real n) \<and>
    multibandTrackingModeEnergyMilliJoule stats = Num (128 + 4 * real n) \<and>
    multibandAcquisitionModeEnergyMilliJoule stats = Num (365 + 15 * real n)"
proof -
  have p: "p = GnssPowerIndication_new\<lparr>power_callback := Some cb, power_told := [(cb, PowerCapabilities)]\<rparr>"
    using assms(2) by (simp add: power_setCallback_def GnssPowerIndication_new_def)
  then have "p' = p\<lparr>numLocationReported := int n\<rparr>"
    using assms(1,3) note_times_count [of p n] by (simp add: GnssPowerIndication_new_def)
  then show ?thesis
    using assms(1,4) p energy_exact [of 1500 22 n] energy_exact [of 128 4 n] energy_exact [of 365 15 n]
    by (auto simp: requestGnssPowerStats_def power_stats_at_def GnssPowerIndication_new_def)
qed

theorem power_stats_exact_witness:
  "\<exists>p. note_times 2 (GnssPowerIndication_new\<lparr>power_callback := Some 7, power_told := [(7, PowerCapabilities)]\<rparr>) = Some p \<and>
     (\<exists>p' stats. requestGnssPowerStats 5 p = Some p' \<and> last (power_told p') = (7, PowerStats stats) \<and>
        totalEnergyMilliJoule stats = Num 1544)"
proof -
  let ?p = "GnssPowerIndication_new\<lparr>power_callback := Some 7, power_told := [(7, PowerCapabilities)]\<rparr>"
  have set: "power_setCallback (Some 7) GnssPowerIndication_new = Some ?p"
    by (simp add: power_setCallback_def GnssPowerIndication_new_def)
  have noted: "note_times 2 ?p = Some (?p\<lparr>numLocationReported := 2\<rparr>)"
    by (simp add: note_times_count GnssPowerIndication_new_def)
  obtain p' where p': "requestGnssPowerStats 5 (?p\<lparr>numLocationReported := 2\<rparr>) = Some p'"
    by (simp add: requestGnssPowerStats_def)
  from power_stats_exact [OF _ set noted p'] noted p' show ?thesis by auto
qed

text \<open>The service has one configuration and one power indication.\<close>

lemma getExtension_same:
  "Gnss_getExtensionGnssConfiguration (snd (Gnss_getExtensionGnssConfiguration g)) = Gnss_getExtensionGnssConfiguration g"
  "Gnss_getExtensionGnssPowerIndication (snd (Gnss_getExtensionGnssPowerIndication g)) = Gnss_getExtensionGnssPowerIndication g"
  by (simp_all add: Gnss_getExtensionGnssConfiguration_def Gnss_getExtensionGnssPowerIndication_def make_object_def Let_def)

end
