(* ===== verification/GnssMain.thy ===== *)
theory GnssMain
  imports Services Blocklist
begin

text \<open>
  The process of the GNSS service (\<open>gps/gnss/aidl/default/service.cpp\<close>).  The binder libraries are not
  part of the repository: what they return is a parameter, and what \<open>main\<close> asks of them is a list.
\<close>

datatype binder_call =
    SetThreadPoolMaxThreadCount nat | StartThreadPool | AddService string | ConfigureRpcThreadpool nat bool
  | RegisterAsService | JoinRpcThreadpool | JoinThreadPool

datatype process_end = Abort | Exit int | Runs

text \<open>\<open>STATUS_OK\<close> and \<open>OK\<close> are both 0.\<close>

record binder_library =
  addService_status :: int
  registerAsService_status :: int
  joinRpc_returns :: bool
  join_returns :: bool

definition service_main :: "string \<Rightarrow> binder_library \<Rightarrow> binder_call list \<times> process_end" where
  "service_main descriptor b =
     (let calls = [SetThreadPoolMaxThreadCount 1, StartThreadPool, AddService (descriptor @ ''/default'')]
      in if addService_status b \<noteq> 0 then (calls, Abort)
         else let calls = calls @ [ConfigureRpcThreadpool 1 True, RegisterAsService]
           in if registerAsService_status b \<noteq> 0 then (calls, Exit 0)
              else let calls = calls @ [JoinRpcThreadpool]
                in if \<not> joinRpc_returns b then (calls, Runs)
                   else if \<not> join_returns b then (calls @ [JoinThreadPool], Runs)
                   else (calls @ [JoinThreadPool], Exit 1))"

text \<open>
  The process serves its clients only with both services registered, the AIDL one first; it reports
  success to the system exactly when it does not serve them, because the HIDL service was refused.
\<close>

theorem service_main_success_is_failure:
  "(snd (service_main descriptor b) = Exit 0 \<longleftrightarrow> addService_status b = 0 \<and> registerAsService_status b \<noteq> 0) \<and>
   (JoinRpcThreadpool \<in> set (fst (service_main descriptor b)) \<longleftrightarrow>
      addService_status b = 0 \<and> registerAsService_status b = 0) \<and>
   (snd (service_main descriptor b) = Runs \<longrightarrow> JoinRpcThreadpool \<in> set (fst (service_main descriptor b)))"
  by (auto simp: service_main_def Let_def)

end
