(* ===== verification/Spec2Isabelle.thy ===== *)
theory Spec2Isabelle
  imports ClientProps ServerProps ProxyProps NamespaceProps Radios
    Session MeasurementAidl Antenna MockMeasurements LocationTypes GnssMain
begin

text \<open>
  A verification library for the C++ programs of this repository: the network services an Android
  system without a radio runs, and the tools around them.

  The programs and how they work together.  A virtual device has its access point in a network
  namespace of its own.  \<open>createns\<close> creates the namespace, binds it to a file and leaves its process
  id in another; \<open>execns\<close> and \<open>ipv6proxy\<close> enter it through these files.  \<open>mac80211_create_radios\<close>
  asks the kernel for the simulated radios.  The GNSS service reports mock satellites and measurements
  and the location a device file gives.  Inside, \<open>dhcpserver\<close> gives addresses to \<open>dhcpclient\<close>,
  which configures its interface from them, and \<open>ipv6proxy\<close> forwards neighbor discovery between the
  interfaces inside and the one outside.

  How the programs are modelled.  A program is a state monad over the trace of its system calls
  (theory \<open>World\<close>); the kernel is a parameter, any function from the trace to the answer of its
  last call, so every error is possible at every call and nothing is assumed of the system unless a
  theorem says so.  Memory is a function from offsets to bytes (\<open>Prelude\<close>), so that a read behind a
  struct is a read of whatever lies there.  Integers have the width of the code.  Loops that end are
  structural or have a measure; the loops over the options of a neighbor discovery message and the
  one that writes a process id may not end and are \<open>partial_function (option)\<close> with \<open>None\<close> for
  that; programs that run for ever are step relations.  No fuel is used anywhere.

  Theories, with their sources under \<open>src/\<close>:

  \<^item> \<open>Prelude\<close>: integers, memory, byte order, \<open>Result\<close> (\<open>wifi/dhcp/common/include/result.h\<close>), the
    locale \<open>machine\<close> of the programs that run for ever.  \<open>World\<close>: system calls, and \<open>now\<close> of
    \<open>wifi/dhcp/client/timer.cpp\<close>.  \<open>Text\<close>: numbers and addresses as the C library prints them.
  \<^item> \<open>Message\<close>, \<open>Options\<close>, \<open>MessageProps\<close> (\<open>wifi/dhcp/common/message.cpp\<close>): the DHCP message, its
    writer and scanner, an encoder of option lists the writer is shown to implement, round trips of
    every message that is built, and the bounds of both.
  \<^item> \<open>Checksum\<close>, \<open>DhcpSocket\<close> (\<open>wifi/dhcp/common/socket.cpp\<close>): the Internet checksum against its
    definition, and the raw UDP packets.
  \<^item> \<open>Netlink\<close>, \<open>Interface\<close> (\<open>wifi/dhcp/client/interface.cpp\<close>, \<open>wifi/dhcp/client/router.cpp\<close>,
    \<open>wifi/dhcp/client/netlink.h\<close>): requests byte by byte, read back by a parser of netlink requests, and
    every outcome of the calls.
  \<^item> \<open>Client\<close>, \<open>ClientProps\<close> (\<open>wifi/dhcp/client/dhcpclient.cpp\<close>, \<open>timer.cpp\<close>, \<open>main.cpp\<close>): the
    client as a machine with the states of RFC 2131: its moves, timeouts, retries and configuration.
  \<^item> \<open>Server\<close>, \<open>Allocation\<close>, \<open>ServerProps\<close> (\<open>wifi/dhcp/server/\<close>): the server as a machine whose leases
    refine an abstract pool of addresses: uniqueness, stability, exhaustion, and its answers.
  \<^item> \<open>ProxyPacket\<close>, \<open>ProxySocket\<close>, \<open>Proxy\<close>, \<open>ProxyProps\<close> (\<open>network/ipv6proxy/\<close>): packets and their
    options, with the locale \<open>option_loop\<close> both loops over the options are instances of; sockets,
    addresses, interfaces and routes; the handlers against a specification of what is forwarded to
    whom, when they return, and what the running proxy never does.
  \<^item> \<open>Namespaces\<close>, \<open>NamespaceProps\<close> (\<open>network/createns/createns.cpp\<close>, \<open>network/execns/execns.cpp\<close>):
    the namespace tools, the order of what they do, and that all three programs agree on the files.
  \<^item> \<open>Radios\<close> (\<open>wifi/mac80211_create_radios/main.cpp\<close>): the messages to the driver, over any netlink
    library.
  \<^item> \<open>Floats\<close>: single and double precision, and \<open>std::stof\<close>.  \<open>Nmea\<close>
    (\<open>gps/gnss/common/utils/default/NmeaFixInfo.cpp\<close>), \<open>Locations\<close> (\<open>getLocationFromHW\<close> and \<open>debug\<close> of
    \<open>include/v2_1/GnssTemplate.h\<close> there): what location is made of which text, and when they throw.  \<open>LocationTypes\<close>: every reported
    number has single precision, and none is memory the parser left uninitialised.
  \<^item> \<open>HashTable\<close>: the containers of the standard library with a hash and an equality of the code, by the
    locale \<open>hashed\<close>, which the leases (\<open>wifi/dhcp/server/lease.h\<close>) and the block lists interpret.
  \<^item> \<open>Blocklist\<close> (the \<open>GnssConfiguration.cpp\<close> of both interfaces and \<open>gps/gnss/aidl/default/GnssHidlHal.cpp\<close>):
    which satellites are used in the fix.  \<open>MockData\<close>,
    \<open>MockMeasurements\<close> (\<open>Utils.cpp\<close>): the mock satellites and antennas, and the measurements with their flags.
  \<^item> \<open>Session\<close> (\<open>GnssTemplate.h\<close>), \<open>Measurement\<close> (\<open>v2_1/GnssMeasurement.cpp\<close>), \<open>MeasurementAidl\<close>
    (\<open>gps/gnss/aidl/default/GnssMeasurementInterface.cpp\<close>): the threads of the GNSS service, every access
    to what they share a step: deadlocks, crashes, and what is reported after the end.  \<open>Session\<close> has
    the lifetimes of the callbacks and of the object too, and the way an \<open>sp\<close> is assigned as a
    parameter; it takes what \<open>getLocationFromHW\<close> may return from \<open>Locations\<close>.  \<open>Antenna\<close>
    (\<open>v2_1/GnssAntennaInfo.cpp\<close>): an interface that has the steps of \<open>Measurement\<close> and its deadlock.
  \<^item> \<open>Services\<close> (\<open>gps/gnss/aidl/default/\<close>: \<open>Gnss.cpp\<close>, \<open>GnssPowerIndication.cpp\<close>, \<open>GnssPsds.cpp\<close>): the
    interfaces that keep a callback and a counter, and the extensions of the HIDL service.  \<open>GnssMain\<close>
    (\<open>service.cpp\<close> there): the process, which registers both services, and its exit status.

  This theory holds the property that spans the DHCP client and server.

  Not modelled: log output (but for one message of \<open>execns\<close> that is put together in a buffer), the
  usage texts, and what signals do, of which only the mask is set; descriptors the system closes when a
  process exits; of the measurement corrections the setters, which only log.  Data races of C++ are no
  steps: where threads share a variable without synchronisation its accesses are taken as atomic, and
  in \<open>Session\<close> an assignment that releases an object as two.  Scripts and build files hold no code of
  these programs.
\<close>

section \<open>Client and server\<close>

text \<open>
  C1. The four way exchange: the server answers a client's discover with an offer; the request the
  client makes of this offer, whatever the server did in between for other clients, is answered
  with an acknowledgement of the same address under the request's transaction id, and what the
  client configures from it is that address, the interface's netmask, and the server as gateway.
\<close>

theorem handshake:
  assumes "length mac = ETH_ALEN" and "discovered = fst (discover mac x1)"
    and "lease_address i addr nmask (chaddr (dhcp discovered)) (mMaps s) = (Some a, maps)"
    and "offered \<in> set (reply addr nmask (Some a) discovered ds1 y1)" and "length ds1 \<le> 4"
    and "requested = fst (request mac (yiaddr (dhcp offered)) (serverId offered) x2)"
    and "(server_next k)\<^sup>*\<^sup>* (s\<lparr>mMaps := maps\<rparr>) s'"
    and "lease = fst (lease_address i addr nmask (chaddr (dhcp requested)) (mMaps s'))"
    and "length ds2 \<le> 4"
  shows "\<exists>acked. reply addr nmask lease requested ds2 y2 = [acked] \<and>
    isValidDhcpMessageXid acked OP_BOOTREPLY (xid (dhcp requested)) \<and>
    message_type acked = DHCPACK \<and> yiaddr (dhcp acked) = a \<and>
    (\<forall>kc c ok c'. run_state (configureDhcp kc acked) c = (ok, c') \<longrightarrow>
       offeredAddress (mDhcpInfo c') = a \<and> subnetMask (mDhcpInfo c') = nmask \<and>
       gateway (mDhcpInfo c') = addr \<and> info_serverId (mDhcpInfo c') = addr)"
proof -
  note d = discover_facts [OF assms(1,2)]
  have nd: "DHCPREQUEST \<noteq> DHCPDISCOVER" by (simp add: DHCPREQUEST_def DHCPDISCOVER_def)
  have off: "offered = fst (lease_reply DHCPOFFER discovered addr a nmask addr ds1 y1)"
    using assms(4) d(2) by (simp add: reply_def offer_def)
  have o: "yiaddr (dhcp offered) = a" "serverId offered = addr"
    using lease_reply_facts(3,4) [OF _ off] assms(5) by simp_all
  note r = request_facts [OF assms(1) assms(6) [unfolded o]]
  have same: "take ETH_ALEN (chaddr (dhcp requested)) = take ETH_ALEN (chaddr (dhcp discovered))"
    using d(3) r(5) by simp
  have "pool_held i maps (take ETH_ALEN (chaddr (dhcp discovered))) = Some a"
    using lease_address_cases [of i "mMaps s" "chaddr (dhcp discovered)" addr nmask]
      in_range_nonzero assms(3) by cases auto
  then have "pool_held i (mMaps s') (take ETH_ALEN (chaddr (dhcp requested))) = Some a"
    using leases_kept [OF assms(7)] same by simp
  from pool.alloc_stable [OF this] have l: "lease = Some a"
    by (simp add: assms(8) del: Dhcp_at_sel)
  let ?acked = "fst (ack requested addr a nmask addr ds2 y2)"
  have acked: "?acked = fst (lease_reply DHCPACK requested addr a nmask addr ds2 y2)"
    by (simp add: ack_def)
  have le: "length ds2 \<le> 63" using assms(9) by simp
  have "reply addr nmask lease requested ds2 y2 = [?acked]"
    using l r(2,3) nd by (simp add: reply_def)
  moreover have "offeredAddress (mDhcpInfo c') = a \<and> subnetMask (mDhcpInfo c') = nmask \<and>
      gateway (mDhcpInfo c') = addr \<and> info_serverId (mDhcpInfo c') = addr"
    if "run_state (configureDhcp kc ?acked) c = (ok, c')" for kc c ok c'
    using ack_configures(1) [OF le refl that] by simp
  ultimately show ?thesis
    using lease_reply_facts(1,2,4) [OF le acked] by blast
qed

theorem handshake_witness:
  "\<exists>acked. message_type acked = DHCPACK \<and> yiaddr (dhcp acked) = 0x0202000A"
proof -
  let ?d = "fst (discover [2, 0, 0, 0, 0, 1] 7)" and ?s = "DhcpServer_new 0 0 []"
  let ?o = "fst (offer ?d 0x0102000A 0x0202000A 0x00FFFFFF 0x0102000A [] 1)"
  let ?L = "lease_address 2 0x0102000A 0x00FFFFFF (chaddr (dhcp ?d)) (mMaps ?s)"
  have L: "?L = (Some 0x0202000A, snd ?L)"
    using demo_lease [of 2 "chaddr (dhcp ?d)"] by (simp add: prod_eq_iff DhcpServer_new_def)
  have "message_type ?d = DHCPDISCOVER"
    by (rule discover_facts(2) [OF _ refl]) (simp add: ETH_ALEN_def)
  then have o: "?o \<in> set (reply 0x0102000A 0x00FFFFFF (Some 0x0202000A) ?d [] 1)"
    by (simp add: reply_def)
  have mac: "length [2, 0, 0, 0, 0, 1 :: u8] = ETH_ALEN" and none: "length ([] :: u32 list) \<le> 4"
    by (simp_all add: ETH_ALEN_def)
  show ?thesis
    using handshake [OF mac refl L o none refl rtranclp.rtrancl_refl refl none] by blast
qed

end
